(* ===== verification/Prelude.thy ===== *)
theory Prelude
  imports Main "HOL-Library.AList" "HOL-Library.Char_ord" "HOL-Library.List_Lexorder"
begin

text \<open>
  What every component of the development shares: Python's \<open>str\<close> as its UTF-8 bytes,
  Python's ordered \<open>dict\<close> as an association list, exceptions as the left side of a sum,
  loops that may raise, and the interface of a state machine whose steps keep an invariant.

  A Python string is represented by the bytes of its UTF-8 encoding, one \<open>char\<close> per byte.
  Equality, concatenation, prefix and suffix tests and the order of \<open>sorted\<close> on strings
  (by code point) are the same on both sides; \<open>len(s.encode())\<close> is \<open>length s\<close>, and
  \<open>len(s)\<close> is \<open>py_len s\<close> below.
\<close>

named_theorems err_simps \<open>how a computation that may raise succeeds or fails\<close>
named_theorems dict_simps \<open>lookups in an updated dictionary\<close>

section \<open>Exceptions as values\<close>

definition bindE :: "'e + 'a \<Rightarrow> ('a \<Rightarrow> 'e + 'b) \<Rightarrow> 'e + 'b" where
  "bindE r f = (case r of Inl e \<Rightarrow> Inl e | Inr x \<Rightarrow> f x)"

definition raise_if :: "bool \<Rightarrow> 'e \<Rightarrow> 'e + unit" where
  "raise_if c e = (if c then Inl e else Inr ())"

text \<open>A \<open>for\<close> loop whose body updates the state \<open>s\<close> or raises.\<close>

fun foldE :: "('s \<Rightarrow> 'a \<Rightarrow> 'e + 's) \<Rightarrow> 's \<Rightarrow> 'a list \<Rightarrow> 'e + 's" where
  "foldE f s [] = Inr s"
| "foldE f s (x # xs) = (case f s x of Inl e \<Rightarrow> Inl e | Inr s' \<Rightarrow> foldE f s' xs)"

lemma bindE_simps [simp]: "bindE (Inl e) f = Inl e" "bindE (Inr x) f = f x"
  by (simp_all add: bindE_def)

lemma bindE_Inr_iff [err_simps]:
  "bindE r f = Inr y \<longleftrightarrow> (\<exists>x. r = Inr x \<and> f x = Inr y)"
  by (cases r) auto

lemma bindE_Inl_iff [err_simps]:
  "bindE r f = Inl e \<longleftrightarrow> r = Inl e \<or> (\<exists>x. r = Inr x \<and> f x = Inl e)"
  by (cases r) auto

lemma raise_if_Inr_iff [err_simps]: "raise_if c e = Inr u \<longleftrightarrow> \<not> c"
  by (simp add: raise_if_def)

lemma raise_if_Inl_iff [err_simps]: "raise_if c e = Inl e' \<longleftrightarrow> c \<and> e' = e"
  by (auto simp: raise_if_def)

lemma foldE_single [simp]: "foldE f s [x] = f s x"
  by (cases "f s x") simp_all

lemma foldE_append:
  "foldE f s (xs @ ys) = bindE (foldE f s xs) (\<lambda>s'. foldE f s' ys)"
  by (induction xs arbitrary: s) (auto split: sum.splits)

lemma foldE_invariant:
  assumes "foldE f s xs = Inr t" and "P s"
    and "\<And>s x s'. x \<in> set xs \<Longrightarrow> P s \<Longrightarrow> f s x = Inr s' \<Longrightarrow> P s'"
  shows "P t"
  using assms
proof (induction xs arbitrary: s)
  case (Cons x xs)
  then obtain s' where s': "f s x = Inr s'" and t: "foldE f s' xs = Inr t"
    by (auto split: sum.splits)
  have "P s'" using Cons.prems(3) [of x s s'] Cons.prems(2) s' by simp
  with t show ?case using Cons.IH Cons.prems(3) by (meson list.set_intros(2))
qed simp

text \<open>Each element of a loop that ends normally was visited in some state and did not raise.\<close>

lemma foldE_each:
  assumes "foldE f s xs = Inr t" and "x \<in> set xs"
  shows "\<exists>s1 s2. f s1 x = Inr s2"
  using assms by (induction xs arbitrary: s) (auto split: sum.splits)

section \<open>Dictionaries\<close>

text \<open>
  A Python \<open>dict\<close> keeps the order of first insertion: \<open>d[k] = v\<close> replaces in place or
  appends, which is \<open>AList.update\<close>; \<open>d.get(k)\<close> is \<open>map_of d k\<close> and
  \<open>d.pop(k, None)\<close> is \<open>AList.delete k d\<close>.
\<close>

type_synonym ('k, 'v) dict = "('k \<times> 'v) list"

locale keyed_store =
  fixes lookup :: "'d \<Rightarrow> 'k \<Rightarrow> 'v option"
    and store :: "'k \<Rightarrow> 'v \<Rightarrow> 'd \<Rightarrow> 'd"
    and discard :: "'k \<Rightarrow> 'd \<Rightarrow> 'd"
  assumes lookup_store: "lookup (store k v d) k' = (if k' = k then Some v else lookup d k')"
    and lookup_discard: "lookup (discard k d) k' = (if k' = k then None else lookup d k')"
begin

lemma lookup_store_same: "lookup (store k v d) k = Some v"
  by (simp add: lookup_store)

lemma lookup_store_other: "k' \<noteq> k \<Longrightarrow> lookup (store k v d) k' = lookup d k'"
  by (simp add: lookup_store)

lemma lookup_discard_same: "lookup (discard k d) k = None"
  by (simp add: lookup_discard)

lemma lookup_discard_other: "k' \<noteq> k \<Longrightarrow> lookup (discard k d) k' = lookup d k'"
  by (simp add: lookup_discard)

lemma store_keeps_all:
  assumes "\<And>k v. lookup d k = Some v \<Longrightarrow> P k v" and "P k0 v0"
    and "lookup (store k0 v0 d) k = Some v"
  shows "P k v"
  using assms by (auto simp: lookup_store split: if_splits)

lemma discard_keeps_all:
  assumes "\<And>k v. lookup d k = Some v \<Longrightarrow> P k v" and "lookup (discard k0 d) k = Some v"
  shows "P k v"
  using assms by (auto simp: lookup_discard split: if_splits)

end

interpretation py_dict: keyed_store map_of AList.update AList.delete
  by unfold_locales (auto simp: update_conv' delete_conv')

lemmas py_dict_lookup [dict_simps] =
  py_dict.lookup_store py_dict.lookup_discard

section \<open>State machines\<close>

text \<open>
  A component with state promises that each of its operations keeps an invariant; what its
  clients use is that every run of operations does.
\<close>

locale invariant_system =
  fixes step :: "'s \<Rightarrow> 'e \<Rightarrow> 's" and inv :: "'s \<Rightarrow> bool"
  assumes step_keeps: "inv s \<Longrightarrow> inv (step s e)"
begin

lemma run_keeps: "inv s \<Longrightarrow> inv (foldl step s es)"
  by (induction es arbitrary: s) (auto intro: step_keeps)

lemma prefix_keeps: "inv s \<Longrightarrow> es = us @ vs \<Longrightarrow> inv (foldl step s us)"
  by (rule run_keeps)

end

text \<open>
  The same for a component whose steps are a relation: runs of labelled steps, and what a
  component promises whose own steps always make progress.
\<close>

inductive run_of :: "('s \<Rightarrow> 'e \<Rightarrow> 's \<Rightarrow> bool) \<Rightarrow> 's \<Rightarrow> 'e list \<Rightarrow> 's \<Rightarrow> bool" for step where
  stay: "run_of step s [] s"
| go_on: "step s e s' \<Longrightarrow> run_of step s' es s'' \<Longrightarrow> run_of step s (e # es) s''"

inductive_simps run_of_Nil [simp]: "run_of step s [] s'"
inductive_simps run_of_Cons [simp]: "run_of step s (e # es) s'"

lemma run_of_append: "run_of step s (es @ es') s'' \<longleftrightarrow> (\<exists>s'. run_of step s es s' \<and> run_of step s' es' s'')"
  by (induction es arbitrary: s) auto

locale invariant_relation =
  fixes step :: "'s \<Rightarrow> 'e \<Rightarrow> 's \<Rightarrow> bool" and inv :: "'s \<Rightarrow> bool"
  assumes step_keeps: "inv s \<Longrightarrow> step s e s' \<Longrightarrow> inv s'"
begin

lemma run_keeps: "run_of step s es s' \<Longrightarrow> inv s \<Longrightarrow> inv s'"
  by (induction rule: run_of.induct) (auto intro: step_keeps)

end

locale draining_relation = invariant_relation +
  fixes own :: "'e \<Rightarrow> bool" and left :: "'s \<Rightarrow> nat"
  assumes own_decreases: "inv s \<Longrightarrow> own e \<Longrightarrow> step s e s' \<Longrightarrow> left s' < left s"
    and own_enabled: "inv s \<Longrightarrow> left s > 0 \<Longrightarrow> \<exists>e s'. own e \<and> step s e s'"
begin

lemma own_run_bounded: "run_of step s es s' \<Longrightarrow> inv s \<Longrightarrow> list_all own es \<Longrightarrow> length es + left s' \<le> left s"
proof (induction rule: run_of.induct)
  case (go_on s e s' es s'')
  then have "left s' < left s" "length es + left s'' \<le> left s'"
    by (auto intro: own_decreases step_keeps)
  then show ?case by simp
qed simp

lemma drains: "inv s \<Longrightarrow> \<exists>es s'. run_of step s es s' \<and> list_all own es \<and> left s' = 0"
proof (induction "left s" arbitrary: s rule: less_induct)
  case less
  show ?case
  proof (cases "left s = 0")
    case True
    then show ?thesis by (intro exI [of _ "[]"] exI [of _ s]) simp
  next
    case False
    then obtain e s' where e: "own e" "step s e s'" using less.prems own_enabled by blast
    with less obtain es s'' where "run_of step s' es s''" "list_all own es" "left s'' = 0"
      by (meson own_decreases step_keeps)
    with e show ?thesis by (intro exI [of _ "e # es"] exI [of _ s'']) auto
  qed
qed

end

section \<open>Strings\<close>

text \<open>\<open>len(s)\<close> counts code points: the bytes that are not UTF-8 continuation bytes.\<close>

definition utf8_continuation :: "char \<Rightarrow> bool" where
  "utf8_continuation c \<longleftrightarrow> of_char c div 64 = (2 :: nat)"

definition py_len :: "string \<Rightarrow> nat" where
  "py_len s = length (filter (\<lambda>c. \<not> utf8_continuation c) s)"

definition py_starts :: "string \<Rightarrow> string \<Rightarrow> bool" where
  "py_starts p s \<longleftrightarrow> take (length p) s = p"

definition py_ends :: "string \<Rightarrow> string \<Rightarrow> bool" where
  "py_ends p s \<longleftrightarrow> py_starts (rev p) (rev s)"

lemma py_len_le: "py_len s \<le> length s"
  by (simp add: py_len_def)

lemma py_len_append [simp]: "py_len (s @ t) = py_len s + py_len t"
  by (simp add: py_len_def)

lemma py_starts_append [simp]: "py_starts p (p @ s)"
  by (simp add: py_starts_def)

lemma py_starts_iff: "py_starts p s \<longleftrightarrow> (\<exists>t. s = p @ t)"
  by (auto simp: py_starts_def) (metis append_take_drop_id)

lemma py_ends_iff: "py_ends p s \<longleftrightarrow> (\<exists>t. s = t @ p)"
  by (simp add: py_ends_def py_starts_iff) (metis rev_append rev_rev_ident)

text \<open>
  The UTF-8 encodings of the code points with the Unicode property that \<open>str.strip\<close> and
  \<open>str.isspace\<close> use: the ASCII separators, U+0085, U+00A0, U+1680, U+2000 to U+200A,
  U+2028, U+2029, U+202F, U+205F and U+3000.
\<close>

definition py_spaces :: "nat list list" where
  "py_spaces = [[9], [10], [11], [12], [13], [28], [29], [30], [31], [32],
     [0xC2, 0x85], [0xC2, 0xA0], [0xE1, 0x9A, 0x80]]
   @ map (\<lambda>b. [0xE2, 0x80, b]) [0x80 ..< 0x8B]
   @ [[0xE2, 0x80, 0xA8], [0xE2, 0x80, 0xA9], [0xE2, 0x80, 0xAF], [0xE2, 0x81, 0x9F],
      [0xE3, 0x80, 0x80]]"

definition starts_bytes :: "nat list \<Rightarrow> string \<Rightarrow> bool" where
  "starts_bytes bs s \<longleftrightarrow> map of_char (take (length bs) s) = bs"

definition space_prefix :: "string \<Rightarrow> nat" where
  "space_prefix s = (case find (\<lambda>bs. starts_bytes bs s) py_spaces of
     None \<Rightarrow> 0 | Some bs \<Rightarrow> length bs)"

lemma space_prefix_le: "space_prefix s \<le> length s"
proof (cases "find (\<lambda>bs. starts_bytes bs s) py_spaces")
  case (Some bs)
  then have "starts_bytes bs s" by (auto simp: find_Some_iff)
  then have "length (take (length bs) s) = length bs"
    unfolding starts_bytes_def by (metis length_map)
  with Some show ?thesis by (simp add: space_prefix_def)
qed (simp add: space_prefix_def)

function py_lstrip :: "string \<Rightarrow> string" where
  "py_lstrip s = (if space_prefix s = 0 then s else py_lstrip (drop (space_prefix s) s))"
  by pat_completeness auto
termination
proof (relation "measure length")
  fix s assume "space_prefix s \<noteq> 0"
  then show "(drop (space_prefix s) s, s) \<in> measure length"
    using space_prefix_le [of s] by simp
qed simp

declare py_lstrip.simps [simp del]

text \<open>\<open>s.rstrip()\<close>, the same from the other end, and \<open>s.strip()\<close>.\<close>

definition ends_bytes :: "nat list \<Rightarrow> string \<Rightarrow> bool" where
  "ends_bytes bs s \<longleftrightarrow> map of_char (drop (length s - length bs) s) = bs"

definition space_suffix :: "string \<Rightarrow> nat" where
  "space_suffix s = (case find (\<lambda>bs. ends_bytes bs s) py_spaces of
     None \<Rightarrow> 0 | Some bs \<Rightarrow> length bs)"

lemma space_suffix_le: "space_suffix s \<le> length s"
proof (cases "find (\<lambda>bs. ends_bytes bs s) py_spaces")
  case (Some bs)
  then have "ends_bytes bs s" by (auto simp: find_Some_iff)
  then have "length (drop (length s - length bs) s) = length bs"
    unfolding ends_bytes_def by (metis length_map)
  with Some show ?thesis by (simp add: space_suffix_def)
qed (simp add: space_suffix_def)

function py_rstrip :: "string \<Rightarrow> string" where
  "py_rstrip s = (if space_suffix s = 0 then s else py_rstrip (take (length s - space_suffix s) s))"
  by pat_completeness auto
termination
proof (relation "measure length")
  fix s assume "space_suffix s \<noteq> 0"
  then show "(take (length s - space_suffix s) s, s) \<in> measure length"
    using space_suffix_le [of s] by simp
qed simp

declare py_rstrip.simps [simp del]

definition py_strip :: "string \<Rightarrow> string" where
  "py_strip s = py_rstrip (py_lstrip s)"

lemma set_py_lstrip: "set (py_lstrip s) \<subseteq> set s"
proof (induction s rule: py_lstrip.induct)
  case (1 s)
  then show ?case
    using set_drop_subset [of "space_prefix s" s] by (subst py_lstrip.simps) auto
qed

lemma set_py_rstrip: "set (py_rstrip s) \<subseteq> set s"
proof (induction s rule: py_rstrip.induct)
  case (1 s)
  then show ?case
    using set_take_subset [of "length s - space_suffix s" s] by (subst py_rstrip.simps) auto
qed

lemma set_py_strip: "set (py_strip s) \<subseteq> set s"
  unfolding py_strip_def using set_py_lstrip set_py_rstrip by blast

text \<open>\<open>s[:n]\<close>: the first \<open>n\<close> code points.\<close>

fun py_take :: "nat \<Rightarrow> string \<Rightarrow> string" where
  "py_take n [] = []"
| "py_take n (c # s) =
     (if utf8_continuation c then c # py_take n s
      else case n of 0 \<Rightarrow> [] | Suc m \<Rightarrow> c # py_take m s)"

lemma py_take_bounds: "py_len (py_take n s) \<le> n \<and> set (py_take n s) \<subseteq> set s"
  by (induction n s rule: py_take.induct) (auto simp: py_len_def split: nat.split)

lemma py_take_nonempty: "0 < n \<Longrightarrow> s \<noteq> [] \<Longrightarrow> py_take n s \<noteq> []"
  by (cases s) (auto split: nat.split)

text \<open>A text after a prefix, if it has that prefix.\<close>

fun strip_prefix :: "string \<Rightarrow> string \<Rightarrow> string option" where
  "strip_prefix [] s = Some s"
| "strip_prefix (p # ps) [] = None"
| "strip_prefix (p # ps) (c # s) = (if p = c then strip_prefix ps s else None)"

lemma strip_prefix_iff: "strip_prefix p s = Some t \<longleftrightarrow> s = p @ t"
  by (induction p s rule: strip_prefix.induct) auto

text \<open>\<open>[a-z0-9]+(?:-[a-z0-9]+)*\<close>, the stable slugs.\<close>

definition slug_char :: "char \<Rightarrow> bool" where
  "slug_char c \<longleftrightarrow> (let n = (of_char c :: nat) in 48 \<le> n \<and> n \<le> 57 \<or> 97 \<le> n \<and> n \<le> 122)"

fun is_slug :: "string \<Rightarrow> bool" and slug_rest :: "string \<Rightarrow> bool" where
  "is_slug [] = False"
| "is_slug (c # s) = (slug_char c \<and> slug_rest s)"
| "slug_rest [] = True"
| "slug_rest (c # s) = (if slug_char c then slug_rest s else c = CHR ''-'' \<and> is_slug s)"

lemma slug_chars:
  "is_slug s \<Longrightarrow> list_all (\<lambda>c. slug_char c \<or> c = CHR ''-'') s"
  "slug_rest s \<Longrightarrow> list_all (\<lambda>c. slug_char c \<or> c = CHR ''-'') s"
  by (induction s) (auto split: if_splits)

text \<open>\<open>not s.strip()\<close>: only white space.\<close>

definition py_blank :: "string \<Rightarrow> bool" where
  "py_blank s \<longleftrightarrow> py_lstrip s = []"

lemma py_blank_Nil [simp]: "py_blank []"
proof -
  have "space_prefix [] = 0" using space_prefix_le [of "[]"] by simp
  then show ?thesis unfolding py_blank_def by (subst py_lstrip.simps) simp
qed

end
