(* ===== verification/PyValue.thy ===== *)
theory PyValue
  imports Prelude
begin

text \<open>
  Python values made of \<open>None\<close>, booleans, integers, strings, sequences and string-keyed
  mappings: the values of which the serialised SQL syntax tree, the policy material and the
  revision material consist; and the compact JSON text that \<open>json.dumps\<close> gives them
  (\<open>ensure_ascii=False, separators=(",", ":")\<close>, and \<open>sort_keys\<close>).
  The main result is that this text is injective: different values have different texts.
\<close>

section \<open>Values\<close>

datatype pyval =
    NoneV
  | BoolV bool
  | IntV int
  | StrV string
  | SeqV "pyval list"
  | MapV "(string \<times> pyval) list"

fun truthy :: "pyval \<Rightarrow> bool" where
  "truthy NoneV = False"
| "truthy (BoolV b) = b"
| "truthy (IntV i) = (i \<noteq> 0)"
| "truthy (StrV s) = (s \<noteq> [])"
| "truthy (SeqV vs) = (vs \<noteq> [])"
| "truthy (MapV kvs) = (kvs \<noteq> [])"

fun is_mapping :: "pyval \<Rightarrow> bool" where
  "is_mapping (MapV kvs) = True"
| "is_mapping v = False"

text \<open>\<open>node.get(key)\<close>: \<open>None\<close> for a missing key.\<close>

definition py_get :: "string \<Rightarrow> (string \<times> pyval) list \<Rightarrow> pyval" where
  "py_get k node = (case map_of node k of None \<Rightarrow> NoneV | Some v \<Rightarrow> v)"

text \<open>
  What the interpreter supplies: \<open>str.casefold\<close>, whose table is the Unicode database of
  the interpreter, \<open>str(value)\<close> of a value that is not a string, and the number of nested
  calls left before \<open>RecursionError\<close>.
\<close>

record python =
  casefold :: "string \<Rightarrow> string"
  repr_other :: "pyval \<Rightarrow> string"
  frames :: nat

definition py_str :: "python \<Rightarrow> pyval \<Rightarrow> string" where
  "py_str py v = (case v of StrV s \<Rightarrow> s | _ \<Rightarrow> repr_other py v)"

lemma py_str_StrV [simp]: "py_str py (StrV s) = s"
  by (simp add: py_str_def)

text \<open>Nesting depth, which bounds the frames a traversal needs.\<close>

fun height :: "pyval \<Rightarrow> nat" and heights :: "pyval list \<Rightarrow> nat"
  and heights_pairs :: "(string \<times> pyval) list \<Rightarrow> nat" where
  "height (SeqV vs) = Suc (heights vs)"
| "height (MapV kvs) = Suc (heights_pairs kvs)"
| "height v = 1"
| "heights [] = 0"
| "heights (v # vs) = max (height v) (heights vs)"
| "heights_pairs [] = 0"
| "heights_pairs ((k, v) # kvs) = max (height v) (heights_pairs kvs)"

lemma height_le_heights: "v \<in> set vs \<Longrightarrow> height v \<le> heights vs"
  by (induction vs) auto

lemma height_le_heights_pairs: "(k, v) \<in> set kvs \<Longrightarrow> height v \<le> heights_pairs kvs"
  by (induction kvs) auto

lemma map_of_height: "map_of kvs k = Some v \<Longrightarrow> height v < height (MapV kvs)"
  using height_le_heights_pairs [of k v kvs] by (auto dest: map_of_SomeD)

section \<open>Codes that delimit themselves\<close>

text \<open>
  An encoding that can be cut off a text it starts, given that what follows is not a
  continuation of it (\<open>stop\<close>).
\<close>

locale self_delimiting =
  fixes enc :: "'a \<Rightarrow> string" and stop :: "string \<Rightarrow> bool"
  assumes split: "enc x @ s = enc y @ t \<Longrightarrow> stop s \<Longrightarrow> stop t \<Longrightarrow> x = y \<and> s = t"
    and stop_end: "stop []"
begin

lemma injective: "enc x = enc y \<longleftrightarrow> x = y"
  using split [of x "[]" y "[]"] stop_end by auto

lemma two_parts:
  assumes "enc x @ c # enc y = enc x' @ c # enc y'" and "\<And>s. stop (c # s)"
  shows "x = x' \<and> y = y'"
  using split [OF assms(1) assms(2) assms(2)] by (auto simp: injective)

end

section \<open>JSON text\<close>

definition digit :: "nat \<Rightarrow> char" where
  "digit n = char_of (48 + n mod 10)"

fun nat_str :: "nat \<Rightarrow> string" where
  "nat_str n = (if n < 10 then [digit n] else nat_str (n div 10) @ [digit n])"

declare nat_str.simps [simp del]

definition int_str :: "int \<Rightarrow> string" where
  "int_str i = (if i < 0 then CHR ''-'' # nat_str (nat (- i)) else nat_str (nat i))"

definition hex_digit :: "nat \<Rightarrow> char" where
  "hex_digit n = (if n < 10 then char_of (48 + n) else char_of (87 + n))"

text \<open>The escapes of \<open>json.encoder\<close> with \<open>ensure_ascii=False\<close>.\<close>

definition esc :: "char \<Rightarrow> string" where
  "esc c =
     (if c = CHR 0x22 then [CHR 0x5C, CHR 0x22]
      else if c = CHR 0x5C then [CHR 0x5C, CHR 0x5C]
      else if c = CHR 0x0A then [CHR 0x5C, CHR ''n'']
      else if c = CHR 0x0D then [CHR 0x5C, CHR ''r'']
      else if c = CHR 0x09 then [CHR 0x5C, CHR ''t'']
      else if c = CHR 0x0C then [CHR 0x5C, CHR ''f'']
      else if c = CHR 0x08 then [CHR 0x5C, CHR ''b'']
      else if of_char c < (32 :: nat)
        then [CHR 0x5C, CHR ''u'', CHR ''0'', CHR ''0'',
              hex_digit (of_char c div 16), hex_digit (of_char c mod 16)]
      else [c])"

definition json_quote :: "string \<Rightarrow> string" where
  "json_quote s = CHR 0x22 # concat (map esc s) @ [CHR 0x22]"

fun json_dumps :: "pyval \<Rightarrow> string" and json_rest :: "pyval list \<Rightarrow> string"
  and json_members :: "(string \<times> pyval) list \<Rightarrow> string" where
  "json_dumps NoneV = ''null''"
| "json_dumps (BoolV b) = (if b then ''true'' else ''false'')"
| "json_dumps (IntV i) = int_str i"
| "json_dumps (StrV s) = json_quote s"
| "json_dumps (SeqV []) = ''[]''"
| "json_dumps (SeqV (v # vs)) = ''['' @ json_dumps v @ json_rest vs @ '']''"
| "json_dumps (MapV []) = ''{}''"
| "json_dumps (MapV ((k, v) # kvs)) =
     ''{'' @ json_quote k @ '':'' @ json_dumps v @ json_members kvs @ ''}''"
| "json_rest [] = []"
| "json_rest (v # vs) = '','' @ json_dumps v @ json_rest vs"
| "json_members [] = []"
| "json_members ((k, v) # kvs) =
     '','' @ json_quote k @ '':'' @ json_dumps v @ json_members kvs"

text \<open>\<open>sort_keys=True\<close>: the members of every mapping in the order of their keys.\<close>

fun sort_keys :: "pyval \<Rightarrow> pyval" and sort_keys_list :: "pyval list \<Rightarrow> pyval list"
  and sort_keys_pairs :: "(string \<times> pyval) list \<Rightarrow> (string \<times> pyval) list" where
  "sort_keys (SeqV vs) = SeqV (sort_keys_list vs)"
| "sort_keys (MapV kvs) = MapV (sort_key fst (sort_keys_pairs kvs))"
| "sort_keys v = v"
| "sort_keys_list [] = []"
| "sort_keys_list (v # vs) = sort_keys v # sort_keys_list vs"
| "sort_keys_pairs [] = []"
| "sort_keys_pairs ((k, v) # kvs) = (k, sort_keys v) # sort_keys_pairs kvs"

definition json_dumps_sorted :: "pyval \<Rightarrow> string" where
  "json_dumps_sorted v = json_dumps (sort_keys v)"

section \<open>The text determines the value\<close>

subsection \<open>Numbers\<close>

definition is_digit :: "char \<Rightarrow> bool" where
  "is_digit c \<longleftrightarrow> 48 \<le> (of_char c :: nat) \<and> (of_char c :: nat) < 58"

definition number_stop :: "string \<Rightarrow> bool" where
  "number_stop s \<longleftrightarrow> (case s of [] \<Rightarrow> True | c # _ \<Rightarrow> \<not> is_digit c)"

definition digits_value :: "string \<Rightarrow> nat" where
  "digits_value = foldl (\<lambda>n c. 10 * n + (of_char c - 48)) 0"

lemma of_char_digit [simp]: "of_char (digit n) = (48 + n mod 10 :: nat)"
proof -
  have "48 + n mod 10 < 256" using mod_less_divisor [of 10 n] by linarith
  then show ?thesis by (simp add: digit_def)
qed

lemma is_digit_digit [simp]: "is_digit (digit n)"
  by (simp add: is_digit_def)

lemma nat_str_digits: "\<forall>c \<in> set (nat_str n). is_digit c"
  by (induction n rule: nat_str.induct) (subst nat_str.simps, auto)

lemma nat_str_nonempty [simp]: "nat_str n \<noteq> []"
  by (subst nat_str.simps) simp

lemma digits_value_nat_str [simp]: "digits_value (nat_str n) = n"
proof (induction n rule: nat_str.induct)
  case (1 n)
  show ?case
  proof (cases "n < 10")
    case True
    then show ?thesis by (subst nat_str.simps) (simp add: digits_value_def)
  next
    case False
    with 1 have "digits_value (nat_str (n div 10)) = n div 10" by simp
    then have "digits_value (nat_str (n div 10) @ [digit n]) = 10 * (n div 10) + n mod 10"
      by (simp add: digits_value_def)
    with False show ?thesis by (subst nat_str.simps) simp
  qed
qed

lemma nat_str_cut: "number_stop s \<Longrightarrow> takeWhile is_digit (nat_str n @ s) = nat_str n"
  using nat_str_digits [of n]
  by (cases s) (simp_all add: number_stop_def takeWhile_append2)

lemma nat_str_split:
  assumes "nat_str m @ s = nat_str n @ t" and "number_stop s" and "number_stop t"
  shows "m = n \<and> s = t"
proof -
  have "nat_str m = nat_str n"
    using assms nat_str_cut [of s m] nat_str_cut [of t n] by simp
  then have "m = n" by (metis digits_value_nat_str)
  with assms(1) show ?thesis by simp
qed

lemma nat_str_not_minus: "nat_str n \<noteq> CHR ''-'' # s"
  using nat_str_digits [of n] by (auto simp: is_digit_def)

lemma nat_str_append_not_minus: "nat_str n @ s \<noteq> CHR ''-'' # t"
  using nat_str_not_minus [of n] by (cases "nat_str n") auto

lemma int_str_split:
  assumes "int_str i @ s = int_str j @ t" and "number_stop s" and "number_stop t"
  shows "i = j \<and> s = t"
proof (cases "(i < 0) = (j < 0)")
  case True
  with assms show ?thesis
    by (auto simp: int_str_def dest!: nat_str_split split: if_splits)
next
  case False
  with assms(1) show ?thesis
    using nat_str_append_not_minus nat_str_append_not_minus [THEN not_sym]
    by (auto simp: int_str_def split: if_splits)
qed

interpretation int_code: self_delimiting int_str number_stop
  by unfold_locales (auto dest: int_str_split simp: number_stop_def)

subsection \<open>Strings\<close>

lemma hex_digit_inj: "m < 16 \<Longrightarrow> n < 16 \<Longrightarrow> hex_digit m = hex_digit n \<longleftrightarrow> m = n"
proof -
  assume "m < 16" "n < 16"
  then have *: "of_char (hex_digit m) = (if m < 10 then 48 + m else 87 + m)"
    "of_char (hex_digit n) = (if n < 10 then 48 + n else 87 + n)"
    by (simp_all add: hex_digit_def)
  show ?thesis
  proof
    assume "hex_digit m = hex_digit n"
    then have "(of_char (hex_digit m) :: nat) = of_char (hex_digit n)" by simp
    then show "m = n" unfolding * by (simp split: if_splits)
  qed simp
qed

lemma esc_control_split:
  fixes c d :: char
  assumes "of_char c < (32 :: nat)" and "of_char d < (32 :: nat)"
    and "hex_digit (of_char c div 16) = hex_digit (of_char d div 16)"
    and "hex_digit (of_char c mod 16) = hex_digit (of_char d mod 16)"
  shows "c = d"
proof -
  have "of_char c div 16 = (of_char d div 16 :: nat)" "of_char c mod 16 = (of_char d mod 16 :: nat)"
    using assms by (auto simp: hex_digit_inj)
  then have "(of_char c :: nat) = of_char d" by (metis div_mult_mod_eq)
  then show ?thesis by simp
qed

lemma esc_not_quote: "esc c @ s \<noteq> CHR 0x22 # t"
  by (simp add: esc_def)

text \<open>The three shapes of an escape: two characters, six characters, the character itself.\<close>

definition unescape_short :: "char \<Rightarrow> char" where
  "unescape_short x = (if x = CHR ''n'' then CHR 0x0A else if x = CHR ''r'' then CHR 0x0D
     else if x = CHR ''t'' then CHR 0x09 else if x = CHR ''f'' then CHR 0x0C
     else if x = CHR ''b'' then CHR 0x08 else x)"

lemma esc_cases:
  obtains (short) x where "esc c = [CHR 0x5C, x]" and "x \<noteq> CHR ''u''" and "c = unescape_short x"
  | (control) "esc c = [CHR 0x5C, CHR ''u'', CHR ''0'', CHR ''0'',
        hex_digit (of_char c div 16), hex_digit (of_char c mod 16)]" and "of_char c < (32 :: nat)"
  | (plain) "esc c = [c]" and "c \<noteq> CHR 0x5C"
proof (cases "c \<in> {CHR 0x22, CHR 0x5C, CHR 0x0A, CHR 0x0D, CHR 0x09, CHR 0x0C, CHR 0x08}")
  case True
  then have "\<exists>x. esc c = [CHR 0x5C, x] \<and> x \<noteq> CHR ''u'' \<and> c = unescape_short x"
    by (elim insertE emptyE) (simp_all add: esc_def unescape_short_def)
  then show ?thesis using short by blast
next
  case False
  then show ?thesis using control plain by (cases "of_char c < (32 :: nat)") (simp_all add: esc_def)
qed

lemma esc_split: "esc c @ s = esc d @ t \<Longrightarrow> c = d \<and> s = t"
  by (cases c rule: esc_cases; cases d rule: esc_cases) (auto simp: esc_control_split)

lemma escaped_split:
  "concat (map esc a) @ CHR 0x22 # s = concat (map esc b) @ CHR 0x22 # t \<Longrightarrow> a = b \<and> s = t"
proof (induction a arbitrary: b)
  case Nil
  then show ?case using esc_not_quote by (cases b) (auto dest: sym)
next
  case (Cons c a)
  show ?case
  proof (cases b)
    case Nil
    with Cons.prems show ?thesis using esc_not_quote by auto
  next
    case (Cons d b')
    with Cons.prems have "esc c @ (concat (map esc a) @ CHR 0x22 # s)
        = esc d @ (concat (map esc b') @ CHR 0x22 # t)" by simp
    from esc_split [OF this] Cons.IH Cons show ?thesis by auto
  qed
qed

lemma json_quote_split: "json_quote a @ s = json_quote b @ t \<Longrightarrow> a = b \<and> s = t"
  using escaped_split [of a s b t] by (simp add: json_quote_def)

interpretation quote_code: self_delimiting json_quote "\<lambda>_. True"
  by unfold_locales (auto dest: json_quote_split)

subsection \<open>Values\<close>

text \<open>The first character of a text tells the constructor of its value.\<close>

fun json_kind :: "pyval \<Rightarrow> nat" where
  "json_kind NoneV = 0"
| "json_kind (BoolV b) = (if b then 1 else 2)"
| "json_kind (IntV i) = 3"
| "json_kind (StrV s) = 4"
| "json_kind (SeqV vs) = 5"
| "json_kind (MapV kvs) = 6"

definition kind_of_char :: "char \<Rightarrow> nat" where
  "kind_of_char c = (if c = CHR ''n'' then 0 else if c = CHR ''t'' then 1 else
     if c = CHR ''f'' then 2 else if c = CHR 0x22 then 4 else
     if c = CHR ''['' then 5 else if c = CHR ''{'' then 6 else
     if is_digit c \<or> c = CHR ''-'' then 3 else 7)"

lemma kind_of_punctuation [simp]:
  "kind_of_char CHR ''n'' = 0" "kind_of_char CHR ''t'' = 1" "kind_of_char CHR ''f'' = 2"
  "kind_of_char CHR 0x22 = 4" "kind_of_char CHR ''['' = 5" "kind_of_char CHR ''{'' = 6"
  "kind_of_char CHR '']'' = 7" "kind_of_char CHR ''}'' = 7"
  by (simp_all add: kind_of_char_def is_digit_def)

lemma not_digit_punctuation [simp]:
  "\<not> is_digit CHR '']''" "\<not> is_digit CHR ''}''" "\<not> is_digit CHR '',''"
  by (simp_all add: is_digit_def)

lemma kind_of_digit: "is_digit c \<or> c = CHR ''-'' \<Longrightarrow> kind_of_char c = 3"
  by (auto simp: kind_of_char_def is_digit_def)

lemma json_kind_le: "json_kind v < 7"
  by (cases v) auto

lemma int_str_head: "\<exists>c r. int_str i = c # r \<and> kind_of_char c = 3"
proof (cases "i < 0")
  case True
  then show ?thesis by (simp add: int_str_def kind_of_digit)
next
  case False
  obtain c r where "nat_str (nat i) = c # r" by (cases "nat_str (nat i)") auto
  with False nat_str_digits [of "nat i"] show ?thesis by (simp add: int_str_def kind_of_digit)
qed

lemma json_head: "\<exists>c r. json_dumps v = c # r \<and> kind_of_char c = json_kind v"
proof (cases v)
  case (IntV i)
  then show ?thesis using int_str_head by simp
next
  case (SeqV vs)
  then show ?thesis by (cases vs) simp_all
next
  case (MapV kvs)
  show ?thesis
  proof (cases kvs)
    case (Cons kv kvs')
    with MapV show ?thesis by (cases kv) simp
  qed (use MapV in simp)
qed (simp_all add: json_quote_def)

lemma json_kind_eq: "json_dumps v @ s = json_dumps w @ t \<Longrightarrow> json_kind v = json_kind w"
  using json_head [of v] json_head [of w] by auto

lemma json_not_close: "json_dumps v @ s \<noteq> CHR '']'' # t"
proof
  assume eq: "json_dumps v @ s = CHR '']'' # t"
  obtain c r where "json_dumps v = c # r" "kind_of_char c = json_kind v" using json_head by blast
  with eq json_kind_le [of v] show False by simp
qed

lemma json_rest_split:
  assumes "\<And>v w s t. v \<in> set vs \<Longrightarrow> json_dumps v @ s = json_dumps w @ t \<Longrightarrow>
      number_stop s \<Longrightarrow> number_stop t \<Longrightarrow> v = w \<and> s = t"
    and "json_rest vs @ CHR '']'' # s = json_rest ws @ CHR '']'' # t"
  shows "vs = ws \<and> s = t"
  using assms
proof (induction vs arbitrary: ws)
  case Nil
  then show ?case by (cases ws) auto
next
  case (Cons v vs)
  then obtain w ws' where ws: "ws = w # ws'" by (cases ws) auto
  have "number_stop (json_rest us @ CHR '']'' # r)" for us r
    by (cases us) (simp_all add: number_stop_def)
  with Cons.prems(1) [of v "json_rest vs @ CHR '']'' # s" w "json_rest ws' @ CHR '']'' # t"]
    Cons.prems(2) ws
  have "v = w \<and> json_rest vs @ CHR '']'' # s = json_rest ws' @ CHR '']'' # t"
    by simp
  moreover from this have "vs = ws' \<and> s = t"
    using Cons.IH [of ws'] Cons.prems(1) by (meson list.set_intros(2))
  ultimately show ?case using ws by simp
qed

lemma json_members_split:
  assumes "\<And>k v w s t. (k, v) \<in> set kvs \<Longrightarrow> json_dumps v @ s = json_dumps w @ t \<Longrightarrow>
      number_stop s \<Longrightarrow> number_stop t \<Longrightarrow> v = w \<and> s = t"
    and "json_members kvs @ CHR ''}'' # s = json_members lws @ CHR ''}'' # t"
  shows "kvs = lws \<and> s = t"
  using assms
proof (induction kvs arbitrary: lws)
  case Nil
  then show ?case by (cases lws) auto
next
  case (Cons kv kvs)
  obtain k v where kv: "kv = (k, v)" by (cases kv)
  from Cons.prems(2) kv obtain l w lws' where lws: "lws = (l, w) # lws'" by (cases lws) auto
  have stop: "number_stop (json_members us @ CHR ''}'' # r)" for us r
    by (cases us) (auto simp: number_stop_def)
  from Cons.prems(2) kv lws
  have "json_quote k @ (CHR '':'' # json_dumps v @ json_members kvs @ CHR ''}'' # s)
      = json_quote l @ (CHR '':'' # json_dumps w @ json_members lws' @ CHR ''}'' # t)" by simp
  from json_quote_split [OF this] have kl: "k = l"
    and "json_dumps v @ json_members kvs @ CHR ''}'' # s
       = json_dumps w @ json_members lws' @ CHR ''}'' # t" by auto
  with Cons.prems(1) [of k v "json_members kvs @ CHR ''}'' # s" w
      "json_members lws' @ CHR ''}'' # t"] kv stop
  have vw: "v = w \<and> json_members kvs @ CHR ''}'' # s = json_members lws' @ CHR ''}'' # t" by simp
  then have "kvs = lws' \<and> s = t"
    using Cons.IH [of lws'] Cons.prems(1) by (meson list.set_intros(2))
  with vw kl kv lws show ?case by simp
qed

lemma json_dumps_split:
  "json_dumps v @ s = json_dumps w @ t \<Longrightarrow> number_stop s \<Longrightarrow> number_stop t \<Longrightarrow> v = w \<and> s = t"
proof (induction v arbitrary: w s t)
  case NoneV
  with json_kind_eq [OF NoneV.prems(1)] show ?case by (cases w) (auto split: if_splits)
next
  case (BoolV b)
  with json_kind_eq [OF BoolV.prems(1)] show ?case by (cases w) (auto split: if_splits)
next
  case (IntV i)
  with json_kind_eq [OF IntV.prems(1)] show ?case
    by (cases w) (auto dest: int_str_split split: if_splits)
next
  case (StrV a)
  with json_kind_eq [OF StrV.prems(1)] show ?case
    by (cases w) (auto dest: json_quote_split split: if_splits)
next
  case (SeqV vs)
  from json_kind_eq [OF SeqV.prems(1)] obtain ws where w: "w = SeqV ws"
    by (cases w) (auto split: if_splits)
  have "json_rest vs @ CHR '']'' # s = json_rest ws @ CHR '']'' # t"
  proof (cases "vs = [] \<longleftrightarrow> ws = []")
    case True
    with SeqV.prems(1) w show ?thesis by (cases vs; cases ws) auto
  next
    case False
    with SeqV.prems(1) w json_not_close json_not_close [symmetric] show ?thesis
      by (cases vs; cases ws) auto
  qed
  from json_rest_split [OF SeqV.IH this] w show ?case by simp
next
  case (MapV kvs)
  from json_kind_eq [OF MapV.prems(1)] obtain lws where w: "w = MapV lws"
    by (cases w) (auto split: if_splits)
  have "json_members kvs @ CHR ''}'' # s = json_members lws @ CHR ''}'' # t"
    using MapV.prems(1) w by (cases kvs; cases lws) (auto simp: json_quote_def)
  from json_members_split [OF _ this] MapV.IH w show ?case by fastforce
qed

interpretation json_code: self_delimiting json_dumps number_stop
  by unfold_locales (auto dest: json_dumps_split simp: number_stop_def)

end
