(* ===== verification/Errors.thy ===== *)
theory Errors
  imports PyValue
begin

text \<open>
  The public errors of \<open>src/query_man/errors.py\<close>: one constructor per subclass of
  \<open>AppError\<close>, and what its \<open>__init__\<close> passes up as status, code, message and details.
\<close>

definition PUBLIC_REJECTED_CONSTRUCTS :: "string list" where
  "PUBLIC_REJECTED_CONSTRUCTS =
     [''BETWEEN'', ''BETWEEN SYMMETRIC'', ''NOT BETWEEN'', ''NOT BETWEEN SYMMETRIC'',
      ''OPERATOR'']"

definition QUERY_INVALID_MESSAGES :: "(string, string) dict" where
  "QUERY_INVALID_MESSAGES =
    [(''QUERY_DIVISION_BY_ZERO'',
      ''The query can divide by zero. Guard the denominator with NULLIF or exclude zero values, ''
      @ ''then retry once.''),
     (''QUERY_FUNCTION_SIGNATURE_MISMATCH'',
      ''A function or operator call has unsupported argument types or count. Use a supported ''
      @ ''built-in signature and only advertised casts, then retry once.''),
     (''QUERY_INVALID_CAST'',
      ''The query casts a value to an incompatible type. Use an advertised compatible cast or ''
      @ ''filter invalid values, then retry once.''),
     (''QUERY_INVALID_FUNCTION_ARGUMENT'',
      ''A function argument has an invalid value. Correct the argument while preserving the ''
      @ ''requested calculation, then retry once.''),
     (''QUERY_INVALID_FUNCTION_USAGE'',
      ''An aggregate or window function is used in an unsupported form. Use its supported call ''
      @ ''form, then retry once.''),
     (''QUERY_INVALID_LIMIT'',
      ''LIMIT and OFFSET must use non-negative values. Correct them and retry once.''),
     (''QUERY_INVALID_REGULAR_EXPRESSION'',
      ''The regular expression is invalid. Correct its pattern or flags, then retry once.''),
     (''QUERY_NUMERIC_VALUE_OUT_OF_RANGE'',
      ''A numeric value is outside its supported range. For percentile fractions use a value ''
      @ ''from 0 through 1, then retry once.''),
     (''QUERY_UNDEFINED_COLUMN'',
      ''The query references a column PostgreSQL cannot resolve. Use a returned column sql_name ''
      @ ''or an alias declared in the query, then retry once.'')]"

text \<open>The \<open>__cause__\<close> of a \<open>MetadataUnavailableError\<close>, as far as the callers look at it.\<close>

datatype cause = NoCause | ReaderSessionPolicyCause | CatalogValidationCause | OtherCause

datatype app_error =
    SourceNotFoundError
  | MetadataUnavailableError pyval cause
  | MetadataRevisionMismatchError
  | QueryRejectedError string "string option"
  | QueryInvalidError string string
  | QueryOverloadedError
  | QueryTimeoutError
  | QueryUnavailableError
  | OperatorRequiredError

text \<open>
  \<open>QueryInvalidError(reason_code)\<close> looks its message up and raises \<open>ValueError\<close> when the
  reason has no public message.
\<close>

definition query_invalid_error :: "string \<Rightarrow> string + app_error" where
  "query_invalid_error reason_code =
     (case map_of QUERY_INVALID_MESSAGES reason_code of
        None \<Rightarrow> Inl ''Query invalid reason is not public.''
      | Some message \<Rightarrow> Inr (QueryInvalidError reason_code message))"

fun status_code :: "app_error \<Rightarrow> nat" where
  "status_code SourceNotFoundError = 404"
| "status_code (MetadataUnavailableError d c) = 503"
| "status_code MetadataRevisionMismatchError = 409"
| "status_code (QueryRejectedError r c) = 400"
| "status_code (QueryInvalidError r m) = 400"
| "status_code QueryOverloadedError = 429"
| "status_code QueryTimeoutError = 408"
| "status_code QueryUnavailableError = 503"
| "status_code OperatorRequiredError = 403"

fun error_code :: "app_error \<Rightarrow> string" where
  "error_code SourceNotFoundError = ''SOURCE_NOT_FOUND''"
| "error_code (MetadataUnavailableError d c) = ''METADATA_UNAVAILABLE''"
| "error_code MetadataRevisionMismatchError = ''METADATA_REVISION_MISMATCH''"
| "error_code (QueryRejectedError r c) = ''QUERY_REJECTED''"
| "error_code (QueryInvalidError r m) = ''QUERY_INVALID''"
| "error_code QueryOverloadedError = ''QUERY_OVERLOADED''"
| "error_code QueryTimeoutError = ''QUERY_TIMEOUT''"
| "error_code QueryUnavailableError = ''QUERY_UNAVAILABLE''"
| "error_code OperatorRequiredError = ''OPERATOR_REQUIRED''"

fun error_message :: "app_error \<Rightarrow> string" where
  "error_message SourceNotFoundError = ''The requested source was not found.''"
| "error_message (MetadataUnavailableError d c) =
     ''Metadata is temporarily unavailable for the requested source.''"
| "error_message MetadataRevisionMismatchError =
     ''Metadata or SQL policy changed after this SQL was generated. Fetch context and try again.''"
| "error_message (QueryRejectedError r c) = ''The query is not allowed by the source policy.''"
| "error_message (QueryInvalidError r m) = m"
| "error_message QueryOverloadedError = ''The source is currently at its query limit.''"
| "error_message QueryTimeoutError = ''The query exceeded its execution deadline.''"
| "error_message QueryUnavailableError = ''The query could not be completed.''"
| "error_message OperatorRequiredError = ''Operator permission is required.''"

text \<open>\<open>details\<close>, with \<open>NoneV\<close> for \<open>None\<close>.\<close>

fun error_details :: "app_error \<Rightarrow> pyval" where
  "error_details (MetadataUnavailableError d c) = d"
| "error_details (QueryRejectedError reason_code rejected_construct) =
     MapV ([(''reason_code'', StrV reason_code)]
       @ (case rejected_construct of
            None \<Rightarrow> []
          | Some construct \<Rightarrow>
              (if construct \<in> set PUBLIC_REJECTED_CONSTRUCTS
               then [(''rejected_construct'', StrV construct)] else [])))"
| "error_details (QueryInvalidError reason_code m) =
     MapV [(''reason_code'', StrV reason_code), (''action'', StrV ''CORRECT_SQL''),
           (''retryable'', BoolV True)]"
| "error_details e = NoneV"

lemma query_invalid_error_Inr:
  "query_invalid_error r = Inr e \<Longrightarrow> \<exists>m. e = QueryInvalidError r m \<and> map_of QUERY_INVALID_MESSAGES r = Some m"
  by (auto simp: query_invalid_error_def split: option.splits)

lemma status_code_range: "400 \<le> status_code e \<and> status_code e \<le> 503"
  by (cases e) auto

lemma server_errors: "500 \<le> status_code e \<longleftrightarrow>
    e = QueryUnavailableError \<or> (\<exists>d c. e = MetadataUnavailableError d c)"
  by (cases e) auto

end
