(* ===== verification/SourceModels.thy ===== *)
theory SourceModels
  imports PyValue
begin

text \<open>
  The data of \<open>src/query_man/source_catalog/models.py\<close> and
  \<open>src/query_man/metadata/models.py\<close>: budgets, reader connections and source profiles,
  and the catalog snapshot a source publishes. A \<open>pathlib.Path\<close> is its text.
\<close>

section \<open>Sources\<close>

record budget_profile =
  budget_name :: string
  budget_version :: int
  metadata_statement_timeout_ms :: int
  query_statement_timeout_ms :: int
  query_transaction_timeout_ms :: int
  query_queue_timeout_ms :: int
  lock_timeout_ms :: int
  work_mem_kb :: int
  temp_file_limit_kb :: int
  max_parallel_workers_per_gather :: int
  jit_enabled :: bool
  max_pool_size :: int
  max_concurrent_queries :: int
  max_metadata_relations :: int
  max_metadata_columns :: int
  max_columns_per_relation :: int
  max_context_columns_per_relation :: int
  max_metadata_response_bytes :: int
  max_result_rows :: int
  max_result_bytes :: int
  max_sql_bytes :: int
  max_plan_total_cost :: int
  max_plan_rows :: int
  max_plan_nodes :: int

datatype database_authentication =
    PasswordAuthentication string
  | ClientCertificateAuthentication string string string

record resolved_connection =
  database_profile :: string
  host :: string
  port :: int
  database :: string
  user :: string
  sslmode :: string
  authentication :: database_authentication

record source_provenance =
  owner :: string
  environment :: string
  database_migration_ref :: string

record source_profile =
  source_id :: string
  source_name :: string
  source_description :: string
  connection :: resolved_connection
  allowed_schemas :: "string list"
  allowed_relation_kinds :: "string list"
  view_contract_version :: int
  budget :: budget_profile
  provenance :: source_provenance

text \<open>The encoding every reader connection uses, a constant of \<open>source_catalog/reader_policy.py\<close>.\<close>

definition READER_CLIENT_ENCODING :: string where
  "READER_CLIENT_ENCODING = ''UTF8''"

section \<open>Catalog snapshots\<close>

text \<open>\<open>Nullability = bool | Literal["unknown"]\<close>, and the Python value it is.\<close>

datatype nullability = NullableBool bool | NullableUnknown

definition nullability_value :: "nullability \<Rightarrow> pyval" where
  "nullability_value n = (case n of NullableBool b \<Rightarrow> BoolV b | NullableUnknown \<Rightarrow> StrV ''unknown'')"

record catalog_column =
  column_name :: string
  column_sql_name :: string
  ordinal :: int
  data_type :: string
  nullable :: nullability
  column_comment :: "string option"

record catalog_relation =
  schema :: string
  relation_name :: string
  qualified_name :: string
  relation_sql_name :: string
  relation_kind :: string
  columns :: "catalog_column list"
  relation_comment :: "string option"
  definition_hash :: "string option"
  view_contract_source :: "string option"
  relation_contract_version :: "int option"
  security_invoker :: bool
  security_barrier :: bool

record catalog_snapshot =
  relations :: "catalog_relation list"

record prepared_metadata =
  snapshot :: catalog_snapshot
  revision :: string

definition opt_str :: "string option \<Rightarrow> pyval" where
  "opt_str c = (case c of None \<Rightarrow> NoneV | Some s \<Rightarrow> StrV s)"

lemma nullability_value_inj [simp]: "nullability_value a = nullability_value b \<longleftrightarrow> a = b"
  by (cases a; cases b) (auto simp: nullability_value_def)

lemma opt_str_inj [simp]: "opt_str a = opt_str b \<longleftrightarrow> a = b"
  by (cases a; cases b) (auto simp: opt_str_def)

end
