(* ===== verification/Operations.thy ===== *)
theory Operations
  imports PyValue "HOL-Library.Product_Lexorder"
begin

text \<open>
  The process-wide \<open>OperationalState\<close> of \<open>src/query_man/runtime/operations.py\<close>: metric
  counters and totals, the health of each source as its metadata and its query path see it,
  the set of active sources and the admission flag, with the status derived from them. The
  lock of the class serialises its operations, so each operation is one step.

  Totals are floats in the source; every observation the program makes is a rounded number
  of milliseconds, whose sums are exact integers below \<open>2^53\<close>, and are modelled as \<open>int\<close>.
\<close>

section \<open>State\<close>

datatype health = Healthy | Initializing | Stale | Unavailable

datatype public_status_value =
  Status_ready | Status_degraded | Status_initializing | Status_unavailable | Status_shutting_down

type_synonym metric_key = "string \<times> string option"

record operational_state =
  counters :: "(metric_key, int) dict"
  totals :: "(metric_key, int) dict"
  source_metadata_health :: "(string, health) dict"
  source_query_health :: "(string, health) dict"
  active_sources :: "string list option"
  accepting :: bool

text \<open>Severity: the order in which a source's worse report wins.\<close>

fun severity :: "health \<Rightarrow> nat" where
  "severity Healthy = 0"
| "severity Initializing = 1"
| "severity Stale = 2"
| "severity Unavailable = 3"

lemma severity_inj: "severity a = severity b \<longleftrightarrow> a = b"
  by (cases a; cases b) auto

instantiation health :: linorder
begin

definition less_eq_health :: "health \<Rightarrow> health \<Rightarrow> bool" where
  "less_eq_health a b \<longleftrightarrow> severity a \<le> severity b"

definition less_health :: "health \<Rightarrow> health \<Rightarrow> bool" where
  "less_health a b \<longleftrightarrow> severity a < severity b"

instance
  by standard (auto simp: less_eq_health_def less_health_def severity_inj)

end

section \<open>Operations\<close>

definition initial_operations :: operational_state where
  "initial_operations = \<lparr>counters = [], totals = [], source_metadata_health = [],
     source_query_health = [], active_sources = None, accepting = True\<rparr>"

definition reset :: "operational_state \<Rightarrow> operational_state" where
  "reset ops = ops\<lparr>counters := [], totals := [], source_metadata_health := [],
     source_query_health := [], active_sources := None, accepting := True\<rparr>"

definition dict_add :: "'k \<Rightarrow> int \<Rightarrow> ('k, int) dict \<Rightarrow> ('k, int) dict" where
  "dict_add k n d = AList.update k ((case map_of d k of None \<Rightarrow> 0 | Some m \<Rightarrow> m) + n) d"

definition increment_by :: "string \<Rightarrow> string option \<Rightarrow> int \<Rightarrow> operational_state \<Rightarrow> operational_state" where
  "increment_by name sid value ops = ops\<lparr>counters := dict_add (name, sid) value (counters ops)\<rparr>"

abbreviation increment :: "string \<Rightarrow> string \<Rightarrow> operational_state \<Rightarrow> operational_state" where
  "increment name sid \<equiv> increment_by name (Some sid) 1"

definition observe :: "string \<Rightarrow> int \<Rightarrow> string option \<Rightarrow> operational_state \<Rightarrow> operational_state" where
  "observe name value sid ops =
     ops\<lparr>counters := dict_add (name @ ''_count'', sid) 1 (counters ops),
         totals := dict_add (name @ ''_sum'', sid) value (totals ops)\<rparr>"

definition inactive :: "operational_state \<Rightarrow> string \<Rightarrow> bool" where
  "inactive ops sid \<longleftrightarrow> (case active_sources ops of None \<Rightarrow> False | Some act \<Rightarrow> sid \<notin> set act)"

definition set_source_health :: "string \<Rightarrow> health \<Rightarrow> operational_state \<Rightarrow> operational_state" where
  "set_source_health sid status ops =
     (if inactive ops sid then ops
      else ops\<lparr>source_metadata_health := AList.update sid status (source_metadata_health ops)\<rparr>)"

definition set_source_query_health :: "string \<Rightarrow> health \<Rightarrow> operational_state \<Rightarrow> operational_state" where
  "set_source_query_health sid status ops =
     (if inactive ops sid then ops
      else ops\<lparr>source_query_health := AList.update sid status (source_query_health ops)\<rparr>)"

definition keep_metric :: "string list \<Rightarrow> metric_key \<times> int \<Rightarrow> bool" where
  "keep_metric act kv = (case snd (fst kv) of None \<Rightarrow> True | Some sid \<Rightarrow> sid \<in> set act)"

definition reconcile_sources :: "string list \<Rightarrow> operational_state \<Rightarrow> operational_state" where
  "reconcile_sources source_ids ops =
     (let act = remdups source_ids in
      ops\<lparr>active_sources := Some act,
          source_metadata_health :=
            map (\<lambda>sid. (sid, case map_of (source_metadata_health ops) sid of
                               None \<Rightarrow> Initializing | Some h \<Rightarrow> h)) act,
          source_query_health :=
            map (\<lambda>sid. (sid, case map_of (source_query_health ops) sid of
                               None \<Rightarrow> Healthy | Some h \<Rightarrow> h)) act,
          counters := filter (keep_metric act) (counters ops),
          totals := filter (keep_metric act) (totals ops)\<rparr>)"

definition set_accepting :: "bool \<Rightarrow> operational_state \<Rightarrow> operational_state" where
  "set_accepting value ops = ops\<lparr>accepting := value\<rparr>"

definition aggregate_source_status :: "operational_state \<Rightarrow> string \<Rightarrow> health" where
  "aggregate_source_status ops sid =
     (let metadata_status = map_of (source_metadata_health ops) sid;
          query_status = map_of (source_query_health ops) sid in
      if Some Unavailable \<in> {metadata_status, query_status} then Unavailable
      else if metadata_status = Some Stale then Stale
      else if Some Initializing \<in> {metadata_status, query_status} then Initializing
      else Healthy)"

definition aggregate_source_health :: "operational_state \<Rightarrow> (string, health) dict" where
  "aggregate_source_health ops =
     map (\<lambda>sid. (sid, aggregate_source_status ops sid))
       (remdups (map fst (source_metadata_health ops) @ map fst (source_query_health ops)))"

definition public_status :: "operational_state \<Rightarrow> public_status_value" where
  "public_status ops =
     (if \<not> accepting ops then Status_shutting_down
      else let values = map snd (aggregate_source_health ops) in
        if values = [] then
          (if active_sources ops = None then Status_initializing else Status_unavailable)
        else if \<not> list_ex (\<lambda>s. s \<in> {Healthy, Stale}) values then
          (if list_all (\<lambda>s. s = Initializing) values then Status_initializing
           else Status_unavailable)
        else if list_ex (\<lambda>s. s \<noteq> Healthy) values then Status_degraded
        else Status_ready)"

record metric =
  metric_name :: string
  metric_source :: "string option"
  metric_value :: int

definition metric_list :: "(metric_key, int) dict \<Rightarrow> metric list" where
  "metric_list d =
     map (\<lambda>((name, sid), v). \<lparr>metric_name = name, metric_source = sid, metric_value = v\<rparr>)
       (sort_key (\<lambda>((name, sid), v). (name, case sid of None \<Rightarrow> [] | Some s \<Rightarrow> s)) d)"

record operations_snapshot =
  snapshot_accepting :: bool
  snapshot_sources :: "(string, health) dict"
  snapshot_metrics :: "metric list"

definition snapshot_operations :: "operational_state \<Rightarrow> operations_snapshot" where
  "snapshot_operations ops =
     \<lparr>snapshot_accepting = accepting ops,
      snapshot_sources = sort_key fst (aggregate_source_health ops),
      snapshot_metrics = metric_list (counters ops) @ metric_list (totals ops)\<rparr>"

section \<open>What is reported\<close>

lemma inactive_updates [simp]:
  "inactive (increment_by n k v ops) sid = inactive ops sid"
  "inactive (observe n v k ops) sid = inactive ops sid"
  "inactive (set_source_health s h ops) sid = inactive ops sid"
  "inactive (set_source_query_health s h ops) sid = inactive ops sid"
  by (simp_all add: inactive_def increment_by_def observe_def set_source_health_def
      set_source_query_health_def)

lemma health_after_set [simp]:
  "map_of (source_metadata_health (set_source_health sid h ops)) sid = Some h \<longleftrightarrow>
     \<not> inactive ops sid \<or> map_of (source_metadata_health ops) sid = Some h"
  "map_of (source_query_health (set_source_query_health sid h ops)) sid = Some h \<longleftrightarrow>
     \<not> inactive ops sid \<or> map_of (source_query_health ops) sid = Some h"
  by (simp_all add: set_source_health_def set_source_query_health_def dict_simps)

section \<open>Runs of operations\<close>

datatype op_event =
    Reset
  | Increment string "string option" int
  | Observe string int "string option"
  | SetSourceHealth string health
  | SetSourceQueryHealth string health
  | ReconcileSources "string list"
  | SetAccepting bool

fun operate :: "operational_state \<Rightarrow> op_event \<Rightarrow> operational_state" where
  "operate ops Reset = reset ops"
| "operate ops (Increment name sid n) = increment_by name sid n ops"
| "operate ops (Observe name n sid) = observe name n sid ops"
| "operate ops (SetSourceHealth sid h) = set_source_health sid h ops"
| "operate ops (SetSourceQueryHealth sid h) = set_source_query_health sid h ops"
| "operate ops (ReconcileSources sids) = reconcile_sources sids ops"
| "operate ops (SetAccepting b) = set_accepting b ops"

text \<open>
  Once the sources are known, health is tracked for exactly those: nothing that a late
  refresh or query of a removed source reports comes back.
\<close>

definition tracks_active :: "operational_state \<Rightarrow> bool" where
  "tracks_active ops \<longleftrightarrow>
     distinct (map fst (source_metadata_health ops)) \<and> distinct (map fst (source_query_health ops)) \<and>
     (case active_sources ops of
        None \<Rightarrow> True
      | Some act \<Rightarrow> set (map fst (source_metadata_health ops)) = set act \<and>
                    set (map fst (source_query_health ops)) = set act)"

lemma operate_tracks_active: "tracks_active ops \<Longrightarrow> tracks_active (operate ops e)"
  by (cases e)
    (auto simp: tracks_active_def reset_def increment_by_def observe_def set_source_health_def
      set_source_query_health_def reconcile_sources_def set_accepting_def inactive_def Let_def
      distinct_update dom_update comp_def split: option.splits)

interpretation health_tracking: invariant_system operate tracks_active
  by unfold_locales (rule operate_tracks_active)

lemma initial_tracks_active: "tracks_active initial_operations"
  by (simp add: tracks_active_def initial_operations_def)

definition reachable_operations :: "op_event list \<Rightarrow> operational_state" where
  "reachable_operations es = foldl operate initial_operations es"

lemma reachable_tracks_active: "tracks_active (reachable_operations es)"
  unfolding reachable_operations_def by (rule health_tracking.run_keeps [OF initial_tracks_active])

lemma aggregate_keys:
  "set (map fst (aggregate_source_health ops)) =
     set (map fst (source_metadata_health ops)) \<union> set (map fst (source_query_health ops))"
  by (auto simp: aggregate_source_health_def image_iff)

lemma aggregate_values:
  "set (map snd (aggregate_source_health ops)) =
     aggregate_source_status ops ` set (map fst (aggregate_source_health ops))"
  by (auto simp: aggregate_source_health_def image_iff)

lemma map_of_keys: "map_of (map (\<lambda>k. (k, f k)) ks) k = (if k \<in> set ks then Some (f k) else None)"
  by (induction ks) auto

lemma map_of_aggregate:
  "map_of (aggregate_source_health ops) sid =
     (if sid \<in> set (map fst (aggregate_source_health ops)) then Some (aggregate_source_status ops sid)
      else None)"
  unfolding aggregate_source_health_def by (simp add: map_of_keys)

lemma worse_report:
  "q \<noteq> Some Stale \<Longrightarrow>
     (if Some Unavailable \<in> {m, q} then Unavailable else if m = Some Stale then Stale
      else if Some Initializing \<in> {m, q} then Initializing else Healthy) =
     max (case m of None \<Rightarrow> Healthy | Some h \<Rightarrow> h) (case q of None \<Rightarrow> Healthy | Some h \<Rightarrow> h)"
  by (cases m; cases q; cases "the m"; cases "the q") (simp_all add: max_def less_eq_health_def)

section \<open>Properties\<close>

text \<open>
  Whatever operations ran, in whatever order, once the sources have been reconciled the
  health report covers exactly the active sources, each with the worse of its metadata and
  its query state, where a source without a report counts as healthy.
\<close>
theorem health_report_covers_active:
  assumes "active_sources (reachable_operations es) = Some act"
    and "map_of (source_query_health (reachable_operations es)) sid \<noteq> Some Stale"
  shows "map_of (aggregate_source_health (reachable_operations es)) sid =
     (if sid \<in> set act then
        Some (max (case map_of (source_metadata_health (reachable_operations es)) sid of
                     None \<Rightarrow> Healthy | Some h \<Rightarrow> h)
                  (case map_of (source_query_health (reachable_operations es)) sid of
                     None \<Rightarrow> Healthy | Some h \<Rightarrow> h))
      else None)"
proof -
  let ?ops = "reachable_operations es"
  have "aggregate_source_status ?ops sid =
      max (case map_of (source_metadata_health ?ops) sid of None \<Rightarrow> Healthy | Some h \<Rightarrow> h)
          (case map_of (source_query_health ?ops) sid of None \<Rightarrow> Healthy | Some h \<Rightarrow> h)"
    using worse_report [OF assms(2)] unfolding aggregate_source_status_def Let_def by simp
  moreover have "set (map fst (aggregate_source_health ?ops)) = set act"
    using reachable_tracks_active [of es] assms(1) unfolding aggregate_keys
    by (simp add: tracks_active_def)
  ultimately show ?thesis by (simp only: map_of_aggregate)
qed

theorem health_report_covers_active_witness:
  "map_of (aggregate_source_health (reachable_operations
     [ReconcileSources [''a'', ''b''], SetSourceHealth ''a'' Stale, SetSourceHealth ''gone'' Healthy])) ''a''
   = Some Stale"
  using health_report_covers_active
    [of "[ReconcileSources [''a'', ''b''], SetSourceHealth ''a'' Stale, SetSourceHealth ''gone'' Healthy]"
        "[''a'', ''b'']" "''a''"]
  by (simp add: reachable_operations_def initial_operations_def reconcile_sources_def
      set_source_health_def inactive_def max_def less_eq_health_def)

text \<open>
  The public status, for every state. It is \<open>shutting_down\<close> exactly when admission is
  closed; otherwise \<open>ready\<close> exactly when some source is known and all are healthy,
  \<open>degraded\<close> exactly when one is usable and one is not healthy, \<open>initializing\<close> exactly
  when no source was ever reconciled or reported, or every known one is initializing.
\<close>
theorem public_status_characterised:
  fixes ops :: operational_state
  defines "status \<equiv> aggregate_source_status ops"
    and "known \<equiv> set (map fst (source_metadata_health ops)) \<union> set (map fst (source_query_health ops))"
  shows "(public_status ops = Status_shutting_down \<longleftrightarrow> \<not> accepting ops) \<and>
    (public_status ops = Status_ready \<longleftrightarrow> accepting ops \<and> known \<noteq> {} \<and> status ` known = {Healthy}) \<and>
    (public_status ops = Status_degraded \<longleftrightarrow>
       accepting ops \<and> status ` known \<inter> {Healthy, Stale} \<noteq> {} \<and> \<not> status ` known \<subseteq> {Healthy}) \<and>
    (public_status ops = Status_initializing \<longleftrightarrow> accepting ops \<and>
       (if known = {} then active_sources ops = None else status ` known = {Initializing}))"
proof -
  define vals where "vals = map snd (aggregate_source_health ops)"
  have vs: "set vals = status ` known"
    unfolding vals_def status_def known_def by (simp only: aggregate_values aggregate_keys)
  have known: "known = {} \<longleftrightarrow> vals = []" using vs by auto
  have ps: "public_status ops =
     (if \<not> accepting ops then Status_shutting_down
      else if vals = [] then
        (if active_sources ops = None then Status_initializing else Status_unavailable)
      else if set vals \<inter> {Healthy, Stale} = {} then
        (if set vals \<subseteq> {Initializing} then Status_initializing else Status_unavailable)
      else if \<not> set vals \<subseteq> {Healthy} then Status_degraded else Status_ready)"
    by (auto simp: public_status_def Let_def vals_def [symmetric] list_ex_iff list_all_iff)
  have ne: "set vals \<subseteq> {h} \<longleftrightarrow> set vals = {h}" if "vals \<noteq> []" for h
    using that by (cases vals) auto
  show ?thesis
    unfolding vs [symmetric] known ps using ne [of Initializing] ne [of Healthy] by auto
qed

text \<open>What one event adds to the counter of a name and a source.\<close>

fun contribution :: "metric_key \<Rightarrow> op_event \<Rightarrow> int" where
  "contribution k (Increment name sid n) = (if k = (name, sid) then n else 0)"
| "contribution k (Observe name n sid) = (if k = (name @ ''_count'', sid) then 1 else 0)"
| "contribution k e = 0"

fun forgets :: "metric_key \<Rightarrow> op_event \<Rightarrow> bool" where
  "forgets k Reset = True"
| "forgets k (ReconcileSources sids) = (case snd k of None \<Rightarrow> False | Some sid \<Rightarrow> sid \<notin> set sids)"
| "forgets k e = False"

definition counter_value :: "metric_key \<Rightarrow> operational_state \<Rightarrow> int" where
  "counter_value k ops = (case map_of (counters ops) k of None \<Rightarrow> 0 | Some n \<Rightarrow> n)"

lemma map_of_filter_key:
  "map_of (filter (\<lambda>kv. P (fst kv)) d) k = (if P k then map_of d k else None)"
  by (induction d) auto

lemma counter_value_operate:
  "counter_value k (operate ops e) =
     (if forgets k e then 0 else counter_value k ops + contribution k e)"
proof (cases e)
  case (ReconcileSources sids)
  have "keep_metric (remdups sids) = (\<lambda>kv. case snd (fst kv) of None \<Rightarrow> True | Some sid \<Rightarrow> sid \<in> set sids)"
    by (simp add: keep_metric_def fun_eq_iff split: option.splits)
  with ReconcileSources show ?thesis
    by (simp add: counter_value_def reconcile_sources_def Let_def
        map_of_filter_key [where P = "\<lambda>k. case snd k of None \<Rightarrow> True | Some sid \<Rightarrow> sid \<in> set sids"]
        split: option.splits)
qed (simp_all add: counter_value_def reset_def increment_by_def observe_def set_source_health_def
      set_source_query_health_def set_accepting_def dict_add_def dict_simps)

text \<open>
  Counters lose nothing. The counter of a name and a source is the sum of what the
  operations since the last one that forgets it added, whatever else ran in between: a reset
  forgets every counter, and a reconciliation those of the sources it drops, and no other.
\<close>
theorem counters_exact:
  assumes "\<not> list_ex (forgets k) later"
  shows "counter_value k (reachable_operations (earlier @ e # later)) =
     (if forgets k e then 0 else counter_value k (reachable_operations earlier) + contribution k e)
     + sum_list (map (contribution k) later)"
proof -
  have run: "counter_value k (foldl operate ops later)
      = counter_value k ops + sum_list (map (contribution k) later)" for ops
    using assms by (induction later arbitrary: ops) (auto simp: counter_value_operate)
  show ?thesis by (simp add: reachable_operations_def run counter_value_operate)
qed

theorem counters_exact_witness:
  "counter_value (''queries'', Some ''a'') (reachable_operations ([Increment ''queries'' (Some ''a'') 5] @
     ReconcileSources [''b''] # [Increment ''queries'' (Some ''a'') 2, Increment ''queries'' None 7])) = 2"
  using counters_exact
    [of "(''queries'', Some ''a'')" "[Increment ''queries'' (Some ''a'') 2, Increment ''queries'' None 7]"
        "[Increment ''queries'' (Some ''a'') 5]" "ReconcileSources [''b'']"]
  by simp

end
