(* ===== verification/Registry.thy ===== *)
theory Registry
  imports SourceModels
begin

text \<open>
  The class \<open>SourceRegistry\<close> of \<open>src/query_man/source_catalog/registry.py\<close>: the published
  sources by their id.
\<close>

type_synonym registry = "(string, source_profile) dict"

definition source_registry :: "source_profile list \<Rightarrow> registry" where
  "source_registry sources = foldl (\<lambda>d s. AList.update (source_id s) s d) [] sources"

definition registry_get :: "registry \<Rightarrow> string \<Rightarrow> source_profile option" where
  "registry_get reg sid = map_of reg sid"

definition registry_source_ids :: "registry \<Rightarrow> string list" where
  "registry_source_ids reg = map fst reg"

record source_summary =
  summary_source_id :: string
  summary_name :: string
  summary_description :: string

definition registry_list :: "registry \<Rightarrow> source_summary list" where
  "registry_list reg =
     sort_key summary_source_id
       (map (\<lambda>s. \<lparr>summary_source_id = source_id s, summary_name = source_name s,
                  summary_description = source_description s\<rparr>) (map snd reg))"

lemma source_registry_step:
  "source_registry (sources @ [s]) = AList.update (source_id s) s (source_registry sources)"
  by (simp add: source_registry_def)

lemma registry_wf:
  "distinct (map fst (source_registry sources)) \<and>
   (\<forall>(sid, s) \<in> set (source_registry sources). source_id s = sid \<and> s \<in> set sources)"
proof (induction sources rule: rev_induct)
  case Nil
  then show ?case by (simp add: source_registry_def)
next
  case (snoc x xs)
  have "distinct (map fst (source_registry (xs @ [x])))"
    unfolding source_registry_step using snoc by (simp add: distinct_update)
  moreover have "source_id s = sid \<and> s \<in> set (xs @ [x])"
    if "(sid, s) \<in> set (source_registry (xs @ [x]))" for sid s
  proof -
    have "map_of (source_registry (xs @ [x])) sid = Some s"
      using that calculation by simp
    then show ?thesis
      using snoc unfolding source_registry_step
      by (auto simp: dict_simps split: if_splits dest: map_of_SomeD)
  qed
  ultimately show ?case by blast
qed

lemma registry_get_id:
  "registry_get (source_registry sources) sid = Some s \<Longrightarrow> source_id s = sid \<and> s \<in> set sources"
  using registry_wf [of sources] by (auto simp: registry_get_def dest: map_of_SomeD)

lemma registry_get_last:
  "registry_get (source_registry sources) sid = find (\<lambda>s. source_id s = sid) (rev sources)"
proof (induction sources rule: rev_induct)
  case Nil
  then show ?case by (simp add: source_registry_def registry_get_def)
next
  case (snoc x xs)
  then show ?case by (auto simp: source_registry_step registry_get_def dict_simps)
qed

end
