(* ===== verification/ExecutorState.thy ===== *)
theory ExecutorState
  imports Registry Operations
begin

text \<open>
  The state \<open>PostgresQueryExecutor\<close> of \<open>src/query_man/guarded_query/query.py\<close> shares between
  concurrent queries: admission, the tasks in flight, one semaphore per source, the active
  queries, the pools, and the shutdown that drains or cancels them. The event loop runs one task
  at a time between two \<open>await\<close>s, so a task is a sequence of atomic steps and the executor a
  state machine over the steps of all tasks in any order. What a task does on its connection is
  \<open>execute_admitted\<close>; here it is only where it stands.
\<close>

section \<open>State\<close>

datatype cancel_reason = NoReason | Shutdown

record active_query =
  active_task :: nat
  reason :: cancel_reason

text \<open>
  Where a task stands: admitted, waiting for the semaphore of its source, holding it, with the
  pool of the source, running on a connection, after the connection, after the semaphore.
\<close>

datatype phase =
    Entered string string
  | Queued string string
  | Holding string string
  | Pooled string string
  | Running string string
  | Returning string
  | Leaving

record executor_state =
  admitting :: bool
  in_flight :: "nat set"
  permits :: "(string, int) dict"
  active_queries :: "(string, active_query) dict"
  pools :: "(string, int) dict"
  task_phase :: "nat \<Rightarrow> phase option"

definition initial_executor :: executor_state where
  "initial_executor = \<lparr>admitting = True, in_flight = {}, permits = [], active_queries = [], pools = [],
     task_phase = (\<lambda>t. None)\<rparr>"

section \<open>Operations\<close>

abbreviation set_phase :: "nat \<Rightarrow> phase \<Rightarrow> executor_state \<Rightarrow> executor_state" where
  "set_phase t p st \<equiv> st\<lparr>task_phase := (task_phase st)(t \<mapsto> p)\<rparr>"

definition admit :: "nat \<Rightarrow> executor_state \<Rightarrow> executor_state" where
  "admit t st = st\<lparr>in_flight := insert t (in_flight st)\<rparr>"

definition ensure_semaphore :: "source_profile \<Rightarrow> executor_state \<Rightarrow> executor_state" where
  "ensure_semaphore source st =
     (if map_of (permits st) (source_id source) = None
      then st\<lparr>permits := AList.update (source_id source) (max_concurrent_queries (budget source)) (permits st)\<rparr>
      else st)"

definition semaphore_add :: "string \<Rightarrow> int \<Rightarrow> executor_state \<Rightarrow> executor_state" where
  "semaphore_add sid d st =
     (case map_of (permits st) sid of
        None \<Rightarrow> st | Some n \<Rightarrow> st\<lparr>permits := AList.update sid (n + d) (permits st)\<rparr>)"

text \<open>\<open>_get_pool\<close>: the pool of a source is created once, with the size of its budget.\<close>

definition get_pool :: "source_profile \<Rightarrow> executor_state \<Rightarrow> executor_state" where
  "get_pool source st =
     (if map_of (pools st) (source_id source) = None
      then st\<lparr>pools := AList.update (source_id source) (max_pool_size (budget source)) (pools st)\<rparr>
      else st)"

definition register_active :: "string \<Rightarrow> nat \<Rightarrow> executor_state \<Rightarrow> executor_state" where
  "register_active query_id t st =
     st\<lparr>active_queries := AList.update query_id \<lparr>active_task = t, reason = NoReason\<rparr> (active_queries st)\<rparr>"

definition pop_active :: "string \<Rightarrow> executor_state \<Rightarrow> executor_state" where
  "pop_active query_id st = st\<lparr>active_queries := AList.delete query_id (active_queries st)\<rparr>"

definition discard_task :: "nat \<Rightarrow> executor_state \<Rightarrow> executor_state" where
  "discard_task t st = st\<lparr>in_flight := in_flight st - {t}, task_phase := (task_phase st)(t := None)\<rparr>"

definition stop_accepting :: "executor_state \<Rightarrow> executor_state" where
  "stop_accepting st = st\<lparr>admitting := False\<rparr>"

text \<open>
  \<open>_cancel_inflight\<close>: the tasks it cancels, those not active, and the reason it sets. What a
  cancelled task does is a step of that task.
\<close>

definition tasks_to_cancel :: "executor_state \<Rightarrow> nat set" where
  "tasks_to_cancel st = in_flight st - (active_task \<circ> snd) ` set (active_queries st)"

definition mark_shutdown :: "executor_state \<Rightarrow> executor_state" where
  "mark_shutdown st =
     st\<lparr>active_queries := map (\<lambda>(q, a). (q, if reason a = NoReason then a\<lparr>reason := Shutdown\<rparr> else a))
          (active_queries st)\<rparr>"

text \<open>
  What \<open>_cancel_inflight\<close> does with the tasks given those that are done after its first wait: the
  tasks it cancels at once, the queries whose connection it asks to cancel, and the tasks it
  cancels after the wait.
\<close>

definition cancel_inflight :: "executor_state \<Rightarrow> nat set \<Rightarrow> nat set \<times> string list \<times> nat set \<times> executor_state" where
  "cancel_inflight st done =
     (tasks_to_cancel st, map fst (active_queries st), in_flight st - done, mark_shutdown st)"

text \<open>The beginning of \<open>drain\<close>, with the clock in milliseconds: its event and its deadline.\<close>

definition drain_begin :: "int \<Rightarrow> int \<Rightarrow> executor_state \<Rightarrow> op_event \<times> int \<times> executor_state" where
  "drain_begin grace now st = (Increment ''shutdown_started'' None 1, now + grace, stop_accepting st)"

text \<open>One round of the loop of \<open>drain\<close>; \<open>None\<close> goes on waiting.\<close>

datatype drain_end = Drained | Forced "nat set"

definition drain_poll :: "int \<Rightarrow> int \<Rightarrow> executor_state \<Rightarrow> drain_end option \<times> executor_state" where
  "drain_poll deadline now st =
     (if in_flight st = {} then (Some Drained, st)
      else if now \<ge> deadline then (Some (Forced (tasks_to_cancel st)), mark_shutdown st)
      else (None, st))"

definition drain_event :: "executor_state \<Rightarrow> drain_end \<Rightarrow> op_event" where
  "drain_event st e =
     (case e of Drained \<Rightarrow> Increment ''shutdown_drained'' None 1
      | Forced ts \<Rightarrow> Increment ''shutdown_forced_cancel'' None (int (card (in_flight st))))"

text \<open>\<open>close\<close>: a drain without grace, or only the cancellation after one, then the pools.\<close>

definition close_begin :: "executor_state \<Rightarrow> executor_state" where
  "close_begin st =
     (if admitting st then snd (drain_poll 0 0 (stop_accepting st))
      else if in_flight st \<noteq> {} then mark_shutdown st else st)"

definition close_pools :: "executor_state \<Rightarrow> executor_state" where
  "close_pools st = st\<lparr>pools := []\<rparr>"

section \<open>Steps\<close>

text \<open>
  The steps of a task, from \<open>execute\<close> to the last \<open>finally\<close>. A failure, a timeout or a
  cancellation while it holds the semaphore leads to the release of it, from every place.
\<close>

datatype executor_event =
    Admit nat string string
  | Task nat
  | Fail nat
  | StopAccepting
  | DrainPoll int int
  | Close
  | ClosePools

inductive executor_step :: "registry \<Rightarrow> executor_state \<Rightarrow> executor_event \<Rightarrow> executor_state \<Rightarrow> bool"
  for reg where
  admit: "admitting st \<Longrightarrow> task_phase st t = None \<Longrightarrow> registry_get reg sid = Some source \<Longrightarrow>
    executor_step reg st (Admit t sid q) (set_phase t (Entered sid q) (admit t st))"
| refuse: "\<not> admitting st \<Longrightarrow> executor_step reg st (Admit t sid q) st"
| enqueue: "task_phase st t = Some (Entered sid q) \<Longrightarrow> registry_get reg sid = Some source \<Longrightarrow>
    executor_step reg st (Task t) (set_phase t (Queued sid q) (ensure_semaphore source st))"
| acquire: "task_phase st t = Some (Queued sid q) \<Longrightarrow> map_of (permits st) sid = Some n \<Longrightarrow> n > 0 \<Longrightarrow>
    executor_step reg st (Task t) (set_phase t (Holding sid q) (semaphore_add sid (- 1) st))"
| give_up: "task_phase st t = Some (Queued sid q) \<Longrightarrow> executor_step reg st (Fail t) (set_phase t Leaving st)"
| take_pool: "task_phase st t = Some (Holding sid q) \<Longrightarrow> registry_get reg sid = Some source \<Longrightarrow>
    executor_step reg st (Task t) (set_phase t (Pooled sid q) (get_pool source st))"
| run: "task_phase st t = Some (Pooled sid q) \<Longrightarrow>
    executor_step reg st (Task t) (set_phase t (Running sid q) (register_active q t st))"
| fail: "task_phase st t = Some (Holding sid q) \<or> task_phase st t = Some (Pooled sid q) \<Longrightarrow>
    executor_step reg st (Fail t) (set_phase t (Returning sid) st)"
| finish: "task_phase st t = Some (Running sid q) \<Longrightarrow> e = Task t \<or> e = Fail t \<Longrightarrow>
    executor_step reg st e (set_phase t (Returning sid) (pop_active q st))"
| release: "task_phase st t = Some (Returning sid) \<Longrightarrow>
    executor_step reg st (Task t) (set_phase t Leaving (semaphore_add sid 1 st))"
| leave: "task_phase st t = Some Leaving \<Longrightarrow> executor_step reg st (Task t) (discard_task t st)"
| stop: "executor_step reg st StopAccepting (stop_accepting st)"
| drain: "executor_step reg st (DrainPoll deadline now) (snd (drain_poll deadline now (stop_accepting st)))"
| close: "executor_step reg st Close (close_begin st)"
| close_pools: "executor_step reg st ClosePools (close_pools st)"

code_pred executor_step .

inductive_cases executor_taskE: "executor_step reg st (Task t) st'"
inductive_cases executor_failE: "executor_step reg st (Fail t) st'"

abbreviation executor_run :: "registry \<Rightarrow> executor_state \<Rightarrow> executor_event list \<Rightarrow> executor_state \<Rightarrow> bool" where
  "executor_run reg \<equiv> run_of (executor_step reg)"

end
