(* ===== verification/ResultEncoding.thy ===== *)
theory ResultEncoding
  imports PyValue
begin

text \<open>
  \<open>src/query_man/guarded_query/result_encoding.py\<close>: the policy material for times and result
  types, the check of result type OIDs, and the canonical encoding of a database value as a
  JSON value. \<open>Decimal.__str__\<close>, \<open>isoformat\<close> and \<open>astimezone(UTC)\<close> are the standard
  library's, modelled as CPython computes them (proleptic Gregorian ordinals).
\<close>

section \<open>Policy material\<close>

definition CANONICAL_TIME_POLICY_MATERIAL :: "(string \<times> pyval) list" where
  "CANONICAL_TIME_POLICY_MATERIAL =
    [(''version'', IntV 1),
     (''reader_session_timezone'', StrV ''UTC''),
     (''aware_datetime'', StrV ''utc_isoformat_plus_00_00''),
     (''naive_datetime'', StrV ''preserve_isoformat''),
     (''date'', StrV ''preserve_isoformat''),
     (''time'', StrV ''preserve_isoformat''),
     (''timetz'', StrV ''preserve_isoformat'')]"

definition RESULT_OID_PAIRS :: "(string \<times> int) list" where
  "RESULT_OID_PAIRS =
    [(''int8'', 20), (''int2'', 21), (''int4'', 23), (''text'', 25), (''date'', 1082),
     (''timestamptz'', 1184), (''numeric'', 1700)]"

definition RESULT_OID_POLICY_MATERIAL :: "(string \<times> pyval) list" where
  "RESULT_OID_POLICY_MATERIAL =
    [(''version'', IntV 1),
     (''postgresql_major'', IntV 18),
     (''allowed_scalar_oids'',
        SeqV (map (\<lambda>(type_name, oid). SeqV [StrV type_name, IntV oid]) RESULT_OID_PAIRS))]"

definition ALLOWED_RESULT_OIDS :: "int list" where
  "ALLOWED_RESULT_OIDS = map snd RESULT_OID_PAIRS"

definition RESULT_OID_POLICY_ERROR :: string where
  "RESULT_OID_POLICY_ERROR = ''Unsupported PostgreSQL result type''"

datatype encode_error = ResultEncodingError string | OverflowError

text \<open>
  \<open>type(oid) is int\<close> is false of a \<open>bool\<close>. The argument is what iterating over the OIDs
  gives: an exception (\<open>Inl\<close>) or the values.
\<close>

fun supported_oid :: "pyval \<Rightarrow> bool" where
  "supported_oid (IntV oid) = (oid \<in> set ALLOWED_RESULT_OIDS)"
| "supported_oid v = False"

definition require_supported_result_oids :: "'x + pyval list \<Rightarrow> encode_error + unit" where
  "require_supported_result_oids oids =
     (case oids of
        Inl e \<Rightarrow> Inl (ResultEncodingError RESULT_OID_POLICY_ERROR)
      | Inr result_oids \<Rightarrow>
          raise_if (result_oids = [] \<or> list_ex (\<lambda>oid. \<not> supported_oid oid) result_oids)
            (ResultEncodingError RESULT_OID_POLICY_ERROR))"

section \<open>Numbers and times of the standard library\<close>

definition zfill :: "nat \<Rightarrow> nat \<Rightarrow> string" where
  "zfill w n = replicate (w - length (nat_str n)) (CHR ''0'') @ nat_str n"

text \<open>
  A \<open>Decimal\<close>: sign, coefficient and exponent, or a special value by its text. The text of a
  finite one is plain unless the exponent is positive or the value is very small.
\<close>

datatype decimal = Finite bool nat int | Special string

fun decimal_str :: "decimal \<Rightarrow> string" where
  "decimal_str (Special s) = s"
| "decimal_str (Finite negative coefficient exponent) =
     (let ds = nat_str coefficient;
          n = int (length ds);
          leftdigits = exponent + n;
          dotplace = (if exponent \<le> 0 \<and> leftdigits > - 6 then leftdigits else 1);
          (intpart, fracpart) =
            (if dotplace \<le> 0 then (''0'', CHR ''.'' # replicate (nat (- dotplace)) (CHR ''0'') @ ds)
             else if dotplace \<ge> n then (ds @ replicate (nat (dotplace - n)) (CHR ''0''), [])
             else (take (nat dotplace) ds, CHR ''.'' # drop (nat dotplace) ds));
          e = leftdigits - dotplace;
          exp_str = (if e = 0 then [] else if e < 0 then ''E'' @ int_str e else ''E+'' @ int_str e)
      in (if negative then ''-'' else []) @ intpart @ fracpart @ exp_str)"

record pydate =
  year :: nat
  month :: nat
  day :: nat

record pytime =
  hour :: nat
  minute :: nat
  second :: nat
  microsecond :: nat

text \<open>\<open>datetime\<close>, with its offset from UTC in microseconds when it is aware.\<close>

record pydatetime =
  date_part :: pydate
  time_part :: pytime
  utcoffset :: "int option"

definition leap :: "nat \<Rightarrow> bool" where
  "leap y \<longleftrightarrow> y mod 4 = 0 \<and> (y mod 100 \<noteq> 0 \<or> y mod 400 = 0)"

definition days_in_month :: "bool \<Rightarrow> nat \<Rightarrow> nat" where
  "days_in_month is_leap m = (if m = 2 then (if is_leap then 29 else 28)
     else if m \<in> {4, 6, 9, 11} then 30 else 31)"

fun days_before_month :: "bool \<Rightarrow> nat \<Rightarrow> nat" where
  "days_before_month is_leap 0 = 0"
| "days_before_month is_leap (Suc m) =
     (if m = 0 then 0 else days_before_month is_leap m + days_in_month is_leap m)"

definition days_before_year :: "nat \<Rightarrow> nat" where
  "days_before_year y = (y - 1) * 365 + (y - 1) div 4 - (y - 1) div 100 + (y - 1) div 400"

definition toordinal :: "pydate \<Rightarrow> nat" where
  "toordinal d = days_before_year (year d) + days_before_month (leap (year d)) (month d) + day d"

definition month_of_day :: "bool \<Rightarrow> nat \<Rightarrow> nat \<times> nat" where
  "month_of_day is_leap n =
     (let m = (n + 50) div 32; preceding = days_before_month is_leap m in
      if preceding > n
      then (m - 1, n - (preceding - days_in_month is_leap (m - 1)) + 1)
      else (m, n - preceding + 1))"

definition fromordinal :: "nat \<Rightarrow> pydate" where
  "fromordinal ordn =
     (let n = ordn - 1;
          n400 = n div 146097; n = n mod 146097;
          n100 = n div 36524; n = n mod 36524;
          n4 = n div 1461; n = n mod 1461;
          n1 = n div 365; n = n mod 365;
          y = n400 * 400 + 1 + n100 * 100 + n4 * 4 + n1
      in if n1 = 4 \<or> n100 = 4 then \<lparr>year = y - 1, month = 12, day = 31\<rparr>
         else let (m, d) = month_of_day (n1 = 3 \<and> (n4 \<noteq> 24 \<or> n100 = 3)) n
              in \<lparr>year = y, month = m, day = d\<rparr>)"

definition MAXORDINAL :: nat where
  "MAXORDINAL = 3652059"

definition time_micros :: "pytime \<Rightarrow> nat" where
  "time_micros t = ((hour t * 60 + minute t) * 60 + second t) * 1000000 + microsecond t"

definition DAY_MICROS :: int where
  "DAY_MICROS = 86400000000"

definition time_of_micros :: "nat \<Rightarrow> pytime" where
  "time_of_micros n =
     \<lparr>hour = n div 3600000000, minute = n div 60000000 mod 60,
      second = n div 1000000 mod 60, microsecond = n mod 1000000\<rparr>"

text \<open>The instant an aware \<open>datetime\<close> denotes, in microseconds.\<close>

definition instant :: "pydatetime \<Rightarrow> int" where
  "instant dt = int (toordinal (date_part dt)) * DAY_MICROS + int (time_micros (time_part dt))
     - (case utcoffset dt of None \<Rightarrow> 0 | Some off \<Rightarrow> off)"

definition astimezone_utc :: "pydatetime \<Rightarrow> encode_error + pydatetime" where
  "astimezone_utc dt =
     (let t = instant dt; days = t div DAY_MICROS in
      if 0 < days \<and> days \<le> int MAXORDINAL
      then Inr \<lparr>date_part = fromordinal (nat days),
                time_part = time_of_micros (nat (t mod DAY_MICROS)),
                utcoffset = Some 0\<rparr>
      else Inl OverflowError)"

definition date_isoformat :: "pydate \<Rightarrow> string" where
  "date_isoformat d = zfill 4 (year d) @ ''-'' @ zfill 2 (month d) @ ''-'' @ zfill 2 (day d)"

definition time_isoformat :: "pytime \<Rightarrow> string" where
  "time_isoformat t =
     zfill 2 (hour t) @ '':'' @ zfill 2 (minute t) @ '':'' @ zfill 2 (second t)
     @ (if microsecond t = 0 then [] else ''.'' @ zfill 6 (microsecond t))"

text \<open>Only \<open>naive\<close> values and values in UTC are formatted.\<close>

definition datetime_isoformat :: "pydatetime \<Rightarrow> string" where
  "datetime_isoformat dt =
     date_isoformat (date_part dt) @ ''T'' @ time_isoformat (time_part dt)
     @ (case utcoffset dt of None \<Rightarrow> [] | Some off \<Rightarrow> ''+00:00'')"

section \<open>Encoding a value\<close>

datatype cell_key = StrKey string | OtherKey

datatype cell =
    CellNone
  | CellBool bool
  | CellInt int
  | CellStr string
  | CellDecimal decimal
  | CellDatetime pydatetime
  | CellDate pydate
  | CellMapping "(cell_key \<times> cell) list"
  | CellOther string

definition is_str_key :: "cell_key \<Rightarrow> bool" where
  "is_str_key k = (case k of StrKey s \<Rightarrow> True | OtherKey \<Rightarrow> False)"

fun encode_result_value :: "cell \<Rightarrow> encode_error + pyval"
  and encode_items :: "(cell_key \<times> cell) list \<Rightarrow> encode_error + (string \<times> pyval) list" where
  "encode_result_value CellNone = Inr NoneV"
| "encode_result_value (CellBool b) = Inr (BoolV b)"
| "encode_result_value (CellInt i) = Inr (IntV i)"
| "encode_result_value (CellStr s) = Inr (StrV s)"
| "encode_result_value (CellDecimal d) = Inr (StrV (decimal_str d))"
| "encode_result_value (CellDatetime dt) =
     (if utcoffset dt \<noteq> None
      then bindE (astimezone_utc dt) (\<lambda>utc. Inr (StrV (datetime_isoformat utc)))
      else Inr (StrV (datetime_isoformat dt)))"
| "encode_result_value (CellDate d) = Inr (StrV (date_isoformat d))"
| "encode_result_value (CellMapping items) =
     (if list_ex (\<lambda>(k, v). \<not> is_str_key k) items
      then Inl (ResultEncodingError ''PostgreSQL result objects require string keys'')
      else bindE (encode_items items) (\<lambda>kvs. Inr (MapV kvs)))"
| "encode_result_value (CellOther type_name) =
     Inl (ResultEncodingError (''Unsupported PostgreSQL result type: '' @ type_name))"
| "encode_items [] = Inr []"
| "encode_items ((k, v) # items) =
     bindE (encode_result_value v) (\<lambda>e. bindE (encode_items items) (\<lambda>rest.
       Inr ((case k of StrKey s \<Rightarrow> s | OtherKey \<Rightarrow> [], e) # rest)))"

section \<open>Calendar arithmetic\<close>

lemma days_before_month_table [simp]:
  "days_before_month l 1 = 0" "days_before_month l (Suc 0) = 0" "days_before_month l 2 = 31"
  "days_before_month l 3 = (if l then 60 else 59)" "days_before_month l 4 = (if l then 91 else 90)"
  "days_before_month l 5 = (if l then 121 else 120)" "days_before_month l 6 = (if l then 152 else 151)"
  "days_before_month l 7 = (if l then 182 else 181)" "days_before_month l 8 = (if l then 213 else 212)"
  "days_before_month l 9 = (if l then 244 else 243)" "days_before_month l 10 = (if l then 274 else 273)"
  "days_before_month l 11 = (if l then 305 else 304)" "days_before_month l 12 = (if l then 335 else 334)"
  by (simp_all add: numeral_eq_Suc days_in_month_def)

definition valid_date :: "pydate \<Rightarrow> bool" where
  "valid_date d \<longleftrightarrow> 1 \<le> year d \<and> 1 \<le> month d \<and> month d \<le> 12 \<and> 1 \<le> day d \<and>
     day d \<le> days_in_month (leap (year d)) (month d)"

lemma month_bounds:
  assumes "1 \<le> k" and "k \<le> 12"
  shows "days_before_month l (k - 1) + days_in_month l (k - 1) = days_before_month l k \<or> k = 1"
    and "days_before_month l (k - 1) + 50 \<le> 32 * k \<or> k = 1"
    and "32 * k < days_before_month l k + days_in_month l k + 19 \<or>
      k = 12 \<and> 365 \<le> days_before_month l k + days_in_month l k"
proof -
  have "k \<in> {1, 2, 3, 4, 5, 6, 7, 8, 9, 10, 11, 12}" using assms by simp presburger
  then show "days_before_month l (k - 1) + days_in_month l (k - 1) = days_before_month l k \<or> k = 1"
    and "days_before_month l (k - 1) + 50 \<le> 32 * k \<or> k = 1"
    and "32 * k < days_before_month l k + days_in_month l k + 19 \<or>
      k = 12 \<and> 365 \<le> days_before_month l k + days_in_month l k"
    by (cases l; elim insertE emptyE; simp add: days_in_month_def)+
qed

lemma month_of_day_correct:
  assumes "n < 365" and "month_of_day l n = (m, d)"
  shows "1 \<le> m \<and> m \<le> 12 \<and> 1 \<le> d \<and> d \<le> days_in_month l m \<and> days_before_month l m + d = n + 1"
proof -
  define k where "k = (n + 50) div 32"
  have lo: "32 * k \<le> n + 50" and hi: "n + 50 < 32 * k + 32" unfolding k_def by presburger+
  have k: "1 \<le> k" "k \<le> 12" using lo hi assms(1) by linarith+
  note bounds = month_bounds [OF k, of l]
  show ?thesis
  proof (cases "days_before_month l k > n")
    case True
    then have "k \<noteq> 1" by (intro notI) simp
    moreover have "m = k - 1" "d = n - (days_before_month l k - days_in_month l (k - 1)) + 1"
      using True assms(2) unfolding month_of_day_def k_def [symmetric] Let_def by auto
    ultimately show ?thesis using True bounds lo k by simp linarith
  next
    case False
    then have "m = k" "d = n - days_before_month l k + 1"
      using assms(2) unfolding month_of_day_def k_def [symmetric] Let_def by auto
    with False show ?thesis using assms(1) bounds hi k by simp linarith
  qed
qed

text \<open>The position of a day in its 400-year cycle, and the year it is in.\<close>

lemma year_of_cycle:
  assumes "b \<le> 3" and "c \<le> 24" and "d \<le> 3"
  shows "days_before_year (400 * a + 1 + 100 * b + 4 * c + d) = 146097 * a + 36524 * b + 1461 * c + 365 * d"
    and "leap (400 * a + 1 + 100 * b + 4 * c + d) \<longleftrightarrow> d = 3 \<and> (c \<noteq> 24 \<or> b = 3)"
proof -
  let ?y = "400 * a + 100 * b + 4 * c + d"
  have d4: "?y div 4 = 100 * a + 25 * b + c" by (rule div_nat_eqI; use assms in simp)
  have d100: "?y div 100 = 4 * a + b" by (rule div_nat_eqI; use assms in simp)
  have d400: "?y div 400 = a" by (rule div_nat_eqI; use assms in simp)
  have y: "400 * a + 1 + 100 * b + 4 * c + d = ?y + 1" by simp
  show "days_before_year (400 * a + 1 + 100 * b + 4 * c + d) = 146097 * a + 36524 * b + 1461 * c + 365 * d"
    unfolding y days_before_year_def add_diff_cancel_right' d4 d100 d400 by simp
  have cycle: "x mod k = 0 \<longleftrightarrow> x = k" if "0 < x" "x \<le> k" for x k :: nat
    using that by (cases "x = k") auto
  have "?y + 1 = (d + 1) + 4 * (100 * a + 25 * b + c)" by simp
  then have m4: "(?y + 1) mod 4 = 0 \<longleftrightarrow> d = 3"
    using cycle [of "d + 1" 4] assms by (simp only: mod_mult_self2) simp
  have "?y + 1 = (4 * c + d + 1) + 100 * (4 * a + b)" by simp
  then have m100: "(?y + 1) mod 100 = 0 \<longleftrightarrow> 4 * c + d = 99"
    using cycle [of "4 * c + d + 1" 100] assms by (simp only: mod_mult_self2) simp
  have "?y + 1 = (100 * b + 4 * c + d + 1) + 400 * a" by simp
  then have m400: "(?y + 1) mod 400 = 0 \<longleftrightarrow> 100 * b + 4 * c + d = 399"
    using cycle [of "100 * b + 4 * c + d + 1" 400] assms by (simp only: mod_mult_self2) simp
  have c1: "4 * c + d = 99 \<longleftrightarrow> c = 24 \<and> d = 3" using assms by (intro iffI conjI) linarith+
  have c2: "100 * b + 4 * c + d = 399 \<longleftrightarrow> b = 3 \<and> c = 24 \<and> d = 3" using assms by (intro iffI conjI) linarith+
  show "leap (400 * a + 1 + 100 * b + 4 * c + d) \<longleftrightarrow> d = 3 \<and> (c \<noteq> 24 \<or> b = 3)"
    unfolding leap_def y m4 m100 m400 c1 c2 by blast
qed

lemma last_day_of_leap_year:
  assumes "b \<le> 3" and "c \<le> 24" and "c \<noteq> 24 \<or> b = 3"
  shows "toordinal \<lparr>year = 400 * a + 100 * b + 4 * c + 4, month = 12, day = 31\<rparr>
     = 146097 * a + 36524 * b + 1461 * c + 1461"
    and "valid_date \<lparr>year = 400 * a + 100 * b + 4 * c + 4, month = 12, day = 31\<rparr>"
proof -
  have y: "400 * a + 100 * b + 4 * c + 4 = 400 * a + 1 + 100 * b + 4 * c + 3" by simp
  have dby: "days_before_year (400 * a + 1 + 100 * b + 4 * c + 3) = 146097 * a + 36524 * b + 1461 * c + 365 * 3"
    and leap: "leap (400 * a + 1 + 100 * b + 4 * c + 3)"
    using year_of_cycle [of b c 3 a] assms by auto
  show "toordinal \<lparr>year = 400 * a + 100 * b + 4 * c + 4, month = 12, day = 31\<rparr>
     = 146097 * a + 36524 * b + 1461 * c + 1461"
    using dby leap by (simp add: toordinal_def y)
  show "valid_date \<lparr>year = 400 * a + 100 * b + 4 * c + 4, month = 12, day = 31\<rparr>"
    by (simp add: valid_date_def days_in_month_def)
qed

lemma fromordinal_correct:
  assumes "1 \<le> n"
  shows "toordinal (fromordinal n) = n \<and> valid_date (fromordinal n) \<and>
    (n \<le> MAXORDINAL \<longrightarrow> year (fromordinal n) \<le> 9999)"
proof -
  define a where "a = (n - 1) div 146097"
  define r1 where "r1 = (n - 1) mod 146097"
  define b where "b = r1 div 36524"
  define r2 where "r2 = r1 mod 36524"
  define c where "c = r2 div 1461"
  define r3 where "r3 = r2 mod 1461"
  define d where "d = r3 div 365"
  define e where "e = r3 mod 365"
  have n: "n = 146097 * a + r1 + 1" "r1 < 146097"
    using assms unfolding a_def r1_def by (auto simp: algebra_simps)
  have r1: "r1 = 36524 * b + r2" "r2 < 36524" unfolding b_def r2_def by auto
  have r2: "r2 = 1461 * c + r3" "r3 < 1461" unfolding c_def r3_def by auto
  have r3: "r3 = 365 * d + e" "e < 365" unfolding d_def e_def by auto
  have b4: "b \<le> 4" and c24: "c \<le> 24" and d4: "d \<le> 4" using n r1 r2 r3 by linarith+
  have from_eq: "fromordinal n = (if d = 4 \<or> b = 4
      then \<lparr>year = 400 * a + 1 + 100 * b + 4 * c + d - 1, month = 12, day = 31\<rparr>
      else let (m, dd) = month_of_day (d = 3 \<and> (c \<noteq> 24 \<or> b = 3)) e
           in \<lparr>year = 400 * a + 1 + 100 * b + 4 * c + d, month = m, day = dd\<rparr>)"
    unfolding fromordinal_def Let_def a_def [symmetric] r1_def [symmetric] b_def [symmetric]
      r2_def [symmetric] c_def [symmetric] r3_def [symmetric] d_def [symmetric] e_def [symmetric]
    by (simp add: ac_simps)
  consider "b = 4" | "b \<le> 3" "d = 4" | "b \<le> 3" "d \<le> 3" using b4 d4 by linarith
  then show ?thesis
  proof cases
    case 1
    then have z: "r2 = 0" "c = 0" "d = 0" using n r1 r2 r3 by linarith+
    then have "fromordinal n = \<lparr>year = 400 * a + 100 * 3 + 4 * 24 + 4, month = 12, day = 31\<rparr>"
      using 1 by (simp add: from_eq)
    with last_day_of_leap_year [of 3 24 a] n r1 z 1 show ?thesis by (simp add: MAXORDINAL_def)
  next
    case 2
    then have z: "e = 0" "c \<noteq> 24" using r1 r2 r3 by linarith+
    have eq: "fromordinal n = \<lparr>year = 400 * a + 100 * b + 4 * c + 4, month = 12, day = 31\<rparr>"
      using 2 by (simp add: from_eq)
    have "400 * a + 100 * b + 4 * c + 4 \<le> 9999" if "n \<le> 3652059"
      using that n r1 r2 r3 2 z by linarith
    with eq last_day_of_leap_year [of b c a] n r1 r2 r3 2 z c24 show ?thesis
      by (simp add: MAXORDINAL_def)
  next
    case 3
    obtain m dd where md: "month_of_day (d = 3 \<and> (c \<noteq> 24 \<or> b = 3)) e = (m, dd)" by fastforce
    have eq: "fromordinal n = \<lparr>year = 400 * a + 1 + 100 * b + 4 * c + d, month = m, day = dd\<rparr>"
      using 3 md by (simp add: from_eq)
    have "400 * a + 1 + 100 * b + 4 * c + d \<le> 9999" if "n \<le> 3652059"
      using that n r1 r2 r3 3 c24 by linarith
    moreover have "n = 146097 * a + 36524 * b + 1461 * c + 365 * d + (e + 1)"
      using n r1 r2 r3 by linarith
    moreover note month_of_day_correct [OF r3(2) md] year_of_cycle [OF 3(1) c24 3(2), of a]
    ultimately show ?thesis
      unfolding eq toordinal_def valid_date_def MAXORDINAL_def pydate.simps by auto
  qed
qed

section \<open>Times of day and instants\<close>

definition valid_time :: "pytime \<Rightarrow> bool" where
  "valid_time t \<longleftrightarrow> hour t < 24 \<and> minute t < 60 \<and> second t < 60 \<and> microsecond t < 1000000"

lemma time_of_micros_correct:
  assumes "n < 86400000000"
  shows "time_micros (time_of_micros n) = n \<and> valid_time (time_of_micros n)"
proof -
  define s where "s = n div 1000000"
  define m where "m = s div 60"
  have n: "n = s * 1000000 + n mod 1000000" and s: "s = m * 60 + s mod 60"
    and m: "m = m div 60 * 60 + m mod 60" unfolding s_def m_def by simp_all
  have hm: "n div 60000000 = m" "n div 3600000000 = m div 60"
    unfolding m_def s_def by (simp_all add: div_mult2_eq [symmetric])
  have "m div 60 < 24" unfolding hm(2) [symmetric] using assms by (simp add: div_less_iff_less_mult)
  moreover have "((m div 60 * 60 + m mod 60) * 60 + s mod 60) * 1000000 + n mod 1000000 = n"
    using n s m by simp
  ultimately show ?thesis
    by (simp add: time_micros_def time_of_micros_def hm s_def [symmetric] valid_time_def)
qed

text \<open>Converting to UTC keeps the instant, and gives a valid date and time.\<close>

lemma astimezone_utc_correct:
  assumes "astimezone_utc dt = Inr u"
  shows "instant u = instant dt \<and> utcoffset u = Some 0 \<and> valid_date (date_part u) \<and>
    year (date_part u) \<le> 9999 \<and> valid_time (time_part u)"
proof -
  let ?days = "instant dt div DAY_MICROS" and ?rest = "instant dt mod DAY_MICROS"
  have days: "0 < ?days" "?days \<le> int MAXORDINAL"
    and u: "u = \<lparr>date_part = fromordinal (nat ?days), time_part = time_of_micros (nat ?rest),
                utcoffset = Some 0\<rparr>"
    using assms by (auto simp: astimezone_utc_def Let_def split: if_splits)
  have rest: "0 \<le> ?rest" "?rest < 86400000000"
    by (simp_all add: DAY_MICROS_def)
  then have time: "time_micros (time_of_micros (nat ?rest)) = nat ?rest"
    "valid_time (time_of_micros (nat ?rest))"
    using time_of_micros_correct [of "nat ?rest"] by auto
  have date: "toordinal (fromordinal (nat ?days)) = nat ?days" "valid_date (fromordinal (nat ?days))"
    "year (fromordinal (nat ?days)) \<le> 9999"
    using fromordinal_correct [of "nat ?days"] days by auto
  have "instant u = ?days * DAY_MICROS + ?rest"
    using u time date days rest by (simp add: instant_def)
  then have "instant u = instant dt" by simp
  with u time date show ?thesis by simp
qed

section \<open>The text of a time determines it\<close>

lemma length_nat_str: "0 < w \<Longrightarrow> n < 10 ^ w \<Longrightarrow> length (nat_str n) \<le> w"
proof (induction w arbitrary: n)
  case (Suc w)
  show ?case
  proof (cases "n < 10")
    case True
    then show ?thesis by (subst nat_str.simps) simp
  next
    case False
    with Suc.prems have "0 < w" by (cases w) auto
    moreover have "n div 10 < 10 ^ w" using Suc.prems by (simp add: div_less_iff_less_mult mult.commute)
    ultimately have "length (nat_str (n div 10)) \<le> w" by (rule Suc.IH)
    with False show ?thesis by (subst nat_str.simps) simp
  qed
qed simp

lemma length_zfill: "0 < w \<Longrightarrow> n < 10 ^ w \<Longrightarrow> length (zfill w n) = w"
  using length_nat_str [of w n] by (simp add: zfill_def)

lemma digits_value_zeros: "digits_value (replicate k (CHR ''0'') @ s) = digits_value s"
  by (induction k) (simp_all add: digits_value_def)

lemma digits_value_zfill [simp]: "digits_value (zfill w n) = n"
  by (simp add: zfill_def digits_value_zeros)

lemma zfill_split:
  assumes "zfill w m @ s = zfill w n @ t" and "0 < w" and "m < 10 ^ w" and "n < 10 ^ w"
  shows "m = n \<and> s = t"
proof -
  have "zfill w m = zfill w n \<and> s = t"
    using assms by (simp add: length_zfill append_eq_append_conv)
  then show ?thesis by (metis digits_value_zfill)
qed

lemma date_isoformat_split:
  assumes "date_isoformat d @ s = date_isoformat d' @ t"
    and "valid_date d" "valid_date d'" "year d \<le> 9999" "year d' \<le> 9999"
  shows "d = d' \<and> s = t"
proof -
  have "day d \<le> 31" "day d' \<le> 31"
    using assms(2,3) by (auto simp: valid_date_def days_in_month_def split: if_splits)
  moreover have "month d \<le> 12" "month d' \<le> 12" using assms(2,3) by (simp_all add: valid_date_def)
  ultimately show ?thesis
    using assms(1,4,5) by (auto simp: date_isoformat_def dest!: zfill_split)
qed

lemma time_isoformat_split:
  assumes "time_isoformat a @ ''+00:00'' = time_isoformat b @ ''+00:00''"
    and "valid_time a" "valid_time b"
  shows "a = b"
proof -
  have "microsecond a = microsecond b"
    if "(if microsecond a = 0 then [] else ''.'' @ zfill 6 (microsecond a)) @ ''+00:00''
      = (if microsecond b = 0 then [] else ''.'' @ zfill 6 (microsecond b)) @ ''+00:00''"
    using that zfill_split [of 6 "microsecond a" "''+00:00''" "microsecond b" "''+00:00''"] assms(2,3)
    by (simp add: valid_time_def split: if_splits)
  with assms show ?thesis
    by (auto simp: time_isoformat_def valid_time_def simp del: if_split dest!: zfill_split)
qed

section \<open>Properties\<close>

text \<open>
  C29: the canonical form of aware timestamps. Two of them are encoded to the same text exactly
  when they denote the same instant, whatever their offsets; and the conversion to UTC behind
  the text keeps the instant.
\<close>
theorem aware_datetime_canonical:
  assumes "utcoffset a \<noteq> None" and "utcoffset b \<noteq> None"
    and "astimezone_utc a = Inr ua" and "astimezone_utc b = Inr ub"
  shows "(encode_result_value (CellDatetime a) = encode_result_value (CellDatetime b)
     \<longleftrightarrow> instant a = instant b) \<and> instant ua = instant a"
proof -
  note a = astimezone_utc_correct [OF assms(3)] and b = astimezone_utc_correct [OF assms(4)]
  have "ua = ub" if "datetime_isoformat ua = datetime_isoformat ub"
  proof -
    have "date_isoformat (date_part ua) @ ''T'' @ time_isoformat (time_part ua) @ ''+00:00''
      = date_isoformat (date_part ub) @ ''T'' @ time_isoformat (time_part ub) @ ''+00:00''"
      using that a b by (simp add: datetime_isoformat_def)
    from date_isoformat_split [OF this] a b time_isoformat_split [of "time_part ua" "time_part ub"]
    have "date_part ua = date_part ub" "time_part ua = time_part ub" by auto
    then show ?thesis using a b by simp
  qed
  moreover have "ua = ub" if "instant a = instant b"
    using assms(3,4) that by (simp add: astimezone_utc_def)
  ultimately show ?thesis using assms a b by auto
qed

definition example_seoul :: pydatetime where
  "example_seoul = \<lparr>date_part = \<lparr>year = 2024, month = 3, day = 1\<rparr>,
     time_part = \<lparr>hour = 8, minute = 30, second = 0, microsecond = 5\<rparr>,
     utcoffset = Some 32400000000\<rparr>"

definition example_utc :: pydatetime where
  "example_utc = \<lparr>date_part = \<lparr>year = 2024, month = 2, day = 29\<rparr>,
     time_part = \<lparr>hour = 23, minute = 30, second = 0, microsecond = 5\<rparr>, utcoffset = Some 0\<rparr>"

lemma example_times:
  "astimezone_utc example_seoul = Inr example_utc" "astimezone_utc example_utc = Inr example_utc"
  by (simp_all add: astimezone_utc_def instant_def example_seoul_def example_utc_def toordinal_def
      days_before_year_def leap_def time_micros_def DAY_MICROS_def MAXORDINAL_def fromordinal_def
      month_of_day_def days_in_month_def time_of_micros_def Let_def)

theorem aware_datetime_canonical_witness:
  "encode_result_value (CellDatetime example_seoul) = encode_result_value (CellDatetime example_utc)"
  using aware_datetime_canonical [OF _ _ example_times]
    astimezone_utc_correct [OF example_times(1)]
  by (simp add: example_seoul_def example_utc_def)

text \<open>
  The result types. The check passes exactly when the OIDs can be read, there is at least
  one, and each is an integer (not a boolean) of the seven approved types; every other outcome,
  an exception included, is the same error.
\<close>
theorem result_oids_checked:
  "require_supported_result_oids oids =
     (if \<exists>vs. oids = Inr vs \<and> vs \<noteq> [] \<and>
           (\<forall>v \<in> set vs. \<exists>i. v = IntV i \<and> i \<in> {20, 21, 23, 25, 1082, 1184, 1700})
      then Inr () else Inl (ResultEncodingError ''Unsupported PostgreSQL result type''))"
proof -
  have oid: "supported_oid v \<longleftrightarrow> (\<exists>i. v = IntV i \<and> i \<in> {20, 21, 23, 25, 1082, 1184, 1700})" for v
    by (cases v) (auto simp: ALLOWED_RESULT_OIDS_def RESULT_OID_PAIRS_def)
  show ?thesis
    by (cases oids) (auto simp: require_supported_result_oids_def raise_if_def list_ex_iff oid
        RESULT_OID_POLICY_ERROR_def)
qed

theorem result_oids_checked_witness:
  "require_supported_result_oids (Inr [IntV 20, IntV 1700] :: unit + pyval list) = Inr () \<and>
   require_supported_result_oids (Inr [IntV 20, BoolV True] :: unit + pyval list) =
     Inl (ResultEncodingError ''Unsupported PostgreSQL result type'')"
  by (simp add: result_oids_checked)

text \<open>The values a row may hold: no sequence ever comes out of the encoder.\<close>

fun plain_value :: "pyval \<Rightarrow> bool" and plain_members :: "(string \<times> pyval) list \<Rightarrow> bool" where
  "plain_value (SeqV vs) = False"
| "plain_value (MapV kvs) = plain_members kvs"
| "plain_value v = True"
| "plain_members [] = True"
| "plain_members ((k, v) # kvs) = (plain_value v \<and> plain_members kvs)"

lemma encode_plain:
  "encode_result_value c = Inr v \<Longrightarrow> plain_value v"
  "encode_items items = Inr kvs \<Longrightarrow> plain_members kvs \<and> length kvs = length items"
  by (induction c and items arbitrary: v and kvs rule: encode_result_value_encode_items.induct)
    (auto simp: bindE_Inr_iff split: if_splits)

end
