(* ===== verification/Revision.thy ===== *)
theory Revision
  imports SourceModels ResultEncoding "HOL-Library.Multiset"
begin

text \<open>
  \<open>src/query_man/metadata/revision.py\<close>: the canonical form of revision material, the metadata
  revision of a source and the structure signature of its views. SHA-256 is a parameter, the
  function from the encoded text to the hexadecimal digest. The lemmas lead to what the two
  digests bind, as long as the digest does not collide on the texts at hand.
\<close>

section \<open>Canonical form\<close>

text \<open>
  A sequence is sorted by the JSON text of its canonical members; a mapping is sorted by its
  keys and loses the members that are \<open>None\<close>. (The source sorts the items of a mapping
  before it drops and canonicalises them, which is the same: neither changes a key.)
\<close>

fun canonicalize :: "pyval \<Rightarrow> pyval" and canonicalize_list :: "pyval list \<Rightarrow> pyval list"
  and canonicalize_pairs :: "(string \<times> pyval) list \<Rightarrow> (string \<times> pyval) list" where
  "canonicalize (SeqV vs) = SeqV (sort_key json_dumps_sorted (canonicalize_list vs))"
| "canonicalize (MapV kvs) = MapV (sort_key fst (canonicalize_pairs kvs))"
| "canonicalize v = v"
| "canonicalize_list [] = []"
| "canonicalize_list (v # vs) = canonicalize v # canonicalize_list vs"
| "canonicalize_pairs [] = []"
| "canonicalize_pairs ((k, v) # kvs) =
     (if v = NoneV then canonicalize_pairs kvs else (k, canonicalize v) # canonicalize_pairs kvs)"

definition canonical_digest :: "(string \<Rightarrow> string) \<Rightarrow> pyval \<Rightarrow> string" where
  "canonical_digest sha256_hex value0 =
     ''sha256:'' @ sha256_hex (json_dumps_sorted (canonicalize value0))"

section \<open>Metadata revision\<close>

definition str_seq :: "string list \<Rightarrow> pyval" where
  "str_seq ss = SeqV (map StrV ss)"

definition budget_material :: "budget_profile \<Rightarrow> pyval" where
  "budget_material b = MapV
    [(''name'', StrV (budget_name b)),
     (''version'', IntV (budget_version b)),
     (''metadata_statement_timeout_ms'', IntV (metadata_statement_timeout_ms b)),
     (''query_statement_timeout_ms'', IntV (query_statement_timeout_ms b)),
     (''query_transaction_timeout_ms'', IntV (query_transaction_timeout_ms b)),
     (''query_queue_timeout_ms'', IntV (query_queue_timeout_ms b)),
     (''lock_timeout_ms'', IntV (lock_timeout_ms b)),
     (''work_mem_kb'', IntV (work_mem_kb b)),
     (''temp_file_limit_kb'', IntV (temp_file_limit_kb b)),
     (''max_parallel_workers_per_gather'', IntV (max_parallel_workers_per_gather b)),
     (''jit_enabled'', BoolV (jit_enabled b)),
     (''max_pool_size'', IntV (max_pool_size b)),
     (''max_concurrent_queries'', IntV (max_concurrent_queries b)),
     (''max_metadata_relations'', IntV (max_metadata_relations b)),
     (''max_metadata_columns'', IntV (max_metadata_columns b)),
     (''max_columns_per_relation'', IntV (max_columns_per_relation b)),
     (''max_context_columns_per_relation'', IntV (max_context_columns_per_relation b)),
     (''max_metadata_response_bytes'', IntV (max_metadata_response_bytes b)),
     (''max_result_rows'', IntV (max_result_rows b)),
     (''max_result_bytes'', IntV (max_result_bytes b)),
     (''max_sql_bytes'', IntV (max_sql_bytes b)),
     (''max_plan_total_cost'', IntV (max_plan_total_cost b)),
     (''max_plan_rows'', IntV (max_plan_rows b)),
     (''max_plan_nodes'', IntV (max_plan_nodes b))]"

definition column_material :: "catalog_column \<Rightarrow> pyval" where
  "column_material c = MapV
    [(''name'', StrV (column_name c)), (''ordinal'', IntV (ordinal c)),
     (''data_type'', StrV (data_type c)), (''nullable'', nullability_value (nullable c)),
     (''comment'', opt_str (column_comment c))]"

definition relation_material :: "catalog_relation \<Rightarrow> pyval" where
  "relation_material r = MapV
    ([(''schema'', StrV (schema r)), (''name'', StrV (relation_name r)),
      (''kind'', StrV (relation_kind r)), (''comment'', opt_str (relation_comment r)),
      (''definition_hash'', opt_str (definition_hash r))]
     @ (if security_invoker r then [(''security_invoker'', BoolV True)] else [])
     @ (if security_barrier r then [(''security_barrier'', BoolV True)] else [])
     @ [(''columns'', SeqV (map column_material (columns r)))])"

definition metadata_material :: "source_profile \<Rightarrow> catalog_snapshot \<Rightarrow> pyval" where
  "metadata_material source catalog = MapV
    [(''source_id'', StrV (source_id source)),
     (''source_name'', StrV (source_name source)),
     (''source_description'', StrV (source_description source)),
     (''view_contract_version'', IntV (view_contract_version source)),
     (''canonical_time_policy'', MapV CANONICAL_TIME_POLICY_MATERIAL),
     (''allowed_schemas'', str_seq (allowed_schemas source)),
     (''allowed_relation_kinds'', str_seq (allowed_relation_kinds source)),
     (''execution_budget'', budget_material (budget source)),
     (''relations'', SeqV (map relation_material (relations catalog)))]"

definition create_metadata_revision ::
  "(string \<Rightarrow> string) \<Rightarrow> source_profile \<Rightarrow> catalog_snapshot \<Rightarrow> string" where
  "create_metadata_revision sha256_hex source catalog =
     canonical_digest sha256_hex (metadata_material source catalog)"

section \<open>Structure signature\<close>

definition column_structure :: "nat \<times> catalog_column \<Rightarrow> pyval" where
  "column_structure pc = MapV
    [(''position'', IntV (int (fst pc))), (''name'', StrV (column_name (snd pc))),
     (''ordinal'', IntV (ordinal (snd pc))), (''data_type'', StrV (data_type (snd pc))),
     (''nullable'', nullability_value (nullable (snd pc)))]"

definition relation_structure :: "catalog_relation \<Rightarrow> pyval" where
  "relation_structure r = MapV
    [(''schema'', StrV (schema r)), (''name'', StrV (relation_name r)),
     (''kind'', StrV (relation_kind r)), (''definition_hash'', opt_str (definition_hash r)),
     (''security_invoker'', BoolV (security_invoker r)),
     (''security_barrier'', BoolV (security_barrier r)),
     (''columns'', SeqV (map column_structure (enumerate 1 (columns r))))]"

definition structure_material :: "catalog_snapshot \<Rightarrow> pyval" where
  "structure_material catalog =
     MapV [(''relations'', SeqV (map relation_structure (relations catalog)))]"

definition create_view_structure_signature ::
  "(string \<Rightarrow> string) \<Rightarrow> catalog_snapshot \<Rightarrow> string" where
  "create_view_structure_signature sha256_hex catalog =
     canonical_digest sha256_hex (structure_material catalog)"

section \<open>Equality of canonical forms\<close>

lemma canonicalize_list_map: "canonicalize_list vs = map canonicalize vs"
  by (induction vs) auto

lemma canonicalize_NoneV [simp]: "canonicalize v = NoneV \<longleftrightarrow> v = NoneV"
  by (cases v) auto

lemma canonicalize_pairs_zip:
  "length vs = length ks \<Longrightarrow>
   canonicalize_pairs (zip ks vs) = filter (\<lambda>p. snd p \<noteq> NoneV) (zip ks (map canonicalize vs))"
  by (induction ks vs rule: list_induct2') auto

lemma canonicalize_pairs_append [simp]:
  "canonicalize_pairs (a @ b) = canonicalize_pairs a @ canonicalize_pairs b"
  by (induction a) auto

lemma sort_keys_list_map: "sort_keys_list vs = map sort_keys vs"
  by (induction vs) auto

lemma sort_keys_pairs_map: "sort_keys_pairs kvs = map (\<lambda>(k, v). (k, sort_keys v)) kvs"
  by (induction kvs) auto

lemma sort_keys_canonicalize:
  "sort_keys (canonicalize v) = canonicalize v"
  "\<forall>w \<in> set (canonicalize_list vs). sort_keys w = w"
  "\<forall>(k, w) \<in> set (canonicalize_pairs kvs). sort_keys w = w"
proof (induction v and vs and kvs rule: canonicalize_canonicalize_list_canonicalize_pairs.induct)
  case (1 vs)
  then have "map sort_keys (sort_key json_dumps_sorted (canonicalize_list vs))
      = sort_key json_dumps_sorted (canonicalize_list vs)"
    by (intro map_idI) auto
  then show ?case by (simp add: sort_keys_list_map)
next
  case (2 kvs)
  then have "map (\<lambda>(k, v). (k, sort_keys v)) (sort_key fst (canonicalize_pairs kvs))
      = sort_key fst (canonicalize_pairs kvs)"
    by (intro map_idI) auto
  then show ?case by (simp add: sort_keys_pairs_map sort_key_id_if_sorted)
qed auto

lemma canonical_text_eq:
  "json_dumps_sorted (canonicalize v) = json_dumps_sorted (canonicalize w) \<longleftrightarrow>
     canonicalize v = canonicalize w"
  by (simp add: json_dumps_sorted_def sort_keys_canonicalize json_code.injective)

lemma sort_key_eq_iff:
  assumes "inj_on f (set xs \<union> set ys)"
  shows "sort_key f xs = sort_key f ys \<longleftrightarrow> mset xs = mset ys"
proof
  assume "mset xs = mset ys"
  then have "mset (map f xs) = mset (map f ys)" by (simp only: mset_map)
  then have "map f (sort_key f xs) = map f (sort_key f ys)"
    by (metis (no_types) mset_map mset_sort properties_for_sort sorted_sort_key)
  then show "sort_key f xs = sort_key f ys"
    using assms by (auto dest!: map_inj_on)
next
  assume "sort_key f xs = sort_key f ys"
  then show "mset xs = mset ys" by (metis mset_sort)
qed

lemma canonicalize_seq_eq:
  "canonicalize (SeqV vs) = canonicalize (SeqV ws) \<longleftrightarrow>
     image_mset canonicalize (mset vs) = image_mset canonicalize (mset ws)"
proof -
  have "inj_on json_dumps_sorted (set (map canonicalize vs) \<union> set (map canonicalize ws))"
    by (auto simp: inj_on_def canonical_text_eq)
  from sort_key_eq_iff [OF this] show ?thesis
    by (simp add: canonicalize_list_map)
qed

lemma zip_some_eq:
  assumes "distinct ks" and "length vs = length ks" and "length ws = length ks"
    and "set (filter (\<lambda>p. snd p \<noteq> n) (zip ks vs)) = set (filter (\<lambda>p. snd p \<noteq> n) (zip ks ws))"
  shows "vs = ws"
proof (rule nth_equalityI)
  show "length vs = length ws" using assms by simp
  have half: "us ! i = xs ! i"
    if "set (filter (\<lambda>p. snd p \<noteq> n) (zip ks us)) = set (filter (\<lambda>p. snd p \<noteq> n) (zip ks xs))"
      and "length us = length ks" "length xs = length ks" "i < length ks" "us ! i \<noteq> n"
    for us xs i
  proof -
    have "(ks ! i, us ! i) \<in> set (filter (\<lambda>p. snd p \<noteq> n) (zip ks us))"
      using that(2-5) by (auto simp: set_zip)
    then have "(ks ! i, us ! i) \<in> set (zip ks xs)" unfolding that(1) by simp
    then obtain j where "j < length ks" "ks ! j = ks ! i" "xs ! j = us ! i"
      by (auto simp: set_zip)
    then show ?thesis using assms(1) that by (auto simp: nth_eq_iff_index_eq)
  qed
  fix i assume "i < length vs"
  then have "i < length ks" using assms(2) by simp
  with half [OF assms(4) assms(2,3)] half [OF assms(4) [symmetric] assms(3,2)]
  show "vs ! i = ws ! i" by metis
qed

lemma canonicalize_record_eq:
  assumes "distinct ks" and "length vs = length ks" and "length ws = length ks"
  shows "canonicalize (MapV (zip ks vs)) = canonicalize (MapV (zip ks ws)) \<longleftrightarrow>
     map canonicalize vs = map canonicalize ws"
proof
  let ?p = "\<lambda>us. filter (\<lambda>p. snd p \<noteq> NoneV) (zip ks (map canonicalize us))"
  assume "canonicalize (MapV (zip ks vs)) = canonicalize (MapV (zip ks ws))"
  then have "sort_key fst (?p vs) = sort_key fst (?p ws)"
    using assms by (simp add: canonicalize_pairs_zip)
  then have "set (?p vs) = set (?p ws)" by (metis set_sort)
  with zip_some_eq [OF assms(1), of "map canonicalize vs" "map canonicalize ws" NoneV] assms
  show "map canonicalize vs = map canonicalize ws" by simp
qed (use assms in \<open>simp add: canonicalize_pairs_zip\<close>)

lemma image_mset_eq_iff:
  assumes "\<And>x y. f x = f y \<longleftrightarrow> g x = g y"
  shows "image_mset f A = image_mset f B \<longleftrightarrow> image_mset g A = image_mset g B"
proof -
  have *: "image_mset k A = image_mset k B"
    if "image_mset h A = image_mset h B" "\<And>x y. h x = h y \<Longrightarrow> k x = k y"
    for h :: "'a \<Rightarrow> 'd" and k :: "'a \<Rightarrow> 'e"
  proof -
    have "k x = k (inv h (h x))" for x by (metis that(2) f_inv_into_f rangeI)
    then have "k = (k \<circ> inv h) \<circ> h" by (simp add: fun_eq_iff)
    then show ?thesis using that(1) by (metis image_mset.compositionality)
  qed
  show ?thesis using * [of f g] * [of g f] assms by blast
qed

section \<open>What the revision and the signature bind\<close>

text \<open>Relations and columns as sets of facts: the order they are listed in is left out.\<close>

definition column_content ::
  "catalog_column \<Rightarrow> string \<times> int \<times> string \<times> nullability \<times> string option" where
  "column_content c = (column_name c, ordinal c, data_type c, nullable c, column_comment c)"

definition relation_content :: "catalog_relation \<Rightarrow>
    string \<times> string \<times> string \<times> string option \<times> string option \<times> bool \<times> bool \<times>
    (string \<times> int \<times> string \<times> nullability \<times> string option) multiset" where
  "relation_content r = (schema r, relation_name r, relation_kind r, relation_comment r,
     definition_hash r, security_invoker r, security_barrier r,
     image_mset column_content (mset (columns r)))"

lemma column_material_eq:
  "canonicalize (column_material c) = canonicalize (column_material d) \<longleftrightarrow>
     column_content c = column_content d"
proof -
  let ?ks = "[''name'', ''ordinal'', ''data_type'', ''nullable'', ''comment'']"
  let ?vs = "\<lambda>c. [StrV (column_name c), IntV (ordinal c), StrV (data_type c),
    nullability_value (nullable c), opt_str (column_comment c)]"
  have scalar: "canonicalize (nullability_value n) = nullability_value n"
    "canonicalize (opt_str s) = opt_str s" for n s
    by (simp_all add: nullability_value_def opt_str_def split: nullability.split option.split)
  have "column_material c = MapV (zip ?ks (?vs c))" for c by (simp add: column_material_def)
  then show ?thesis
    using canonicalize_record_eq [of ?ks "?vs c" "?vs d"]
    by (simp add: scalar column_content_def)
qed

lemma relation_material_eq:
  "canonicalize (relation_material r) = canonicalize (relation_material s) \<longleftrightarrow>
     relation_content r = relation_content s"
proof -
  let ?ks = "[''schema'', ''name'', ''kind'', ''comment'', ''definition_hash'',
    ''security_invoker'', ''security_barrier'', ''columns'']"
  let ?flag = "\<lambda>b. if b then BoolV True else NoneV"
  let ?vs = "\<lambda>r. [StrV (schema r), StrV (relation_name r), StrV (relation_kind r),
    opt_str (relation_comment r), opt_str (definition_hash r), ?flag (security_invoker r),
    ?flag (security_barrier r), SeqV (map column_material (columns r))]"
  have scalar: "canonicalize (?flag b) = ?flag b" "canonicalize (opt_str c) = opt_str c" for b c
    by (simp_all add: opt_str_def split: option.split)
  have "canonicalize (relation_material r) = canonicalize (MapV (zip ?ks (?vs r)))" for r
    by (simp add: relation_material_def)
  then have "canonicalize (relation_material r) = canonicalize (relation_material s) \<longleftrightarrow>
      map canonicalize (?vs r) = map canonicalize (?vs s)"
    by (simp only:) (rule canonicalize_record_eq; simp)
  moreover have "canonicalize (SeqV (map column_material cs)) = canonicalize (SeqV (map column_material ds))
      \<longleftrightarrow> image_mset column_content (mset cs) = image_mset column_content (mset ds)" for cs ds
    unfolding canonicalize_seq_eq mset_map image_mset.compositionality comp_def
    by (rule image_mset_eq_iff) (rule column_material_eq)
  moreover have "?flag b = ?flag c \<longleftrightarrow> b = c" for b c by simp
  ultimately show ?thesis
    by (simp only: list.map list.inject scalar canonicalize.simps(6) pyval.inject opt_str_inj
        relation_content_def prod.inject simp_thms)
qed

lemma relations_material_eq:
  "canonicalize (SeqV (map relation_material rs)) = canonicalize (SeqV (map relation_material ss))
     \<longleftrightarrow> image_mset relation_content (mset rs) = image_mset relation_content (mset ss)"
  unfolding canonicalize_seq_eq mset_map image_mset.compositionality comp_def
  by (rule image_mset_eq_iff) (rule relation_material_eq)

lemma str_seq_eq: "canonicalize (str_seq a) = canonicalize (str_seq b) \<longleftrightarrow> mset a = mset b"
proof -
  have "image_mset (\<lambda>s. canonicalize (StrV s)) (mset a) = image_mset (\<lambda>s. canonicalize (StrV s)) (mset b)
      \<longleftrightarrow> image_mset (\<lambda>s. s) (mset a) = image_mset (\<lambda>s. s) (mset b)"
    by (rule image_mset_eq_iff) simp
  then show ?thesis
    by (simp add: str_seq_def canonicalize_seq_eq image_mset.compositionality comp_def
        del: canonicalize.simps)
qed

lemma budget_material_eq:
  "canonicalize (budget_material a) = canonicalize (budget_material b) \<longleftrightarrow> a = b"
proof -
  have fields: "canonicalize (MapV a) = canonicalize (MapV b) \<longleftrightarrow>
      map canonicalize (map snd a) = map canonicalize (map snd b)"
    if "map fst a = map fst b" "distinct (map fst a)" for a b
    using canonicalize_record_eq [of "map fst a" "map snd a" "map snd b"] that
    by (metis length_map zip_map_fst_snd)
  show ?thesis unfolding budget_material_def by (cases a; cases b; subst fields; simp)
qed

text \<open>
  C27: what a metadata revision binds. As long as the digest does not collide on the two
  texts, two published sources have the same revision exactly when they agree on the source's
  identity and description, its contract version, every field of its budget, and, whatever the
  order they are listed in, on the allowed schemas and kinds and on all relations with their
  comments, definition hashes, security flags and columns.
\<close>
theorem metadata_revision_binds:
  assumes no_collision:
    "sha256_hex (json_dumps_sorted (canonicalize (metadata_material s c))) =
       sha256_hex (json_dumps_sorted (canonicalize (metadata_material t d))) \<Longrightarrow>
     json_dumps_sorted (canonicalize (metadata_material s c)) =
       json_dumps_sorted (canonicalize (metadata_material t d))"
  shows "create_metadata_revision sha256_hex s c = create_metadata_revision sha256_hex t d \<longleftrightarrow>
    source_id s = source_id t \<and> source_name s = source_name t \<and>
    source_description s = source_description t \<and>
    view_contract_version s = view_contract_version t \<and>
    mset (allowed_schemas s) = mset (allowed_schemas t) \<and>
    mset (allowed_relation_kinds s) = mset (allowed_relation_kinds t) \<and>
    budget s = budget t \<and>
    image_mset relation_content (mset (relations c)) = image_mset relation_content (mset (relations d))"
proof -
  let ?ks = "[''source_id'', ''source_name'', ''source_description'', ''view_contract_version'',
    ''canonical_time_policy'', ''allowed_schemas'', ''allowed_relation_kinds'',
    ''execution_budget'', ''relations'']"
  let ?vs = "\<lambda>s c. [StrV (source_id s), StrV (source_name s), StrV (source_description s),
    IntV (view_contract_version s), MapV CANONICAL_TIME_POLICY_MATERIAL,
    str_seq (allowed_schemas s), str_seq (allowed_relation_kinds s), budget_material (budget s),
    SeqV (map relation_material (relations c))]"
  have "create_metadata_revision sha256_hex s c = create_metadata_revision sha256_hex t d \<longleftrightarrow>
      canonicalize (metadata_material s c) = canonicalize (metadata_material t d)"
    unfolding create_metadata_revision_def canonical_digest_def
    using no_collision canonical_text_eq by auto
  also have "metadata_material s c = MapV (zip ?ks (?vs s c))" for s c
    by (simp add: metadata_material_def)
  then have "canonicalize (metadata_material s c) = canonicalize (metadata_material t d) \<longleftrightarrow>
      map canonicalize (?vs s c) = map canonicalize (?vs t d)"
    by (simp only:) (rule canonicalize_record_eq; simp)
  finally show ?thesis
    by (simp only: list.map list.inject canonicalize.simps(5,6) pyval.inject str_seq_eq
        budget_material_eq relations_material_eq simp_thms)
qed

text \<open>The columns of a view in the order PostgreSQL has them.\<close>

definition structure_content :: "catalog_relation \<Rightarrow>
    string \<times> string \<times> string \<times> string option \<times> bool \<times> bool \<times>
    (string \<times> int \<times> string \<times> nullability) list" where
  "structure_content r = (schema r, relation_name r, relation_kind r, definition_hash r,
     security_invoker r, security_barrier r,
     map (\<lambda>c. (column_name c, ordinal c, data_type c, nullable c)) (columns r))"

lemma column_structure_eq:
  "canonicalize (column_structure p) = canonicalize (column_structure q) \<longleftrightarrow>
     fst p = fst q \<and> column_name (snd p) = column_name (snd q) \<and> ordinal (snd p) = ordinal (snd q) \<and>
     data_type (snd p) = data_type (snd q) \<and> nullable (snd p) = nullable (snd q)"
proof -
  let ?ks = "[''position'', ''name'', ''ordinal'', ''data_type'', ''nullable'']"
  let ?vs = "\<lambda>p. [IntV (int (fst p)), StrV (column_name (snd p)), IntV (ordinal (snd p)),
    StrV (data_type (snd p)), nullability_value (nullable (snd p))]"
  have scalar: "canonicalize (nullability_value n) = nullability_value n" for n
    by (simp add: nullability_value_def split: nullability.split)
  have "column_structure p = MapV (zip ?ks (?vs p))" for p by (simp add: column_structure_def)
  then show ?thesis
    using canonicalize_record_eq [of ?ks "?vs p" "?vs q"] by (simp add: scalar)
qed

text \<open>A list is known from the multiset of its numbered elements.\<close>

lemma map_enumerate: "map (\<lambda>p. (fst p, f (snd p))) (enumerate n xs) = enumerate n (map f xs)"
  by (induction xs arbitrary: n) auto

lemma mset_enumerate_eq: "mset (enumerate n xs) = mset (enumerate n ys) \<longleftrightarrow> xs = ys"
proof
  have sorted: "sort_key fst (enumerate n zs) = enumerate n zs" for zs :: "'a list"
    by (rule sort_key_id_if_sorted) (simp add: enumerate_eq_zip)
  assume eq: "mset (enumerate n xs) = mset (enumerate n ys)"
  then have "set (enumerate n xs) = set (enumerate n ys)" by (rule mset_eq_setD)
  moreover have "inj_on fst (set (enumerate n ys))"
    by (auto simp: inj_on_def in_set_enumerate_eq)
  ultimately have "enumerate n xs = enumerate n ys"
    using sort_key_eq_iff [of fst "enumerate n xs" "enumerate n ys"] eq by (simp add: sorted)
  then show "xs = ys" by (metis map_snd_enumerate)
qed simp

lemma columns_structure_eq:
  "canonicalize (SeqV (map column_structure (enumerate n cs))) =
     canonicalize (SeqV (map column_structure (enumerate n ds))) \<longleftrightarrow>
   map (\<lambda>c. (column_name c, ordinal c, data_type c, nullable c)) cs =
     map (\<lambda>c. (column_name c, ordinal c, data_type c, nullable c)) ds"
proof -
  let ?f = "\<lambda>c. (column_name c, ordinal c, data_type c, nullable c)"
  let ?g = "\<lambda>p. (fst p, ?f (snd p))"
  have "canonicalize (SeqV (map column_structure (enumerate n cs))) =
      canonicalize (SeqV (map column_structure (enumerate n ds))) \<longleftrightarrow>
    image_mset ?g (mset (enumerate n cs)) = image_mset ?g (mset (enumerate n ds))"
    unfolding canonicalize_seq_eq mset_map image_mset.compositionality comp_def
    by (rule image_mset_eq_iff) (simp add: column_structure_eq)
  also have "\<dots> \<longleftrightarrow> map ?f cs = map ?f ds"
    by (simp only: mset_map [symmetric] map_enumerate [of ?f n cs] map_enumerate [of ?f n ds]
        mset_enumerate_eq)
  finally show ?thesis .
qed

lemma relation_structure_eq:
  "canonicalize (relation_structure r) = canonicalize (relation_structure s) \<longleftrightarrow>
     structure_content r = structure_content s"
proof -
  let ?ks = "[''schema'', ''name'', ''kind'', ''definition_hash'', ''security_invoker'',
    ''security_barrier'', ''columns'']"
  let ?vs = "\<lambda>r. [StrV (schema r), StrV (relation_name r), StrV (relation_kind r),
    opt_str (definition_hash r), BoolV (security_invoker r), BoolV (security_barrier r),
    SeqV (map column_structure (enumerate 1 (columns r)))]"
  have scalar: "canonicalize (opt_str c) = opt_str c" for c
    by (simp add: opt_str_def split: option.split)
  have "relation_structure r = MapV (zip ?ks (?vs r))" for r by (simp add: relation_structure_def)
  then have "canonicalize (relation_structure r) = canonicalize (relation_structure s) \<longleftrightarrow>
      map canonicalize (?vs r) = map canonicalize (?vs s)"
    by (simp only:) (rule canonicalize_record_eq; simp)
  then show ?thesis
    by (simp only: list.map list.inject scalar canonicalize.simps(4,6) pyval.inject opt_str_inj
        structure_content_def prod.inject columns_structure_eq simp_thms)
qed

text \<open>
  What a structure signature binds. As long as the digest does not collide on the two
  texts, two catalogs have the same signature exactly when they hold, in any order, views of
  the same names, kinds, definition hashes and security flags with the same columns in the
  same order. Comments are not part of the structure.
\<close>
theorem structure_signature_binds:
  assumes no_collision:
    "sha256_hex (json_dumps_sorted (canonicalize (structure_material c))) =
       sha256_hex (json_dumps_sorted (canonicalize (structure_material d))) \<Longrightarrow>
     json_dumps_sorted (canonicalize (structure_material c)) =
       json_dumps_sorted (canonicalize (structure_material d))"
  shows "create_view_structure_signature sha256_hex c = create_view_structure_signature sha256_hex d
    \<longleftrightarrow> image_mset structure_content (mset (relations c)) = image_mset structure_content (mset (relations d))"
proof -
  have "create_view_structure_signature sha256_hex c = create_view_structure_signature sha256_hex d
      \<longleftrightarrow> canonicalize (structure_material c) = canonicalize (structure_material d)"
    unfolding create_view_structure_signature_def canonical_digest_def
    using no_collision canonical_text_eq by auto
  also have "\<dots> \<longleftrightarrow> canonicalize (SeqV (map relation_structure (relations c))) =
      canonicalize (SeqV (map relation_structure (relations d)))"
    unfolding structure_material_def by simp
  also have "\<dots> \<longleftrightarrow> image_mset structure_content (mset (relations c)) =
      image_mset structure_content (mset (relations d))"
    unfolding canonicalize_seq_eq mset_map image_mset.compositionality comp_def
    by (rule image_mset_eq_iff) (rule relation_structure_eq)
  finally show ?thesis .
qed

section \<open>Concrete catalogs\<close>

definition example_budget :: budget_profile where
  "example_budget = \<lparr>budget_name = ''standard'', budget_version = 1,
     metadata_statement_timeout_ms = 3000, query_statement_timeout_ms = 5000,
     query_transaction_timeout_ms = 8000, query_queue_timeout_ms = 1000, lock_timeout_ms = 250,
     work_mem_kb = 8192, temp_file_limit_kb = 0, max_parallel_workers_per_gather = 0,
     jit_enabled = False, max_pool_size = 2, max_concurrent_queries = 2,
     max_metadata_relations = 100, max_metadata_columns = 1000, max_columns_per_relation = 200,
     max_context_columns_per_relation = 1, max_metadata_response_bytes = 100000,
     max_result_rows = 2, max_result_bytes = 1000, max_sql_bytes = 1000,
     max_plan_total_cost = 1000, max_plan_rows = 1000, max_plan_nodes = 10\<rparr>"

definition example_source :: source_profile where
  "example_source = \<lparr>source_id = ''shop'', source_name = ''Shop'', source_description = ''Orders'',
     connection = \<lparr>database_profile = ''main'', host = ''db'', port = 5432, database = ''shop'',
       user = ''reader'', sslmode = ''disable'', authentication = PasswordAuthentication ''pw''\<rparr>,
     allowed_schemas = [''api'', ''ext''], allowed_relation_kinds = [''view''],
     view_contract_version = 2, budget = example_budget,
     provenance = \<lparr>owner = ''team'', environment = ''test'', database_migration_ref = ''1''\<rparr>\<rparr>"

definition example_column :: "string \<Rightarrow> int \<Rightarrow> catalog_column" where
  "example_column n i = \<lparr>column_name = n, column_sql_name = CHR 0x22 # n @ [CHR 0x22], ordinal = i,
     data_type = ''text'', nullable = NullableUnknown, column_comment = None\<rparr>"

definition example_relation :: "string \<Rightarrow> catalog_relation" where
  "example_relation n = \<lparr>schema = ''api'', relation_name = n, qualified_name = ''api.'' @ n,
     relation_sql_name = n, relation_kind = ''view'',
     columns = [example_column ''id'' 1, example_column ''note'' 2],
     relation_comment = Some ''Rows'', definition_hash = Some ''d41d8'',
     view_contract_source = Some ''shop'', relation_contract_version = Some 2,
     security_invoker = True, security_barrier = False\<rparr>"

definition example_catalog :: catalog_snapshot where
  "example_catalog = \<lparr>relations = [example_relation ''orders'', example_relation ''items'']\<rparr>"

theorem metadata_revision_binds_witness:
  "create_metadata_revision (\<lambda>text0. text0) example_source example_catalog =
     create_metadata_revision (\<lambda>text0. text0)
       (example_source\<lparr>allowed_schemas := [''ext'', ''api'']\<rparr>)
       (example_catalog\<lparr>relations := rev (relations example_catalog)\<rparr>) \<and>
   create_metadata_revision (\<lambda>text0. text0) example_source example_catalog \<noteq>
     create_metadata_revision (\<lambda>text0. text0)
       (example_source\<lparr>budget := example_budget\<lparr>max_result_rows := 3\<rparr>\<rparr>) example_catalog"
  by (subst (1 2) metadata_revision_binds)
    (simp_all add: example_source_def example_catalog_def example_budget_def)

theorem structure_signature_binds_witness:
  "create_view_structure_signature (\<lambda>text0. text0) \<lparr>relations = [example_relation ''orders'']\<rparr> \<noteq>
     create_view_structure_signature (\<lambda>text0. text0)
       \<lparr>relations = [(example_relation ''orders'')
          \<lparr>columns := [example_column ''note'' 2, example_column ''id'' 1]\<rparr>]\<rparr>"
  by (subst structure_signature_binds)
    (simp_all add: example_relation_def example_column_def structure_content_def)

end
