(* ===== verification/ExecutorStateSpec.thy ===== *)
theory ExecutorStateSpec
  imports ExecutorState Revision
begin

text \<open>
  What the shared state of the executor guarantees in every interleaving of queries: a source
  never has more queries holding its semaphore than its budget allows, a permit is never lost,
  an active query is one that runs, and after the executor has stopped accepting every query
  in flight can finish and nothing is left behind.
\<close>

section \<open>The invariant\<close>

fun holds :: "string \<Rightarrow> phase \<Rightarrow> bool" where
  "holds sid (Holding s q) = (s = sid)"
| "holds sid (Pooled s q) = (s = sid)"
| "holds sid (Running s q) = (s = sid)"
| "holds sid (Returning s) = (s = sid)"
| "holds sid p = False"

fun phase_source :: "phase \<Rightarrow> string option" where
  "phase_source (Entered s q) = Some s"
| "phase_source (Queued s q) = Some s"
| "phase_source (Holding s q) = Some s"
| "phase_source (Pooled s q) = Some s"
| "phase_source (Running s q) = Some s"
| "phase_source (Returning s) = Some s"
| "phase_source Leaving = None"

definition holders :: "executor_state \<Rightarrow> string \<Rightarrow> nat set" where
  "holders st sid = {t. \<exists>p. task_phase st t = Some p \<and> holds sid p}"

definition registry_ok :: "registry \<Rightarrow> bool" where
  "registry_ok reg \<longleftrightarrow> (\<forall>sid source. registry_get reg sid = Some source \<longrightarrow>
     source_id source = sid \<and> 0 \<le> max_concurrent_queries (budget source))"

definition permit_ok :: "registry \<Rightarrow> executor_state \<Rightarrow> string \<Rightarrow> bool" where
  "permit_ok reg st sid \<longleftrightarrow>
     (case map_of (permits st) sid of
        None \<Rightarrow> \<forall>t p. task_phase st t = Some p \<longrightarrow> \<not> holds sid p \<and> (\<forall>q. p \<noteq> Queued sid q)
      | Some n \<Rightarrow> 0 \<le> n \<and> (\<exists>source. registry_get reg sid = Some source \<and>
          n + int (card (holders st sid)) = max_concurrent_queries (budget source)))"

definition permits_ok :: "registry \<Rightarrow> executor_state \<Rightarrow> bool" where
  "permits_ok reg st \<longleftrightarrow> (\<forall>sid. permit_ok reg st sid)"

lemma permit_ok_None: "map_of (permits st) sid = None \<Longrightarrow> permit_ok reg st sid \<longleftrightarrow>
     (\<forall>t p. task_phase st t = Some p \<longrightarrow> \<not> holds sid p \<and> (\<forall>q. p \<noteq> Queued sid q))"
  by (simp add: permit_ok_def)

lemma permit_ok_Some: "map_of (permits st) sid = Some n \<Longrightarrow> permit_ok reg st sid \<longleftrightarrow>
     0 \<le> n \<and> (\<exists>source. registry_get reg sid = Some source \<and>
          n + int (card (holders st sid)) = max_concurrent_queries (budget source))"
  by (simp add: permit_ok_def)

definition executor_inv :: "registry \<Rightarrow> executor_state \<Rightarrow> bool" where
  "executor_inv reg st \<longleftrightarrow>
     finite (in_flight st) \<and> dom (task_phase st) = in_flight st \<and>
     (\<forall>t p sid. task_phase st t = Some p \<and> phase_source p = Some sid \<longrightarrow> registry_get reg sid \<noteq> None) \<and>
     permits_ok reg st \<and>
     (\<forall>q a. map_of (active_queries st) q = Some a \<longrightarrow> (\<exists>sid. task_phase st (active_task a) = Some (Running sid q)))"

lemma holders_set_phase:
  "holders (set_phase t p st) sid = (if holds sid p then insert t (holders st sid) else holders st sid - {t})"
  by (auto simp: holders_def)

lemma holders_cong [simp]:
  "holders (admit t st) sid = holders st sid" "holders (ensure_semaphore source st) sid = holders st sid"
  "holders (semaphore_add sid' d st) sid = holders st sid" "holders (get_pool source st) sid = holders st sid"
  "holders (register_active q t st) sid = holders st sid" "holders (pop_active q st) sid = holders st sid"
  "holders (mark_shutdown st) sid = holders st sid" "holders (stop_accepting st) sid = holders st sid"
  "holders (close_pools st) sid = holders st sid"
  by (simp_all add: holders_def admit_def ensure_semaphore_def semaphore_add_def get_pool_def
      register_active_def pop_active_def mark_shutdown_def stop_accepting_def close_pools_def split: option.split)

lemma finite_holders: "executor_inv reg st \<Longrightarrow> finite (holders st sid)"
  by (rule finite_subset [of _ "in_flight st"]) (auto simp: executor_inv_def holders_def)

section \<open>Every step keeps it\<close>

definition active_ok :: "executor_state \<Rightarrow> bool" where
  "active_ok st \<longleftrightarrow> (\<forall>q a. map_of (active_queries st) q = Some a \<longrightarrow>
     (\<exists>sid. task_phase st (active_task a) = Some (Running sid q)))"

definition tasks_ok :: "registry \<Rightarrow> executor_state \<Rightarrow> bool" where
  "tasks_ok reg st \<longleftrightarrow> finite (in_flight st) \<and> dom (task_phase st) = in_flight st \<and>
     (\<forall>t p sid. task_phase st t = Some p \<and> phase_source p = Some sid \<longrightarrow> registry_get reg sid \<noteq> None)"

lemma executor_inv_parts: "executor_inv reg st \<longleftrightarrow> tasks_ok reg st \<and> permits_ok reg st \<and> active_ok st"
  by (auto simp: executor_inv_def tasks_ok_def active_ok_def)

named_theorems executor_ops \<open>the operations of the executor\<close>

lemmas executor_op_defs [executor_ops] = admit_def ensure_semaphore_def semaphore_add_def get_pool_def
  register_active_def pop_active_def discard_task_def stop_accepting_def mark_shutdown_def close_pools_def

lemma ops_frame [simp]:
  "task_phase (admit t st) = task_phase st" "task_phase (ensure_semaphore source st) = task_phase st"
  "task_phase (semaphore_add sid d st) = task_phase st" "task_phase (get_pool source st) = task_phase st"
  "task_phase (register_active q t st) = task_phase st" "task_phase (pop_active q st) = task_phase st"
  "task_phase (mark_shutdown st) = task_phase st" "task_phase (stop_accepting st) = task_phase st"
  "task_phase (close_pools st) = task_phase st"
  "in_flight (ensure_semaphore source st) = in_flight st" "in_flight (semaphore_add sid d st) = in_flight st"
  "in_flight (get_pool source st) = in_flight st" "in_flight (register_active q t st) = in_flight st"
  "in_flight (pop_active q st) = in_flight st" "in_flight (mark_shutdown st) = in_flight st"
  "in_flight (stop_accepting st) = in_flight st" "in_flight (close_pools st) = in_flight st"
  "in_flight (admit t st) = insert t (in_flight st)"
  "permits (admit t st) = permits st" "permits (get_pool source st) = permits st"
  "permits (register_active q t st) = permits st" "permits (pop_active q st) = permits st"
  "permits (mark_shutdown st) = permits st" "permits (stop_accepting st) = permits st"
  "permits (close_pools st) = permits st"
  "active_queries (admit t st) = active_queries st" "active_queries (ensure_semaphore source st) = active_queries st"
  "active_queries (semaphore_add sid d st) = active_queries st" "active_queries (get_pool source st) = active_queries st"
  "active_queries (stop_accepting st) = active_queries st" "active_queries (close_pools st) = active_queries st"
  by (simp_all add: executor_ops split: option.split)

lemma permits_ok_cong:
  assumes "permits st' = permits st" and "task_phase st' = task_phase st"
  shows "permits_ok reg st' = permits_ok reg st"
proof -
  have "holders st' sid = holders st sid" for sid using assms(2) by (simp add: holders_def)
  with assms show ?thesis by (simp add: permits_ok_def permit_ok_def split: option.split)
qed

lemma active_ok_cong:
  "active_queries st' = active_queries st \<Longrightarrow> task_phase st' = task_phase st \<Longrightarrow> active_ok st' = active_ok st"
  by (simp add: active_ok_def)

lemma permits_set_phase:
  assumes "permits_ok reg st"
    and "\<And>sid. holds sid p \<longleftrightarrow> (case task_phase st t of None \<Rightarrow> False | Some p0 \<Rightarrow> holds sid p0)"
    and "\<And>sid q. p = Queued sid q \<Longrightarrow> map_of (permits st) sid \<noteq> None"
  shows "permits_ok reg (set_phase t p st)"
proof -
  have same: "holders (set_phase t p st) sid = holders st sid" for sid
    unfolding holders_set_phase using assms(2) [of sid] by (auto simp: holders_def split: option.splits)
  show ?thesis
    unfolding permits_ok_def
  proof
    fix sid
    have ok: "permit_ok reg st sid" using assms(1) by (simp add: permits_ok_def)
    show "permit_ok reg (set_phase t p st) sid"
    proof (cases "map_of (permits st) sid")
      case None
      then have free: "\<forall>t' p'. task_phase st t' = Some p' \<longrightarrow> \<not> holds sid p' \<and> (\<forall>q. p' \<noteq> Queued sid q)"
        using ok permit_ok_None by blast
      then have "\<not> holds sid p" using assms(2) [of sid] by (auto split: option.splits)
      with free None assms(3) show ?thesis by (auto simp: permit_ok_None)
    next
      case (Some n)
      then show ?thesis using ok same by (simp add: permit_ok_Some)
    qed
  qed
qed

lemma active_set_phase:
  assumes "active_ok st" and "\<And>sid q. task_phase st t \<noteq> Some (Running sid q)"
  shows "active_ok (set_phase t p st)"
  using assms unfolding active_ok_def by fastforce

lemma tasks_set_phase:
  assumes "tasks_ok reg st" and "t \<in> in_flight st" and "\<And>sid. phase_source p = Some sid \<Longrightarrow> registry_get reg sid \<noteq> None"
  shows "tasks_ok reg (set_phase t p st)"
  using assms unfolding tasks_ok_def by (auto split: if_splits)

lemma permits_ensure:
  assumes "permits_ok reg st" and "registry_get reg (source_id source) = Some source"
    and "0 \<le> max_concurrent_queries (budget source)"
  shows "permits_ok reg (ensure_semaphore source st)"
proof (cases "map_of (permits st) (source_id source)")
  case None
  then have free: "\<forall>t p. task_phase st t = Some p \<longrightarrow> \<not> holds (source_id source) p"
    using assms(1) permit_ok_None unfolding permits_ok_def by blast
  then have none: "holders st (source_id source) = {}" by (auto simp: holders_def)
  show ?thesis
    unfolding permits_ok_def
  proof
    fix sid
    show "permit_ok reg (ensure_semaphore source st) sid"
    proof (cases "sid = source_id source")
      case True
      have "map_of (permits (ensure_semaphore source st)) sid = Some (max_concurrent_queries (budget source))"
        using True None by (simp add: ensure_semaphore_def dict_simps)
      then show ?thesis using assms(2,3) True none by (simp add: permit_ok_Some)
    next
      case False
      have "map_of (permits (ensure_semaphore source st)) sid = map_of (permits st) sid"
        using False by (simp add: ensure_semaphore_def dict_simps)
      moreover have "permit_ok reg st sid" using assms(1) by (simp add: permits_ok_def)
      ultimately show ?thesis
        by (cases "map_of (permits st) sid") (simp_all add: permit_ok_None permit_ok_Some)
    qed
  qed
qed (use assms(1) in \<open>simp add: ensure_semaphore_def\<close>)

text \<open>Taking a permit and giving it back: only the holders of that source change, by one.\<close>

lemma permits_semaphore:
  assumes "permits_ok reg st" and "map_of (permits st) sid = Some n" and "0 \<le> n + d"
    and "int (card (holders (set_phase t p st) sid)) = int (card (holders st sid)) - d"
    and "\<And>s. s \<noteq> sid \<Longrightarrow> \<not> holds s p \<and> t \<notin> holders st s" and "\<And>s q. p \<noteq> Queued s q"
  shows "permits_ok reg (set_phase t p (semaphore_add sid d st))"
  unfolding permits_ok_def
proof
  fix s
  have frame: "holders (set_phase t p (semaphore_add sid d st)) s = holders (set_phase t p st) s"
    by (simp add: holders_def)
  have ok: "permit_ok reg st s" using assms(1) by (simp add: permits_ok_def)
  show "permit_ok reg (set_phase t p (semaphore_add sid d st)) s"
  proof (cases "s = sid")
    case True
    have "map_of (permits (set_phase t p (semaphore_add sid d st))) sid = Some (n + d)"
      using assms(2) by (simp add: semaphore_add_def dict_simps)
    moreover obtain source where "registry_get reg sid = Some source"
      "n + int (card (holders st sid)) = max_concurrent_queries (budget source)"
      using ok assms(2) True by (auto simp: permit_ok_Some)
    ultimately show ?thesis using assms(3,4) frame True by (simp add: permit_ok_Some)
  next
    case False
    have same: "map_of (permits (set_phase t p (semaphore_add sid d st))) s = map_of (permits st) s"
      using False assms(2) by (simp add: semaphore_add_def dict_simps)
    have holders: "holders (set_phase t p (semaphore_add sid d st)) s = holders st s"
      using False assms(5) [OF False] unfolding frame holders_set_phase by auto
    show ?thesis
    proof (cases "map_of (permits st) s")
      case None
      with ok same assms(5) [OF False] assms(6) show ?thesis by (auto simp: permit_ok_None)
    next
      case (Some m)
      with ok same holders show ?thesis by (simp add: permit_ok_Some)
    qed
  qed
qed

lemma discard_keeps:
  assumes "executor_inv reg st" and "task_phase st t = Some Leaving"
  shows "executor_inv reg (discard_task t st)"
proof -
  have frame: "permits (discard_task t st) = permits st" "active_queries (discard_task t st) = active_queries st"
    "in_flight (discard_task t st) = in_flight st - {t}" "task_phase (discard_task t st) = (task_phase st)(t := None)"
    by (simp_all add: discard_task_def)
  have holders: "holders (discard_task t st) sid = holders st sid" for sid
    using assms(2) by (auto simp: holders_def frame)
  have "permit_ok reg (discard_task t st) sid" if "permit_ok reg st sid" for sid
  proof (cases "map_of (permits st) sid")
    case None
    with that show ?thesis by (auto simp: permit_ok_None frame)
  next
    case (Some n)
    with that show ?thesis by (simp add: permit_ok_Some frame holders)
  qed
  with assms(1) have "permits_ok reg (discard_task t st)" by (simp add: executor_inv_parts permits_ok_def)
  moreover have "tasks_ok reg (discard_task t st)"
    using assms(1) by (auto simp: executor_inv_parts tasks_ok_def frame)
  moreover have "active_ok (discard_task t st)"
    using assms unfolding executor_inv_parts active_ok_def frame by fastforce
  ultimately show ?thesis by (simp add: executor_inv_parts)
qed

lemma mark_shutdown_keeps: "executor_inv reg st \<Longrightarrow> executor_inv reg (mark_shutdown st)"
proof -
  assume inv: "executor_inv reg st"
  have "map_of (map (\<lambda>(q, a). (q, f a)) xs) q = map_option f (map_of xs q)" for f :: "active_query \<Rightarrow> active_query" and xs q
    by (induction xs) auto
  then have "map_of (active_queries (mark_shutdown st)) q =
      map_option (\<lambda>a. if reason a = NoReason then a\<lparr>reason := Shutdown\<rparr> else a) (map_of (active_queries st) q)" for q
    by (simp add: mark_shutdown_def)
  with inv have "active_ok (mark_shutdown st)"
    by (auto simp: executor_inv_parts active_ok_def)
  moreover have "permits_ok reg (mark_shutdown st) = permits_ok reg st" by (rule permits_ok_cong) simp_all
  ultimately show ?thesis using inv by (simp add: executor_inv_parts tasks_ok_def)
qed

lemma frame_keeps:
  assumes "executor_inv reg st" and "in_flight st' = in_flight st" and "task_phase st' = task_phase st"
    and "permits st' = permits st" and "active_queries st' = active_queries st"
  shows "executor_inv reg st'"
  using assms permits_ok_cong [of st' st reg] active_ok_cong [of st' st]
  by (simp add: executor_inv_parts tasks_ok_def)

lemma active_register:
  assumes "active_ok st" and "task_phase st t = Some (Pooled sid q)"
  shows "active_ok (set_phase t (Running sid q) (register_active q t st))"
  unfolding active_ok_def
proof (intro allI impI)
  fix q' a
  assume a: "map_of (active_queries (set_phase t (Running sid q) (register_active q t st))) q' = Some a"
  show "\<exists>s. task_phase (set_phase t (Running sid q) (register_active q t st)) (active_task a) = Some (Running s q')"
  proof (cases "q' = q")
    case True
    with a show ?thesis by (auto simp: register_active_def dict_simps)
  next
    case False
    with a have "map_of (active_queries st) q' = Some a" by (simp add: register_active_def dict_simps)
    with assms obtain s where "task_phase st (active_task a) = Some (Running s q')" by (auto simp: active_ok_def)
    with assms(2) show ?thesis by (auto intro!: exI [of _ s])
  qed
qed

lemma active_pop:
  assumes "active_ok st" and "task_phase st t = Some (Running sid q)"
  shows "active_ok (set_phase t (Returning sid) (pop_active q st))"
  unfolding active_ok_def
proof (intro allI impI)
  fix q' a
  assume "map_of (active_queries (set_phase t (Returning sid) (pop_active q st))) q' = Some a"
  then have "q' \<noteq> q" "map_of (active_queries st) q' = Some a"
    by (auto simp: pop_active_def dict_simps split: if_splits)
  moreover from this assms(1) obtain s where "task_phase st (active_task a) = Some (Running s q')"
    by (auto simp: active_ok_def)
  ultimately show "\<exists>s. task_phase (set_phase t (Returning sid) (pop_active q st)) (active_task a) = Some (Running s q')"
    using assms(2) by (auto intro!: exI [of _ s])
qed

lemma executor_step_keeps:
  assumes "executor_inv reg st" and "executor_step reg st e st'" and "registry_ok reg"
  shows "executor_inv reg st'"
proof -
  have tasks: "tasks_ok reg st" and permits: "permits_ok reg st" and active: "active_ok st"
    using assms(1) by (simp_all add: executor_inv_parts)
  have here: "t \<in> in_flight st" if "task_phase st t = Some p" for t p
    using that tasks by (auto simp: tasks_ok_def)
  have known: "registry_get reg sid \<noteq> None" if "task_phase st t = Some p" "phase_source p = Some sid" for t p sid
    using that tasks unfolding tasks_ok_def by blast
  have queued: "map_of (permits st) sid \<noteq> None" if "task_phase st t = Some p" "holds sid p \<or> p = Queued sid q" for t p sid q
    using that permits permit_ok_None unfolding permits_ok_def by blast
  have keep: "executor_inv reg (set_phase t p sx)"
    if "tasks_ok reg sx" "permits_ok reg sx" "active_ok sx" "task_phase sx t = Some old" "\<And>sid. holds sid p = holds sid old"
      "\<And>sid q. p = Queued sid q \<Longrightarrow> map_of (permits sx) sid \<noteq> None"
      "\<And>sid. phase_source p = Some sid \<Longrightarrow> phase_source old = Some sid" "\<And>sid q. old \<noteq> Running sid q" for t p old sx
  proof -
    have "t \<in> in_flight sx" using that(1,4) by (auto simp: tasks_ok_def)
    moreover have "registry_get reg sid \<noteq> None" if "phase_source p = Some sid" for sid
      using \<open>tasks_ok reg sx\<close> \<open>task_phase sx t = Some old\<close> \<open>\<And>sid. phase_source p = Some sid \<Longrightarrow> phase_source old = Some sid\<close> [OF that]
      unfolding tasks_ok_def by blast
    ultimately show ?thesis
      unfolding executor_inv_parts
      using that by (intro conjI tasks_set_phase permits_set_phase active_set_phase) auto
  qed
  from assms(2) show ?thesis
  proof cases
    case (admit t sid source q)
    have "tasks_ok reg (set_phase t (Entered sid q) (ExecutorState.admit t st))"
      using tasks admit by (auto simp: tasks_ok_def)
    moreover have "permits_ok reg (set_phase t (Entered sid q) (ExecutorState.admit t st))"
      using permits admit permits_ok_cong [of "ExecutorState.admit t st" st reg] by (intro permits_set_phase) auto
    moreover have "active_ok (set_phase t (Entered sid q) (ExecutorState.admit t st))"
      using active admit active_ok_cong [of "ExecutorState.admit t st" st] by (intro active_set_phase) auto
    ultimately show ?thesis using admit by (simp add: executor_inv_parts)
  next
    case (refuse t sid q)
    with assms(1) show ?thesis by simp
  next
    case (enqueue t sid q source)
    have id: "source_id source = sid" "0 \<le> max_concurrent_queries (budget source)"
      using assms(3) enqueue by (auto simp: registry_ok_def)
    show ?thesis unfolding enqueue
    proof (rule keep [where old = "Entered sid q"])
      show "permits_ok reg (ensure_semaphore source st)" using permits enqueue id by (intro permits_ensure) simp_all
      show "map_of (permits (ensure_semaphore source st)) s \<noteq> None" if "Queued sid q = Queued s q'" for s q'
        using that id by (auto simp: ensure_semaphore_def dict_simps)
      show "active_ok (ensure_semaphore source st)" using active active_ok_cong [of "ensure_semaphore source st" st] by simp
      show "tasks_ok reg (ensure_semaphore source st)" using tasks by (simp add: tasks_ok_def)
    qed (use enqueue in auto)
  next
    case (acquire t sid q n)
    have "permits_ok reg (set_phase t (Holding sid q) (semaphore_add sid (- 1) st))"
    proof (rule permits_semaphore [OF permits acquire(4)])
      have "t \<notin> holders st sid" using acquire by (auto simp: holders_def)
      then show "int (card (holders (set_phase t (Holding sid q) st) sid)) = int (card (holders st sid)) - (- 1)"
        using finite_holders [OF assms(1)] by (simp add: holders_set_phase)
    qed (use acquire in \<open>auto simp: holders_def\<close>)
    moreover have "active_ok (set_phase t (Holding sid q) (semaphore_add sid (- 1) st))"
      using active active_ok_cong [of "semaphore_add sid (- 1) st" st] acquire by (intro active_set_phase) auto
    moreover have "tasks_ok reg (set_phase t (Holding sid q) (semaphore_add sid (- 1) st))"
      using tasks here [OF acquire(3)] known [OF acquire(3)] by (intro tasks_set_phase) (auto simp: tasks_ok_def)
    ultimately show ?thesis unfolding acquire by (simp add: executor_inv_parts)
  next
    case (give_up t sid q)
    show ?thesis unfolding give_up
      by (rule keep [where old = "Queued sid q"]) (use tasks permits active give_up in auto)
  next
    case (take_pool t sid q source)
    show ?thesis unfolding take_pool
      by (rule keep [where old = "Holding sid q"])
        (use tasks permits active take_pool permits_ok_cong [of "get_pool source st" st reg]
          active_ok_cong [of "get_pool source st" st] in \<open>auto simp: tasks_ok_def\<close>)
  next
    case (run t sid q)
    have "active_ok (set_phase t (Running sid q) (register_active q t st))"
      using active run by (intro active_register) simp_all
    moreover have "permits_ok reg (set_phase t (Running sid q) (register_active q t st))"
      using permits run permits_ok_cong [of "register_active q t st" st reg] by (intro permits_set_phase) auto
    moreover have "tasks_ok reg (set_phase t (Running sid q) (register_active q t st))"
      using tasks here [OF run(3)] known [OF run(3)] by (intro tasks_set_phase) (auto simp: tasks_ok_def)
    ultimately show ?thesis unfolding run by (simp add: executor_inv_parts)
  next
    case (fail t sid q)
    then consider "task_phase st t = Some (Holding sid q)" | "task_phase st t = Some (Pooled sid q)" by blast
    then show ?thesis
    proof cases
      case 1
      show ?thesis unfolding fail
        by (rule keep [where old = "Holding sid q"]) (use tasks permits active 1 in auto)
    next
      case 2
      show ?thesis unfolding fail
        by (rule keep [where old = "Pooled sid q"]) (use tasks permits active 2 in auto)
    qed
  next
    case (finish t sid q)
    have "active_ok (set_phase t (Returning sid) (pop_active q st))"
      using active finish by (intro active_pop) simp_all
    moreover have "permits_ok reg (set_phase t (Returning sid) (pop_active q st))"
      using permits finish permits_ok_cong [of "pop_active q st" st reg] by (intro permits_set_phase) auto
    moreover have "tasks_ok reg (set_phase t (Returning sid) (pop_active q st))"
      using tasks here [OF finish(2)] known [OF finish(2)] by (intro tasks_set_phase) (auto simp: tasks_ok_def)
    ultimately show ?thesis unfolding finish by (simp add: executor_inv_parts)
  next
    case (release t sid)
    then obtain n where n: "map_of (permits st) sid = Some n" using queued [of t "Returning sid" sid] by auto
    have "permits_ok reg (set_phase t Leaving (semaphore_add sid 1 st))"
    proof (rule permits_semaphore [OF permits n])
      have "0 \<le> n" using permits n unfolding permits_ok_def by (metis permit_ok_Some)
      then show "0 \<le> n + 1" by simp
      have "t \<in> holders st sid" using release by (auto simp: holders_def)
      then show "int (card (holders (set_phase t Leaving st) sid)) = int (card (holders st sid)) - 1"
        using finite_holders [OF assms(1), of sid] card_Suc_Diff1 [of "holders st sid" t]
        unfolding holders_set_phase by simp
    qed (use release in \<open>auto simp: holders_def\<close>)
    moreover have "active_ok (set_phase t Leaving (semaphore_add sid 1 st))"
      using active active_ok_cong [of "semaphore_add sid 1 st" st] release by (intro active_set_phase) auto
    moreover have "tasks_ok reg (set_phase t Leaving (semaphore_add sid 1 st))"
      using tasks here [OF release(3)] by (intro tasks_set_phase) (auto simp: tasks_ok_def)
    ultimately show ?thesis unfolding release by (simp add: executor_inv_parts)
  next
    case (leave t)
    with assms(1) show ?thesis by (simp add: discard_keeps)
  next
    case stop
    show ?thesis unfolding stop by (rule frame_keeps [OF assms(1)]) simp_all
  next
    case (drain deadline now)
    have "executor_inv reg (stop_accepting st)" by (rule frame_keeps [OF assms(1)]) simp_all
    then show ?thesis unfolding drain by (simp add: drain_poll_def mark_shutdown_keeps)
  next
    case close
    have "executor_inv reg (stop_accepting st)" by (rule frame_keeps [OF assms(1)]) simp_all
    with assms(1) show ?thesis unfolding close by (simp add: close_begin_def drain_poll_def mark_shutdown_keeps)
  next
    case close_pools
    show ?thesis unfolding close_pools by (rule frame_keeps [OF assms(1)]) simp_all
  qed
qed

section \<open>The steps of the tasks end\<close>

fun own_step :: "executor_event \<Rightarrow> bool" where
  "own_step (Task t) = True"
| "own_step (Fail t) = True"
| "own_step e = False"

fun steps_left :: "phase \<Rightarrow> nat" where
  "steps_left (Entered s q) = 7"
| "steps_left (Queued s q) = 6"
| "steps_left (Holding s q) = 5"
| "steps_left (Pooled s q) = 4"
| "steps_left (Running s q) = 3"
| "steps_left (Returning s) = 2"
| "steps_left Leaving = 1"

definition task_left :: "executor_state \<Rightarrow> nat \<Rightarrow> nat" where
  "task_left st t = (case task_phase st t of None \<Rightarrow> 0 | Some p \<Rightarrow> steps_left p)"

definition executor_left :: "executor_state \<Rightarrow> nat" where
  "executor_left st = sum (task_left st) (in_flight st)"

lemma steps_left_range: "0 < steps_left p \<and> steps_left p \<le> 7"
  by (cases p) simp_all

lemma left_set_phase:
  assumes "finite (in_flight st)" and "t \<in> in_flight st" and "task_phase st t = Some old"
    and "steps_left p < steps_left old"
  shows "executor_left (set_phase t p st) < executor_left st"
proof -
  have "sum (task_left (set_phase t p st)) (in_flight st - {t}) = sum (task_left st) (in_flight st - {t})"
    by (rule sum.cong) (auto simp: task_left_def)
  then show ?thesis
    using assms sum.remove [OF assms(1,2), of "task_left st"] sum.remove [OF assms(1,2), of "task_left (set_phase t p st)"]
    by (simp add: executor_left_def task_left_def)
qed

lemma left_discard:
  assumes "finite (in_flight st)" and "t \<in> in_flight st" and "task_phase st t = Some p"
  shows "executor_left (discard_task t st) < executor_left st"
proof -
  have "sum (task_left (discard_task t st)) (in_flight st - {t}) = sum (task_left st) (in_flight st - {t})"
    by (rule sum.cong) (auto simp: task_left_def discard_task_def)
  then have "executor_left (discard_task t st) = sum (task_left st) (in_flight st - {t})"
    by (simp add: executor_left_def discard_task_def)
  moreover have "0 < task_left st t" using assms(3) steps_left_range by (simp add: task_left_def)
  ultimately show ?thesis using sum.remove [OF assms(1,2), of "task_left st"] by (simp add: executor_left_def)
qed

lemma left_frame: "in_flight st' = in_flight st \<Longrightarrow> task_phase st' = task_phase st \<Longrightarrow> executor_left st' = executor_left st"
proof -
  assume "in_flight st' = in_flight st" "task_phase st' = task_phase st"
  moreover from this have "task_left st' = task_left st" by (simp add: task_left_def fun_eq_iff)
  ultimately show ?thesis by (simp add: executor_left_def)
qed

lemma own_step_decreases:
  assumes "executor_inv reg st" and "own_step e" and "executor_step reg st e st'"
  shows "executor_left st' < executor_left st"
proof -
  have fin: "finite (in_flight st)" and dom: "dom (task_phase st) = in_flight st"
    using assms(1) by (simp_all add: executor_inv_def)
  have here: "t \<in> in_flight st" if "task_phase st t = Some p" for t p using that dom by auto
  have move: "executor_left (sx\<lparr>task_phase := (task_phase st)(t \<mapsto> p)\<rparr>) < executor_left st"
    if "task_phase st t = Some old" "in_flight sx = in_flight st" "steps_left p < steps_left old" for t p sx old
  proof -
    have "executor_left (sx\<lparr>task_phase := (task_phase st)(t \<mapsto> p)\<rparr>) = executor_left (set_phase t p st)"
      by (rule left_frame) (simp_all add: that(2))
    then show ?thesis using left_set_phase [OF fin here that(1,3)] that(1) by simp
  qed
  from assms(3) show ?thesis
  proof cases
    case (leave t)
    with left_discard [OF fin] here show ?thesis by simp
  qed (use assms(2) in \<open>auto intro: move\<close>)
qed

lemma own_step_enabled:
  assumes "executor_inv reg st" and "executor_left st > 0"
  shows "\<exists>e st'. own_step e \<and> executor_step reg st e st'"
proof -
  have "in_flight st \<noteq> {}" using assms(2) by (auto simp: executor_left_def)
  then obtain t where "t \<in> in_flight st" by blast
  then obtain p where p: "task_phase st t = Some p" using assms(1) unfolding executor_inv_def by blast
  have known: "\<exists>source. registry_get reg sid = Some source" if "phase_source p = Some sid" for sid
    using assms(1) p that unfolding executor_inv_def by blast
  have "\<exists>e st'. (e = Task t \<or> e = Fail t) \<and> executor_step reg st e st'"
  proof (cases p)
    case (Entered sid q)
    then obtain source where "registry_get reg sid = Some source" using known by auto
    with p Entered show ?thesis by (intro exI [of _ "Task t"]) (auto intro: executor_step.enqueue)
  next
    case (Queued sid q)
    with p show ?thesis by (intro exI [of _ "Fail t"]) (auto intro: executor_step.give_up)
  next
    case (Holding sid q)
    with p show ?thesis by (intro exI [of _ "Fail t"]) (auto intro: executor_step.fail)
  next
    case (Pooled sid q)
    with p show ?thesis by (intro exI [of _ "Fail t"]) (auto intro: executor_step.fail)
  next
    case (Running sid q)
    with p show ?thesis by (intro exI [of _ "Task t"]) (auto intro: executor_step.finish)
  next
    case (Returning sid)
    with p show ?thesis by (intro exI [of _ "Task t"]) (auto intro: executor_step.release)
  next
    case Leaving
    with p show ?thesis by (intro exI [of _ "Task t"]) (auto intro: executor_step.leave)
  qed
  then show ?thesis using own_step.simps(1,2) by metis
qed

interpretation executor: draining_relation "executor_step reg" "\<lambda>st. executor_inv reg st \<and> registry_ok reg"
  own_step executor_left
  for reg
  by unfold_locales (use executor_step_keeps own_step_decreases own_step_enabled in blast)+

lemma initial_executor_inv: "executor_inv reg initial_executor"
  by (simp add: executor_inv_def initial_executor_def permits_ok_def permit_ok_def)

lemma reachable_executor_inv:
  "executor_run reg initial_executor es st \<Longrightarrow> registry_ok reg \<Longrightarrow> executor_inv reg st"
  using executor.run_keeps [of reg initial_executor es st] initial_executor_inv by blast

lemma left_bounded: "finite (in_flight st) \<Longrightarrow> executor_left st \<le> 7 * card (in_flight st)"
proof -
  have "task_left st t \<le> 7" for t using steps_left_range by (simp add: task_left_def split: option.split)
  then have "executor_left st \<le> sum (\<lambda>t. 7) (in_flight st)" unfolding executor_left_def by (rule sum_mono)
  then show ?thesis by simp
qed

lemma left_zero: "executor_inv reg st \<Longrightarrow> executor_left st = 0 \<Longrightarrow> in_flight st = {}"
proof (rule ccontr)
  assume inv: "executor_inv reg st" and zero: "executor_left st = 0" and "in_flight st \<noteq> {}"
  then obtain t where t: "t \<in> in_flight st" by blast
  then obtain p where "task_phase st t = Some p" using inv unfolding executor_inv_def by blast
  then have "0 < task_left st t" using steps_left_range by (simp add: task_left_def)
  moreover have "task_left st t = 0" using zero t inv by (simp add: executor_left_def executor_inv_def)
  ultimately show False by simp
qed

lemma stopped_step:
  "executor_step reg st e st' \<Longrightarrow> \<not> admitting st \<Longrightarrow> \<not> admitting st' \<and> in_flight st' \<subseteq> in_flight st"
  by (induction rule: executor_step.induct)
    (auto simp: executor_ops drain_poll_def close_begin_def split: option.splits)

lemma stopped_run:
  "executor_run reg st es st' \<Longrightarrow> \<not> admitting st \<Longrightarrow> \<not> admitting st' \<and> in_flight st' \<subseteq> in_flight st"
  by (induction rule: run_of.induct) (use stopped_step in blast)+

section \<open>Properties\<close>

lemma concurrency_bounded:
  assumes "executor_run reg initial_executor es st" and "registry_ok reg" and "registry_get reg sid = Some source"
  shows "int (card (holders st sid)) \<le> max_concurrent_queries (budget source) \<and>
    (\<forall>n. map_of (permits st) sid = Some n \<longrightarrow>
       0 \<le> n \<and> n = max_concurrent_queries (budget source) - int (card (holders st sid))) \<and>
    (\<forall>q a. map_of (active_queries st) q = Some a \<longrightarrow>
       active_task a \<in> in_flight st \<and> (\<exists>s. task_phase st (active_task a) = Some (Running s q)))"
proof -
  have inv: "executor_inv reg st" using reachable_executor_inv [OF assms(1,2)] .
  then have ok: "permit_ok reg st sid" by (simp add: executor_inv_parts permits_ok_def)
  have counts: "0 \<le> n \<and> n = max_concurrent_queries (budget source) - int (card (holders st sid))"
    if "map_of (permits st) sid = Some n" for n
    using ok that assms(3) by (auto simp: permit_ok_Some)
  have "int (card (holders st sid)) \<le> max_concurrent_queries (budget source)"
  proof (cases "map_of (permits st) sid")
    case None
    then have "holders st sid = {}" using ok by (auto simp: permit_ok_None holders_def)
    then show ?thesis using assms(2,3) by (simp add: registry_ok_def)
  next
    case (Some n)
    then show ?thesis using counts [OF Some] by simp
  qed
  with counts inv show ?thesis unfolding executor_inv_def by blast
qed

text \<open>
  C12: the limit of a source. In every interleaving of admissions, queue timeouts, failures,
  cancellations and shutdowns, a source has at most as many queries between the acquisition and
  the release of its semaphore as its budget allows, the permits that are left make up the
  difference exactly, and every active query is that of a task running under its id.
\<close>
theorem source_concurrency_bounded:
  assumes "executor_run reg initial_executor es st" and "registry_ok reg" and "registry_get reg sid = Some source"
  shows "int (card (holders st sid)) \<le> max_concurrent_queries (budget source) \<and>
    (\<forall>n. map_of (permits st) sid = Some n \<longrightarrow>
       0 \<le> n \<and> n = max_concurrent_queries (budget source) - int (card (holders st sid))) \<and>
    (\<forall>q a. map_of (active_queries st) q = Some a \<longrightarrow>
       active_task a \<in> in_flight st \<and> (\<exists>s. task_phase st (active_task a) = Some (Running s q)))"
  using assms by (rule concurrency_bounded)


section \<open>A concrete run\<close>

definition example_sources :: registry where
  "example_sources = source_registry [example_source]"

lemma example_sources_get:
  "registry_get example_sources sid = (if sid = ''shop'' then Some example_source else None)"
  by (simp add: example_sources_def source_registry_def registry_get_def example_source_def)

lemma example_sources_ok: "registry_ok example_sources"
  by (simp add: registry_ok_def example_sources_get example_source_def example_budget_def)

text \<open>One query takes a permit, and the executor stops.\<close>

definition example_stopped :: executor_state where
  "example_stopped = \<lparr>admitting = False, in_flight = {1}, permits = [(''shop'', 1)], active_queries = [],
     pools = [], task_phase = (\<lambda>t. None)(1 \<mapsto> Holding ''shop'' ''q1'')\<rparr>"

lemma example_executor_run:
  "executor_run example_sources initial_executor
     [Admit 1 ''shop'' ''q1'', Task 1, Task 1, StopAccepting] example_stopped"
proof -
  let ?s1 = "set_phase 1 (Entered ''shop'' ''q1'') (admit 1 initial_executor)"
  let ?s2 = "set_phase 1 (Queued ''shop'' ''q1'') (ensure_semaphore example_source ?s1)"
  let ?s3 = "set_phase 1 (Holding ''shop'' ''q1'') (semaphore_add ''shop'' (- 1) ?s2)"
  have "executor_step example_sources initial_executor (Admit 1 ''shop'' ''q1'') ?s1"
    by (rule executor_step.admit [where source = example_source]) (simp_all add: initial_executor_def example_sources_get)
  moreover have "executor_step example_sources ?s1 (Task 1) ?s2"
    by (rule executor_step.enqueue [where source = example_source]) (simp_all add: example_sources_get)
  moreover have "executor_step example_sources ?s2 (Task 1) ?s3"
    by (rule executor_step.acquire [where n = 2])
      (simp_all add: ensure_semaphore_def admit_def initial_executor_def example_source_def example_budget_def)
  moreover have "stop_accepting ?s3 = example_stopped"
    by (simp add: executor_ops initial_executor_def example_stopped_def example_source_def example_budget_def)
  ultimately show ?thesis using executor_step.stop [of example_sources ?s3] by auto
qed

theorem source_concurrency_bounded_witness:
  "int (card (holders example_stopped ''shop'')) \<le> 2 \<and> 1 = 2 - int (card (holders example_stopped ''shop''))"
proof -
  have "registry_get example_sources ''shop'' = Some example_source" by (simp add: example_sources_get)
  from source_concurrency_bounded [OF example_executor_run example_sources_ok this]
  have "int (card (holders example_stopped ''shop'')) \<le> 2" and
    "map_of (permits example_stopped) ''shop'' = Some 1 \<longrightarrow> 1 = 2 - int (card (holders example_stopped ''shop''))"
    by (simp_all add: example_source_def example_budget_def)
  then show ?thesis by (simp add: example_stopped_def)
qed


section \<open>No task is forgotten\<close>

text \<open>
  A forced end leaves out no task: each task in flight is cancelled at once, or its active query
  is marked and its connection asked to cancel; and one that is not done after the wait is
  cancelled in any case.
\<close>
theorem cancel_inflight_complete:
  assumes "cancel_inflight st done = (at_once, asked, later, st')" and "t \<in> in_flight st"
  shows "(t \<in> at_once \<or> (\<exists>q a. q \<in> set asked \<and> (q, a) \<in> set (active_queries st') \<and> active_task a = t \<and> reason a \<noteq> NoReason)) \<and>
    (t \<in> done \<or> t \<in> later)"
proof (cases "t \<in> (active_task \<circ> snd) ` set (active_queries st)")
  case False
  then show ?thesis using assms by (auto simp: cancel_inflight_def tasks_to_cancel_def)
next
  case True
  then obtain q a where qa: "(q, a) \<in> set (active_queries st)" "active_task a = t" by auto
  let ?a = "if reason a = NoReason then a\<lparr>reason := Shutdown\<rparr> else a"
  have "(q, ?a) \<in> set (active_queries st')" "q \<in> set asked"
    using assms(1) qa(1) by (force simp: cancel_inflight_def mark_shutdown_def)+
  moreover have "active_task ?a = t" "reason ?a \<noteq> NoReason" using qa(2) by simp_all
  ultimately show ?thesis using assms by (auto simp: cancel_inflight_def)
qed

end
