(* ===== verification/Database.thy ===== *)
theory Database
  imports Complex_Main Errors SourceModels Operations ResultEncoding
begin

text \<open>
  What the program sees of PostgreSQL and psycopg, which are not part of the repository: the
  statements it sends on a connection, in order, and for each of them an answer or an
  exception. A database is a function from the statements sent before and the statement sent
  now to that outcome, so nothing is assumed of what the server answers or when it fails.
  A session is a computation that sends statements and may raise; its trace is the list of the
  statements sent, with the updates of the operational state at their place among them. \<open>src/query_man/metadata/catalog.py\<close> and
  \<open>src/query_man/guarded_query/query.py\<close> are written in it.
\<close>

section \<open>Exceptions\<close>

text \<open>
  The exceptions the handlers distinguish. In psycopg \<open>QueryCanceled\<close> and \<open>PoolTimeout\<close>
  are operational errors, operational errors are database errors, and interface errors are
  not. \<open>CancelledError\<close> is not an \<open>Exception\<close>, and no \<open>except Exception\<close> catches it.
\<close>

datatype db_error =
    QueryCanceled
  | OperationalError
  | InterfaceError
  | OtherDatabaseError

datatype exc =
    AppErr app_error
  | ReaderSessionPolicyError
  | CatalogValidationError string
  | DbErr db_error "string option"
  | PoolTimeout
  | TimeoutError
  | CancelledError
  | EncodingErr encode_error
  | OtherException string

fun is_exception :: "exc \<Rightarrow> bool" where
  "is_exception CancelledError = False"
| "is_exception e = True"

section \<open>Statements and answers\<close>

datatype statement =
    BEGIN_READ_ONLY
  | SET_TIMEZONE_UTC
  | SET_CATALOG_SESSION "string list"
  | SET_QUERY_SESSION "string list"
  | CHECK_SESSION_POLICY "pyval list"
  | CATALOG_ROWS "string list" "string list" int
  | FUNCTION_POLICY "string list"
  | OPERATOR_POLICY "string list"
  | EXPLAIN_JSON string
  | CURSOR_EXECUTE string
  | CURSOR_FETCH int
  | CURSOR_CLOSE
  | COMMIT
  | ROLLBACK
  | CANCEL
  | CLOSE_CONNECTION
  | OPERATION op_event

text \<open>A row of the catalog query, with the types its casts give it.\<close>

record catalog_row =
  row_schema :: string
  row_relation :: string
  row_kind :: string
  row_relation_comment :: "string option"
  row_definition_hash :: "string option"
  row_security_invoker :: bool
  row_security_barrier :: bool
  row_ordinal :: int
  row_column :: string
  row_data_type :: string
  row_type_kind :: string
  row_column_comment :: "string option"

text \<open>A float: the rational number it is, or none. The decoded JSON of a plan may hold floats.\<close>

datatype pyfloat = Float rat | PosInf | NegInf | NaN

datatype plan_json =
    PNone
  | PBool bool
  | PInt int
  | PFloat pyfloat
  | PStr string
  | PList "plan_json list"
  | PDict "(string \<times> plan_json) list"

text \<open>A column of a result: its name, when that is a string, and its type OID.\<close>

record result_column =
  result_name :: "string option"
  type_code :: pyval

datatype answer =
    Done
  | PolicyRow "(string \<times> pyval) list option"
  | CatalogAnswer "catalog_row list"
  | ObjectRows "(string \<times> pyval) list"
  | PlanRow "(string \<times> plan_json) list option"
  | Description "exc + result_column list"
  | Batch "(cell_key \<times> cell) list list"

record connection_info =
  server_version :: int
  server_encoding :: "string option"
  client_encoding :: "string option"
  python_encoding :: string
  ssl_in_use :: bool

record database =
  conn_info :: "exc + connection_info"
  reply :: "statement list \<Rightarrow> statement \<Rightarrow> exc + answer"

section \<open>Sessions\<close>

type_synonym 'a session = "statement list \<Rightarrow> (exc + 'a) \<times> statement list"

definition returnS :: "'a \<Rightarrow> 'a session" where
  "returnS x = (\<lambda>tr. (Inr x, tr))"

definition raiseS :: "exc \<Rightarrow> 'a session" where
  "raiseS e = (\<lambda>tr. (Inl e, tr))"

definition bindS :: "'a session \<Rightarrow> ('a \<Rightarrow> 'b session) \<Rightarrow> 'b session" where
  "bindS m f = (\<lambda>tr. case m tr of (Inl e, tr') \<Rightarrow> (Inl e, tr') | (Inr x, tr') \<Rightarrow> f x tr')"

definition liftS :: "exc + 'a \<Rightarrow> 'a session" where
  "liftS r = (\<lambda>tr. (r, tr))"

definition execute :: "database \<Rightarrow> statement \<Rightarrow> answer session" where
  "execute db st = (\<lambda>tr. (reply db tr st, tr @ [st]))"

definition emit :: "op_event \<Rightarrow> unit session" where
  "emit e = (\<lambda>tr. (Inr (), tr @ [OPERATION e]))"

text \<open>\<open>try: m except ...: h\<close>, where \<open>h\<close> re-raises what its clauses do not catch.\<close>

definition catchS :: "'a session \<Rightarrow> (exc \<Rightarrow> 'a session) \<Rightarrow> 'a session" where
  "catchS m h = (\<lambda>tr. case m tr of (Inl e, tr') \<Rightarrow> h e tr' | (Inr x, tr') \<Rightarrow> (Inr x, tr'))"

text \<open>\<open>try: m finally: f\<close>: an exception of \<open>f\<close> replaces the outcome of \<open>m\<close>.\<close>

definition finallyS :: "'a session \<Rightarrow> 'b session \<Rightarrow> 'a session" where
  "finallyS m f = (\<lambda>tr. case m tr of (r, tr') \<Rightarrow>
     (case f tr' of (Inl e, tr'') \<Rightarrow> (Inl e, tr'') | (Inr y, tr'') \<Rightarrow> (r, tr'')))"

text \<open>\<open>try: execute except Exception: pass\<close>.\<close>

definition quietly :: "database \<Rightarrow> statement \<Rightarrow> unit session" where
  "quietly db st =
     catchS (bindS (execute db st) (\<lambda>a. returnS ()))
       (\<lambda>e. if is_exception e then returnS () else raiseS e)"

text \<open>Reading an answer; one that is not of the kind its statement has cannot be read.\<close>

definition UNREADABLE :: exc where
  "UNREADABLE = OtherException ''unreadable answer''"

definition policy_of :: "answer \<Rightarrow> exc + (string \<times> pyval) list option" where
  "policy_of a = (case a of PolicyRow p \<Rightarrow> Inr p | _ \<Rightarrow> Inl UNREADABLE)"

definition catalog_of :: "answer \<Rightarrow> exc + catalog_row list" where
  "catalog_of a = (case a of CatalogAnswer rows \<Rightarrow> Inr rows | _ \<Rightarrow> Inl UNREADABLE)"

definition objects_of :: "answer \<Rightarrow> exc + (string \<times> pyval) list" where
  "objects_of a = (case a of ObjectRows rows \<Rightarrow> Inr rows | _ \<Rightarrow> Inl UNREADABLE)"

definition plan_of :: "answer \<Rightarrow> exc + (string \<times> plan_json) list option" where
  "plan_of a = (case a of PlanRow row \<Rightarrow> Inr row | _ \<Rightarrow> Inl UNREADABLE)"

definition description_of :: "answer \<Rightarrow> exc + (exc + result_column list)" where
  "description_of a = (case a of Description d \<Rightarrow> Inr d | _ \<Rightarrow> Inl UNREADABLE)"

definition batch_of :: "answer \<Rightarrow> exc + (cell_key \<times> cell) list list" where
  "batch_of a = (case a of Batch rows \<Rightarrow> Inr rows | _ \<Rightarrow> Inl UNREADABLE)"

definition query :: "database \<Rightarrow> statement \<Rightarrow> (answer \<Rightarrow> exc + 'a) \<Rightarrow> 'a session" where
  "query db st read = bindS (execute db st) (\<lambda>a. liftS (read a))"

section \<open>How sessions succeed and fail\<close>

lemma returnS_run [simp]: "returnS x tr = (Inr x, tr)"
  by (simp add: returnS_def)

lemma raiseS_run [simp]: "raiseS e tr = (Inl e, tr)"
  by (simp add: raiseS_def)

lemma liftS_run [simp]: "liftS r tr = (r, tr)"
  by (simp add: liftS_def)

lemma execute_run [simp]: "execute db st tr = (reply db tr st, tr @ [st])"
  by (simp add: execute_def)

lemma emit_run [simp]: "emit e tr = (Inr (), tr @ [OPERATION e])"
  by (simp add: emit_def)

lemma read_Inr [err_simps]:
  "policy_of a = Inr p \<longleftrightarrow> a = PolicyRow p" "catalog_of a = Inr rows \<longleftrightarrow> a = CatalogAnswer rows"
  "objects_of a = Inr objs \<longleftrightarrow> a = ObjectRows objs" "plan_of a = Inr row \<longleftrightarrow> a = PlanRow row"
  "description_of a = Inr d \<longleftrightarrow> a = Description d" "batch_of a = Inr b \<longleftrightarrow> a = Batch b"
  by (simp_all add: policy_of_def catalog_of_def objects_of_def plan_of_def description_of_def
      batch_of_def split: answer.split)

lemma query_trace [simp]: "snd (query db st read tr) = tr @ [st]"
  by (simp add: query_def bindS_def split: sum.splits)

lemma query_trace_eq: "query db st read tr = (r, t) \<Longrightarrow> t = tr @ [st]"
  by (metis query_trace snd_conv)

lemma query_Inr [err_simps]:
  "query db st read tr = (Inr x, t) \<longleftrightarrow>
     (\<exists>a. reply db tr st = Inr a \<and> read a = Inr x) \<and> t = tr @ [st]"
  by (auto simp: query_def bindS_def split: sum.splits)

lemma bindS_Inr [err_simps]:
  "bindS m f tr = (Inr y, t) \<longleftrightarrow> (\<exists>x tr'. m tr = (Inr x, tr') \<and> f x tr' = (Inr y, t))"
  by (auto simp: bindS_def split: prod.splits sum.splits)

lemma bindS_Inl [err_simps]:
  "bindS m f tr = (Inl e, t) \<longleftrightarrow>
     m tr = (Inl e, t) \<or> (\<exists>x tr'. m tr = (Inr x, tr') \<and> f x tr' = (Inl e, t))"
  by (auto simp: bindS_def split: prod.splits sum.splits)

lemma catchS_Inr [err_simps]:
  "catchS m h tr = (Inr y, t) \<longleftrightarrow>
     m tr = (Inr y, t) \<or> (\<exists>e tr'. m tr = (Inl e, tr') \<and> h e tr' = (Inr y, t))"
  by (auto simp: catchS_def split: prod.splits sum.splits)

lemma catchS_Inl [err_simps]:
  "catchS m h tr = (Inl e, t) \<longleftrightarrow> (\<exists>e' tr'. m tr = (Inl e', tr') \<and> h e' tr' = (Inl e, t))"
  by (auto simp: catchS_def split: prod.splits sum.splits)

lemma finallyS_Inr [err_simps]:
  "finallyS m f tr = (Inr y, t) \<longleftrightarrow> (\<exists>tr' z. m tr = (Inr y, tr') \<and> f tr' = (Inr z, t))"
  by (auto simp: finallyS_def split: prod.splits sum.splits)

lemma finallyS_Inl [err_simps]:
  "finallyS m f tr = (Inl e, t) \<longleftrightarrow>
     (\<exists>r tr'. m tr = (r, tr') \<and> (f tr' = (Inl e, t) \<or> (r = Inl e \<and> (\<exists>z. f tr' = (Inr z, t)))))"
  by (auto simp: finallyS_def split: prod.splits sum.splits)

lemma quietly_trace [simp]: "snd (quietly db st tr) = tr @ [st]"
  by (simp add: quietly_def catchS_def bindS_def split: sum.splits)

lemma quietly_Inl: "quietly db st tr = (Inl e, t) \<Longrightarrow> e = CancelledError"
  by (cases "reply db tr st") (auto simp: quietly_def catchS_def bindS_def split: if_splits
      elim: is_exception.elims)

lemma quietly_trace_eq: "quietly db st tr = (r, t) \<Longrightarrow> t = tr @ [st]"
  by (metis quietly_trace snd_conv)

lemma quietly_run: "quietly db st tr = (fst (quietly db st tr), tr @ [st])"
  by (metis quietly_trace prod.collapse)

section \<open>Which statements a session sends\<close>

text \<open>A session only adds statements to the trace, here statements that satisfy \<open>P\<close>.\<close>

definition sends :: "(statement \<Rightarrow> bool) \<Rightarrow> 'a session \<Rightarrow> bool" where
  "sends P m \<longleftrightarrow> (\<forall>tr. \<exists>sts. snd (m tr) = tr @ sts \<and> list_all P sts)"

named_theorems sends_intros \<open>which statements sessions send\<close>

lemma sends_basic [sends_intros]:
  "sends P (returnS x)" "sends P (raiseS e)" "sends P (liftS r)"
  "P st \<Longrightarrow> sends P (execute db st)" "P st \<Longrightarrow> sends P (quietly db st)"
  "P st \<Longrightarrow> sends P (query db st read)" "P (OPERATION ev) \<Longrightarrow> sends P (emit ev)"
  by (simp_all add: sends_def)

lemma sendsE:
  assumes "sends P m" and "m tr = (r, t)"
  obtains sts where "t = tr @ sts" and "list_all P sts"
  using assms unfolding sends_def by (metis snd_conv)

lemma sendsI:
  "(\<And>tr r t. m tr = (r, t) \<Longrightarrow> \<exists>sts. t = tr @ sts \<and> list_all P sts) \<Longrightarrow> sends P m"
  unfolding sends_def by (metis prod.collapse)

lemma sends_bindS [sends_intros]:
  assumes "sends P m" and "\<And>x. sends P (f x)"
  shows "sends P (bindS m f)"
proof (rule sendsI)
  fix tr r t assume run: "bindS m f tr = (r, t)"
  obtain r1 tr' where m: "m tr = (r1, tr')" by fastforce
  with assms(1) obtain s1 where s1: "tr' = tr @ s1" "list_all P s1" by (rule sendsE)
  show "\<exists>sts. t = tr @ sts \<and> list_all P sts"
  proof (cases r1)
    case (Inr x)
    with run m have "f x tr' = (r, t)" by (simp add: bindS_def)
    with assms(2) obtain s2 where "t = tr' @ s2" "list_all P s2" by (rule sendsE)
    with s1 show ?thesis by auto
  qed (use run m s1 in \<open>auto simp: bindS_def\<close>)
qed

lemma sends_catchS [sends_intros]:
  assumes "sends P m" and "\<And>e. sends P (h e)"
  shows "sends P (catchS m h)"
proof (rule sendsI)
  fix tr r t assume run: "catchS m h tr = (r, t)"
  obtain r1 tr' where m: "m tr = (r1, tr')" by fastforce
  with assms(1) obtain s1 where s1: "tr' = tr @ s1" "list_all P s1" by (rule sendsE)
  show "\<exists>sts. t = tr @ sts \<and> list_all P sts"
  proof (cases r1)
    case (Inl e)
    with run m have "h e tr' = (r, t)" by (simp add: catchS_def)
    with assms(2) obtain s2 where "t = tr' @ s2" "list_all P s2" by (rule sendsE)
    with s1 show ?thesis by auto
  qed (use run m s1 in \<open>auto simp: catchS_def\<close>)
qed

lemma sends_finallyS [sends_intros]:
  assumes "sends P m" and "sends P f"
  shows "sends P (finallyS m f)"
proof (rule sendsI)
  fix tr r t assume run: "finallyS m f tr = (r, t)"
  obtain r1 tr' where m: "m tr = (r1, tr')" by fastforce
  with assms(1) obtain s1 where s1: "tr' = tr @ s1" "list_all P s1" by (rule sendsE)
  obtain r2 t2 where f: "f tr' = (r2, t2)" by fastforce
  with assms(2) obtain s2 where s2: "t2 = tr' @ s2" "list_all P s2" by (rule sendsE)
  have "t = t2" using run m f by (cases r2) (simp_all add: finallyS_def)
  with s1 s2 show "\<exists>sts. t = tr @ sts \<and> list_all P sts" by auto
qed

text \<open>A statement that was sent, but not by the first part, was sent after that part succeeded.\<close>

lemma bindS_reach:
  assumes "x \<in> set (snd (bindS m f tr))" and "x \<notin> set tr" and "sends (\<lambda>st. st \<noteq> x) m"
  obtains y tr' where "m tr = (Inr y, tr')" and "x \<notin> set tr'" and "x \<in> set (snd (f y tr'))"
proof -
  obtain r tr' where m: "m tr = (r, tr')" by fastforce
  with assms(3) obtain sts where "tr' = tr @ sts" "list_all (\<lambda>st. st \<noteq> x) sts" by (rule sendsE)
  then have fresh: "x \<notin> set tr'" using assms(2) by (auto simp: list_all_iff)
  obtain y where "r = Inr y" using m fresh assms(1) by (cases r) (simp_all add: bindS_def)
  with that m fresh assms(1) show thesis by (simp add: bindS_def)
qed

text \<open>A handler that does not send the statement is not where it was sent.\<close>

lemma catchS_reach:
  assumes "x \<in> set (snd (catchS m h tr))" and "\<And>e. sends (\<lambda>st. st \<noteq> x) (h e)"
  shows "x \<in> set (snd (m tr))"
proof (cases "m tr")
  case (Pair r tr')
  show ?thesis
  proof (cases r)
    case (Inl e)
    obtain r2 t2 where h: "h e tr' = (r2, t2)" by fastforce
    with assms(2) obtain sts where "t2 = tr' @ sts" "list_all (\<lambda>st. st \<noteq> x) sts" by (rule sendsE)
    with assms(1) Pair Inl h show ?thesis by (auto simp: catchS_def list_all_iff)
  qed (use assms(1) Pair in \<open>simp add: catchS_def\<close>)
qed

lemma finallyS_reach:
  assumes "x \<in> set (snd (finallyS m f tr))" and "sends (\<lambda>st. st \<noteq> x) f"
  shows "x \<in> set (snd (m tr))"
proof -
  obtain r tr' where m: "m tr = (r, tr')" by fastforce
  obtain r2 t2 where f: "f tr' = (r2, t2)" by fastforce
  with assms(2) obtain sts where "t2 = tr' @ sts" "list_all (\<lambda>st. st \<noteq> x) sts" by (rule sendsE)
  with assms(1) m f show ?thesis by (cases r2) (auto simp: finallyS_def list_all_iff)
qed

lemma bindS_reach_first:
  assumes "x \<in> set (snd (bindS m f tr))" and "\<And>y. sends (\<lambda>st. st \<noteq> x) (f y)"
  shows "x \<in> set (snd (m tr))"
proof (cases "m tr")
  case (Pair r tr')
  show ?thesis
  proof (cases r)
    case (Inr y)
    obtain r2 t2 where f: "f y tr' = (r2, t2)" by fastforce
    with assms(2) obtain sts where "t2 = tr' @ sts" "list_all (\<lambda>st. st \<noteq> x) sts" by (rule sendsE)
    with assms(1) Pair Inr f show ?thesis by (auto simp: bindS_def list_all_iff)
  qed (use assms(1) Pair in \<open>simp add: bindS_def\<close>)
qed

lemma quietly_Inr [err_simps]:
  "quietly db st tr = (Inr u, t) \<longleftrightarrow> reply db tr st \<noteq> Inl CancelledError \<and> t = tr @ [st]"
  by (cases "reply db tr st") (auto simp: quietly_def catchS_def bindS_def elim: is_exception.elims)

end
