(* ===== verification/ReaderPolicy.thy ===== *)
theory ReaderPolicy
  imports Database
begin

text \<open>
  \<open>src/query_man/source_catalog/reader_policy.py\<close>: the parameters of a reader connection and
  the two gates every connection passes before a statement of a user or of the catalog runs on
  it, the policy of the connection and that of the session. What the query of the session
  policy returns is the database's answer.
\<close>

section \<open>Parameters of a connection\<close>

definition dict_update :: "('k, 'v) dict \<Rightarrow> ('k, 'v) dict \<Rightarrow> ('k, 'v) dict" where
  "dict_update d extra = foldl (\<lambda>d (k, v). AList.update k v d) d extra"

definition reader_connection_kwargs :: "source_profile \<Rightarrow> string \<Rightarrow> (string, pyval) dict" where
  "reader_connection_kwargs source application_name =
     (let c = connection source;
          parameters =
            [(''host'', StrV (host c)), (''port'', IntV (port c)), (''dbname'', StrV (database c)),
             (''user'', StrV (user c)), (''sslmode'', StrV (sslmode c)),
             (''gssencmode'', StrV ''disable''), (''application_name'', StrV application_name),
             (''connect_timeout'', IntV 2), (''client_encoding'', StrV READER_CLIENT_ENCODING)]
      in case authentication c of
           PasswordAuthentication pw \<Rightarrow> AList.update ''password'' (StrV pw) parameters
         | ClientCertificateAuthentication ca cert key \<Rightarrow>
             dict_update parameters
               [(''sslrootcert'', StrV ca), (''sslcert'', StrV cert), (''sslkey'', StrV key)])"

section \<open>Policy of a connection\<close>

definition require_reader_connection_policy :: "database \<Rightarrow> string \<Rightarrow> exc + unit" where
  "require_reader_connection_policy db mode =
     bindE (conn_info db) (\<lambda>info.
     bindE (raise_if
       (\<not> (180000 \<le> server_version info \<and> server_version info < 190000)
        \<or> server_encoding info \<noteq> Some READER_CLIENT_ENCODING
        \<or> client_encoding info \<noteq> Some READER_CLIENT_ENCODING
        \<or> python_encoding info \<noteq> ''utf-8'') ReaderSessionPolicyError) (\<lambda>u.
     raise_if
       (mode \<notin> {''disable'', ''require'', ''verify-full''}
        \<or> ssl_in_use info \<noteq> (mode \<noteq> ''disable'')) ReaderSessionPolicyError))"

section \<open>Policy of a session\<close>

definition reader_session_budget_values :: "source_profile \<Rightarrow> string list" where
  "reader_session_budget_values source =
     [int_str (work_mem_kb (budget source)) @ ''kB'',
      int_str (temp_file_limit_kb (budget source)) @ ''kB'',
      int_str (max_parallel_workers_per_gather (budget source)),
      if jit_enabled (budget source) then ''on'' else ''off'']"

definition session_policy_arguments :: "source_profile \<Rightarrow> string \<Rightarrow> pyval list" where
  "session_policy_arguments source trusted_tenant =
     [StrV (database (connection source)), StrV (user (connection source)),
      SeqV (map StrV (allowed_schemas source)),
      IntV (work_mem_kb (budget source)), IntV (temp_file_limit_kb (budget source)),
      IntV (max_parallel_workers_per_gather (budget source)), BoolV (jit_enabled (budget source)),
      StrV trusted_tenant,
      BoolV (case authentication (connection source) of
               ClientCertificateAuthentication r c k \<Rightarrow> True | PasswordAuthentication p \<Rightarrow> False)]"

definition policy_holds :: "(string \<times> pyval) list option \<Rightarrow> bool" where
  "policy_holds policy \<longleftrightarrow>
     (case policy of None \<Rightarrow> False
      | Some checks \<Rightarrow> checks \<noteq> [] \<and> list_all (\<lambda>(k, v). truthy v) checks)"

definition require_reader_session_policy ::
  "database \<Rightarrow> source_profile \<Rightarrow> string \<Rightarrow> unit session" where
  "require_reader_session_policy db source trusted_tenant =
     bindS (query db (CHECK_SESSION_POLICY (session_policy_arguments source trusted_tenant)) policy_of)
       (\<lambda>policy. liftS (raise_if (\<not> policy_holds policy) ReaderSessionPolicyError))"

section \<open>When the gates open\<close>

lemma connection_policy_Inr [err_simps]:
  "require_reader_connection_policy db mode = Inr u \<longleftrightarrow>
     (\<exists>info. conn_info db = Inr info \<and> server_version info \<in> {180000..<190000} \<and>
        server_encoding info = Some ''UTF8'' \<and> client_encoding info = Some ''UTF8'' \<and>
        python_encoding info = ''utf-8'' \<and>
        (mode = ''disable'' \<and> \<not> ssl_in_use info \<or>
         mode \<in> {''require'', ''verify-full''} \<and> ssl_in_use info))"
  by (auto simp: require_reader_connection_policy_def READER_CLIENT_ENCODING_def err_simps)

lemma session_policy_Inr [err_simps]:
  "require_reader_session_policy db source tenant tr = (Inr u, t) \<longleftrightarrow>
     (\<exists>checks. reply db tr (CHECK_SESSION_POLICY (session_policy_arguments source tenant))
           = Inr (PolicyRow (Some checks)) \<and>
        checks \<noteq> [] \<and> list_all (\<lambda>(k, v). truthy v) checks) \<and>
     t = tr @ [CHECK_SESSION_POLICY (session_policy_arguments source tenant)]"
  by (auto simp: require_reader_session_policy_def policy_holds_def err_simps
      split: option.splits)

lemma session_policy_trace [simp]:
  "snd (require_reader_session_policy db source tenant tr)
     = tr @ [CHECK_SESSION_POLICY (session_policy_arguments source tenant)]"
  by (auto simp: require_reader_session_policy_def bindS_def dest: query_trace_eq
      split: sum.splits prod.splits)

lemma sends_session_policy [sends_intros]:
  "(\<And>args. P (CHECK_SESSION_POLICY args)) \<Longrightarrow> sends P (require_reader_session_policy db source tenant)"
  unfolding sends_def session_policy_trace by simp

lemma map_of_dict_update:
  "map_of (dict_update d extra) k = (case map_of (rev extra) k of None \<Rightarrow> map_of d k | Some v \<Rightarrow> Some v)"
  by (induction extra arbitrary: d)
    (auto simp: dict_update_def dict_simps map_add_def split: option.splits)

section \<open>A concrete connection\<close>

definition example_info :: connection_info where
  "example_info = \<lparr>server_version = 180002, server_encoding = Some ''UTF8'',
     client_encoding = Some ''UTF8'', python_encoding = ''utf-8'', ssl_in_use = False\<rparr>"

section \<open>Properties\<close>

text \<open>
  The parameters of a reader connection. Whatever the source, a parameter of that name is
  given exactly once; encryption follows the source's mode, GSS encryption is off, the
  encoding is UTF-8, and the secret given is the password or the client certificate of the
  source's authentication, never both.
\<close>
theorem reader_connection_parameters:
  fixes source app
  defines "kwargs \<equiv> reader_connection_kwargs source app"
  shows "distinct (map fst kwargs) \<and>
    map_of kwargs ''sslmode'' = Some (StrV (sslmode (connection source))) \<and>
    map_of kwargs ''gssencmode'' = Some (StrV ''disable'') \<and>
    map_of kwargs ''client_encoding'' = Some (StrV ''UTF8'') \<and>
    (case authentication (connection source) of
       PasswordAuthentication pw \<Rightarrow> map_of kwargs ''password'' = Some (StrV pw) \<and>
         map_of kwargs ''sslcert'' = None \<and> map_of kwargs ''sslkey'' = None
     | ClientCertificateAuthentication ca cert key \<Rightarrow> map_of kwargs ''password'' = None \<and>
         map_of kwargs ''sslrootcert'' = Some (StrV ca) \<and>
         map_of kwargs ''sslcert'' = Some (StrV cert) \<and> map_of kwargs ''sslkey'' = Some (StrV key))"
  unfolding kwargs_def reader_connection_kwargs_def Let_def READER_CLIENT_ENCODING_def
  by (cases "authentication (connection source)") (simp_all add: dict_update_def)

end
