(* ===== verification/QueryPlan.thy ===== *)
theory QueryPlan
  imports Database
begin

text \<open>
  The admission of a plan in \<open>src/query_man/guarded_query/query.py\<close>: the plan is taken out of the
  answer of \<open>EXPLAIN (FORMAT JSON)\<close>, summarised by a loop over a stack of pending nodes, and
  compared with the limits of the budget; and the table of the server's error codes that are
  reported to the caller as errors of the query. The summary is proved equal to a recursion
  over the plan tree.
\<close>

section \<open>Numbers\<close>

fun bit_length :: "nat \<Rightarrow> nat" where
  "bit_length n = (if n = 0 then 0 else Suc (bit_length (n div 2)))"

declare bit_length.simps [simp del]

text \<open>
  \<open>float(n)\<close> of an integer: exact up to 53 significant bits, otherwise rounded to the nearest
  such number, ties to even; \<open>OverflowError\<close> from \<open>2 ^ 1024\<close> on.
\<close>

definition round_to_53 :: "nat \<Rightarrow> nat" where
  "round_to_53 n =
     (let e = bit_length n - 53; q = n div 2 ^ e; r = n mod 2 ^ e; half = 2 ^ e div 2 in
      if e = 0 then n
      else (if r > half \<or> (r = half \<and> odd q) then q + 1 else q) * 2 ^ e)"

definition float_of_int :: "int \<Rightarrow> exc + rat" where
  "float_of_int i =
     (let m = round_to_53 (nat \<bar>i\<bar>) in
      if m \<ge> 2 ^ 1024 then Inl (OtherException ''OverflowError'')
      else Inr (if i < 0 then - of_nat m else of_nat m))"

type_synonym plan_node = "(string \<times> plan_json) list"

definition INVALID_ESTIMATE :: exc where
  "INVALID_ESTIMATE = OtherException ''EXPLAIN returned an invalid numeric estimate''"

definition non_negative_number :: "plan_node \<Rightarrow> string \<Rightarrow> exc + rat" where
  "non_negative_number node key =
     (case map_of node key of
        Some (PInt i) \<Rightarrow>
          bindE (float_of_int i) (\<lambda>number. if number < 0 then Inl INVALID_ESTIMATE else Inr number)
      | Some (PFloat (Float number)) \<Rightarrow> if number < 0 then Inl INVALID_ESTIMATE else Inr number
      | _ \<Rightarrow> Inl INVALID_ESTIMATE)"

section \<open>The plan\<close>

definition extract_plan :: "plan_node option \<Rightarrow> exc + plan_node" where
  "extract_plan row =
     (case row of
        Some ((key, payload) # rest) \<Rightarrow>
          (case payload of
             PList (PDict first # others) \<Rightarrow>
               (case map_of first ''Plan'' of
                  Some (PDict plan) \<Rightarrow> Inr plan
                | _ \<Rightarrow> Inl (OtherException ''EXPLAIN returned an invalid root plan''))
           | _ \<Rightarrow> Inl (OtherException ''EXPLAIN returned an invalid plan''))
      | _ \<Rightarrow> Inl (OtherException ''EXPLAIN returned no plan''))"

fun dict_of :: "plan_json \<Rightarrow> plan_node option" where
  "dict_of (PDict d) = Some d"
| "dict_of v = None"

definition plan_children :: "plan_node \<Rightarrow> exc + plan_node list" where
  "plan_children node =
     (case map_of node ''Plans'' of
        None \<Rightarrow> Inr []
      | Some (PList cs) \<Rightarrow>
          (case those (map dict_of cs) of
             None \<Rightarrow> Inl (OtherException ''EXPLAIN returned invalid child plans'')
           | Some children \<Rightarrow> Inr children)
      | Some v \<Rightarrow> Inl (OtherException ''EXPLAIN returned invalid child plans''))"

record plan_summary =
  total_cost :: rat
  max_rows :: int
  node_count :: int

text \<open>The children of a node are smaller than the node.\<close>

fun weight :: "plan_json \<Rightarrow> nat" and weights :: "plan_json list \<Rightarrow> nat"
  and node_weight :: "(string \<times> plan_json) list \<Rightarrow> nat" where
  "weight (PList vs) = weights vs"
| "weight (PDict d) = Suc (node_weight d)"
| "weight v = 0"
| "weights [] = 0"
| "weights (v # vs) = weight v + weights vs"
| "node_weight [] = 0"
| "node_weight ((k, v) # d) = weight v + node_weight d"

lemma node_weight_lookup: "map_of d k = Some v \<Longrightarrow> weight v \<le> node_weight d"
  by (induction d) (auto split: if_splits)

lemma weights_dicts:
  "those (map dict_of cs) = Some ds \<Longrightarrow> weights cs = sum_list (map (\<lambda>d. Suc (node_weight d)) ds)"
proof (induction cs arbitrary: ds)
  case (Cons c cs)
  then show ?case by (cases c) (auto split: option.splits)
qed simp

lemma plan_children_weight:
  "plan_children node = Inr children \<Longrightarrow> sum_list (map (\<lambda>d. Suc (node_weight d)) children) \<le> node_weight node"
  using node_weight_lookup [of node "''Plans''"]
  by (auto simp: plan_children_def split: option.splits plan_json.splits dest!: weights_dicts)

text \<open>
  The loop. The stack is kept with its top first: the source pops from the end of a list and
  extends it with the children, so the children come in reverse order here.
\<close>

function plan_loop :: "plan_node list \<Rightarrow> int \<Rightarrow> int \<Rightarrow> exc + (int \<times> int)" where
  "plan_loop [] count rows_max = Inr (count, rows_max)"
| "plan_loop (node # pending) count rows_max =
     (case non_negative_number node ''Plan Rows'' of
        Inl e \<Rightarrow> Inl e
      | Inr rows \<Rightarrow>
          (case plan_children node of
             Inl e \<Rightarrow> Inl e
           | Inr children \<Rightarrow> plan_loop (rev children @ pending) (count + 1) (max rows_max \<lfloor>rows\<rfloor>)))"
  by pat_completeness auto
termination
  by (relation "measure (\<lambda>(pending, c, m). sum_list (map (\<lambda>d. Suc (node_weight d)) pending))")
    (auto simp: rev_map [symmetric] dest!: plan_children_weight)

definition summarize_plan :: "plan_node \<Rightarrow> exc + plan_summary" where
  "summarize_plan top_node =
     bindE (plan_loop [top_node] 0 0) (\<lambda>(count, rows_max).
     bindE (non_negative_number top_node ''Total Cost'') (\<lambda>cost.
     Inr \<lparr>total_cost = cost, max_rows = rows_max, node_count = count\<rparr>))"

section \<open>Admission\<close>

definition query_rejected :: "string \<Rightarrow> exc" where
  "query_rejected reason = AppErr (QueryRejectedError reason None)"

definition admit_plan :: "source_profile \<Rightarrow> plan_summary \<Rightarrow> exc + unit" where
  "admit_plan source plan =
     bindE (raise_if (total_cost plan > of_int (max_plan_total_cost (budget source)))
              (query_rejected ''QUERY_PLAN_COST_EXCEEDED'')) (\<lambda>_.
     bindE (raise_if (max_rows plan > max_plan_rows (budget source))
              (query_rejected ''QUERY_PLAN_ROWS_EXCEEDED'')) (\<lambda>_.
     raise_if (node_count plan > max_plan_nodes (budget source))
              (query_rejected ''QUERY_PLAN_NODES_EXCEEDED'')))"

section \<open>Errors of the query itself\<close>

definition QUERY_INVALID_REASON_BY_SQLSTATE :: "(string, string) dict" where
  "QUERY_INVALID_REASON_BY_SQLSTATE =
     [(''22003'', ''QUERY_NUMERIC_VALUE_OUT_OF_RANGE''),
      (''22007'', ''QUERY_INVALID_CAST''),
      (''22008'', ''QUERY_INVALID_CAST''),
      (''22012'', ''QUERY_DIVISION_BY_ZERO''),
      (''2201B'', ''QUERY_INVALID_REGULAR_EXPRESSION''),
      (''2201W'', ''QUERY_INVALID_LIMIT''),
      (''2201X'', ''QUERY_INVALID_LIMIT''),
      (''22023'', ''QUERY_INVALID_FUNCTION_ARGUMENT''),
      (''22P02'', ''QUERY_INVALID_CAST''),
      (''42703'', ''QUERY_UNDEFINED_COLUMN''),
      (''42809'', ''QUERY_INVALID_FUNCTION_USAGE''),
      (''42846'', ''QUERY_INVALID_CAST''),
      (''42883'', ''QUERY_FUNCTION_SIGNATURE_MISMATCH'')]"

fun is_database_error :: "exc \<Rightarrow> bool" where
  "is_database_error (DbErr kind state) = (kind \<noteq> InterfaceError)"
| "is_database_error PoolTimeout = True"
| "is_database_error e = False"

definition sqlstate_reason :: "exc \<Rightarrow> string option" where
  "sqlstate_reason e =
     (case e of
        DbErr kind state \<Rightarrow>
          map_of QUERY_INVALID_REASON_BY_SQLSTATE (case state of None \<Rightarrow> [] | Some s \<Rightarrow> s)
      | _ \<Rightarrow> None)"

text \<open>
  \<open>except errors.DatabaseError as error: _raise_query_invalid_for_user_sql(...); raise\<close>.
\<close>

definition raise_query_invalid_for_user_sql :: "string \<Rightarrow> exc \<Rightarrow> 'a session" where
  "raise_query_invalid_for_user_sql sid e =
     (if is_database_error e
      then (case sqlstate_reason e of
              None \<Rightarrow> raiseS e
            | Some reason \<Rightarrow>
                bindS (emit (Increment ''query_invalid'' (Some sid) 1)) (\<lambda>_.
                  raiseS (case query_invalid_error reason of
                            Inr err \<Rightarrow> AppErr err | Inl m \<Rightarrow> OtherException m)))
      else raiseS e)"

end
