(* ===== verification/SqlValidation.thy ===== *)
theory SqlValidation
  imports SourceModels ResultEncoding "HOL-Library.Product_Lexorder"
begin

text \<open>
  \<open>src/query_man/guarded_query/sql_validation.py\<close>: the SQL policy and the validator that
  walks the serialised syntax tree of a statement. The parser (\<open>pglast\<close>) and SHA-256 are
  parameters. The two recursions of the validator (\<open>_walk_nodes\<close>, and \<open>_validate_select_scope\<close>
  with \<open>_validate_scoped_value\<close>) spend one of the interpreter's remaining frames per nested
  call, and raise \<open>RecursionError\<close> when none is left.
\<close>

section \<open>Policy material\<close>

definition DEFAULT_ALLOWED_FUNCTIONS :: "string list" where
  "DEFAULT_ALLOWED_FUNCTIONS =
    [''abs'', ''age'', ''array_agg'', ''avg'', ''bit_and'', ''bit_or'', ''bool_and'',
     ''bool_or'', ''btrim'', ''ceil'', ''ceiling'', ''char_length'', ''concat'', ''concat_ws'',
     ''corr'', ''count'', ''covar_pop'', ''covar_samp'', ''date_part'', ''date_trunc'',
     ''dense_rank'', ''every'', ''extract'', ''floor'', ''json_agg'', ''json_array_length'',
     ''json_extract_path_text'', ''json_object_agg'', ''jsonb_agg'', ''jsonb_array_length'',
     ''jsonb_build_object'', ''jsonb_extract_path_text'', ''jsonb_object_agg'', ''lag'',
     ''lead'', ''left'', ''length'', ''lower'', ''ltrim'', ''max'', ''min'', ''mod'',
     ''octet_length'', ''power'', ''position'', ''percentile_cont'', ''rank'', ''regr_avgx'',
     ''regr_avgy'', ''regr_count'', ''regr_intercept'', ''regr_r2'', ''regr_slope'',
     ''replace'', ''regexp_replace'', ''right'', ''row_number'', ''round'', ''rtrim'',
     ''split_part'', ''sqrt'', ''stddev'', ''stddev_pop'', ''stddev_samp'', ''string_agg'',
     ''substr'', ''substring'', ''sum'', ''to_char'', ''to_jsonb'', ''trunc'', ''upper'',
     ''variance'', ''var_pop'', ''var_samp'']"

definition DEFAULT_ALLOWED_OPERATORS :: "string list" where
  "DEFAULT_ALLOWED_OPERATORS =
    [''!='', ''!~'', ''!~*'', ''!~~'', ''!~~*'', ''%'', ''&'', ''*'', ''+'', ''-'', ''/'',
     ''<'', ''<<'', ''<='', ''<>'', ''='', ''>'', ''>='', ''>>'', ''#>'', ''#>>'', ''^'',
     ''|'', ''||'', ''~'', ''~*'', ''~~'', ''~~*'', ''->'', ''->>'', ''#-'', ''@>'', ''<@'',
     ''?'', ''?|'', ''?&'', ''@@'', ''@?'']"

definition DEFAULT_ALLOWED_TYPES :: "string list" where
  "DEFAULT_ALLOWED_TYPES =
    [''bit'', ''bool'', ''bpchar'', ''bytea'', ''date'', ''float4'', ''float8'', ''inet'',
     ''int2'', ''int4'', ''int8'', ''interval'', ''json'', ''jsonb'', ''numeric'', ''text'',
     ''time'', ''timestamp'', ''timestamptz'', ''timetz'', ''uuid'', ''varbit'', ''varchar'']"

definition ALLOWED_SQL_VALUE_FUNCTIONS :: "string list" where
  "ALLOWED_SQL_VALUE_FUNCTIONS =
    [''SVFOP_CURRENT_DATE'', ''SVFOP_CURRENT_TIME'', ''SVFOP_CURRENT_TIME_N'',
     ''SVFOP_CURRENT_TIMESTAMP'', ''SVFOP_CURRENT_TIMESTAMP_N'', ''SVFOP_LOCALTIME'',
     ''SVFOP_LOCALTIME_N'', ''SVFOP_LOCALTIMESTAMP'', ''SVFOP_LOCALTIMESTAMP_N'']"

definition FORBIDDEN_NODE_CODES :: "(string, string) dict" where
  "FORBIDDEN_NODE_CODES =
    [(''ParamRef'', ''SQL_PARAMETER_NOT_ALLOWED''),
     (''RangeFunction'', ''SQL_TABLE_FUNCTION_NOT_ALLOWED''),
     (''RangeTableFunc'', ''SQL_TABLE_FUNCTION_NOT_ALLOWED''),
     (''RangeTableSample'', ''SQL_TABLESAMPLE_NOT_ALLOWED'')]"

definition REJECTED_A_EXPR_CONSTRUCTS :: "(string, string) dict" where
  "REJECTED_A_EXPR_CONSTRUCTS =
    [(''AEXPR_NOT_BETWEEN'', ''NOT BETWEEN''), (''AEXPR_BETWEEN_SYM'', ''BETWEEN SYMMETRIC''),
     (''AEXPR_NOT_BETWEEN_SYM'', ''NOT BETWEEN SYMMETRIC'')]"

definition ALLOWED_NODE_TAGS :: "string list" where
  "ALLOWED_NODE_TAGS =
    [''A_ArrayExpr'', ''A_Const'', ''A_Expr'', ''A_Indices'', ''A_Indirection'', ''A_Star'',
     ''Alias'', ''BitString'', ''Boolean'', ''BooleanTest'', ''BoolExpr'', ''CaseExpr'',
     ''CaseWhen'', ''CoalesceExpr'', ''CollateClause'', ''ColumnRef'', ''CommonTableExpr'',
     ''Float'', ''FuncCall'', ''GroupingFunc'', ''GroupingSet'', ''Integer'', ''JoinExpr'',
     ''MinMaxExpr'', ''NamedArgExpr'', ''Null'', ''NullTest'', ''ParamRef'', ''RangeFunction'',
     ''RangeSubselect'', ''RangeTableFunc'', ''RangeTableSample'', ''RangeVar'', ''ResTarget'',
     ''RowExpr'', ''SelectStmt'', ''SortBy'', ''SQLValueFunction'', ''String'', ''SubLink'',
     ''TypeCast'', ''TypeName'', ''WindowDef'', ''WithClause'']"

definition DEFAULT_ALLOWED_UNQUALIFIED_TYPES :: "string list" where
  "DEFAULT_ALLOWED_UNQUALIFIED_TYPES = [''date'', ''text'']"

definition SQL_POLICY_VERSION :: int where
  "SQL_POLICY_VERSION = 3"

definition READER_CONNECTION_POLICY_MATERIAL :: "(string \<times> pyval) list" where
  "READER_CONNECTION_POLICY_MATERIAL =
    [(''version'', IntV 1),
     (''postgresql_major'', IntV 18),
     (''server_encoding'', StrV READER_CLIENT_ENCODING),
     (''client_encoding'', StrV READER_CLIENT_ENCODING),
     (''driver_encoding'', StrV ''utf-8'')]"

text \<open>\<open>sorted(names)\<close> and \<open>sorted(table.items())\<close> as JSON arrays.\<close>

definition sorted_names :: "string list \<Rightarrow> pyval" where
  "sorted_names names = SeqV (map StrV (sort (remdups names)))"

definition sorted_items :: "(string, string) dict \<Rightarrow> pyval" where
  "sorted_items table = SeqV (map (\<lambda>(k, v). SeqV [StrV k, StrV v]) (sort table))"

definition sql_policy_material :: pyval where
  "sql_policy_material = MapV
    [(''version'', IntV SQL_POLICY_VERSION),
     (''canonical_time_policy'', MapV CANONICAL_TIME_POLICY_MATERIAL),
     (''reader_connection_policy'', MapV READER_CONNECTION_POLICY_MATERIAL),
     (''result_oid_policy'', MapV RESULT_OID_POLICY_MATERIAL),
     (''functions'', sorted_names DEFAULT_ALLOWED_FUNCTIONS),
     (''operators'', sorted_names DEFAULT_ALLOWED_OPERATORS),
     (''types'', sorted_names DEFAULT_ALLOWED_TYPES),
     (''unqualified_types'', sorted_names DEFAULT_ALLOWED_UNQUALIFIED_TYPES),
     (''sql_value_functions'', sorted_names ALLOWED_SQL_VALUE_FUNCTIONS),
     (''forbidden_nodes'', sorted_items FORBIDDEN_NODE_CODES),
     (''rejected_expressions'', sorted_items REJECTED_A_EXPR_CONSTRUCTS),
     (''allowed_nodes'', sorted_names ALLOWED_NODE_TAGS)]"

text \<open>The material is ASCII, so \<open>ensure_ascii\<close> makes no difference to its text.\<close>

definition create_sql_policy_revision :: "(string \<Rightarrow> string) \<Rightarrow> string" where
  "create_sql_policy_revision sha256_hex =
     ''sha256:'' @ sha256_hex (json_dumps_sorted sql_policy_material)"

section \<open>Results and errors\<close>

record validated_sql =
  fingerprint :: string
  validated_relations :: "string list"
  validated_functions :: "string list"
  validated_operators :: "string list"

datatype sql_error =
    SqlValidationError string string "string option"
  | ParseError
  | RecursionError
  | OtherError string

abbreviation sql_reject :: "string \<Rightarrow> string \<Rightarrow> sql_error + 'a" where
  "sql_reject code message \<equiv> Inl (SqlValidationError code message None)"

section \<open>The validation policy\<close>

text \<open>
  \<open>_ValidationPolicy\<close>: the four allowlists, and the relations, functions and operators
  found so far. A node is the list of a mapping's items.
\<close>

type_synonym node = "(string \<times> pyval) list"

record validation_policy =
  allowed_relations :: "string set"
  allowed_functions :: "string set"
  allowed_operators :: "string set"
  allowed_types :: "string set"
  found_relations :: "string set"
  found_functions :: "string set"
  found_operators :: "string set"

definition string_parts :: "python \<Rightarrow> pyval \<Rightarrow> string list" where
  "string_parts py value = (case value of
     SeqV items \<Rightarrow>
       concat (map (\<lambda>item. case item of
           MapV m \<Rightarrow> (if py_get ''@'' m = StrV ''String'' \<and> ''sval'' \<in> fst ` set m
                      then [py_str py (py_get ''sval'' m)] else [])
         | _ \<Rightarrow> []) items)
   | _ \<Rightarrow> [])"

definition node_tag :: "python \<Rightarrow> node \<Rightarrow> string" where
  "node_tag py node = (case map_of node ''@'' of None \<Rightarrow> [] | Some v \<Rightarrow> py_str py v)"

definition validate_SelectStmt :: "validation_policy \<Rightarrow> node \<Rightarrow> sql_error + validation_policy" where
  "validate_SelectStmt policy node =
     (if py_get ''intoClause'' node \<noteq> NoneV then
        sql_reject ''SQL_SELECT_INTO_NOT_ALLOWED'' ''SELECT INTO is not allowed.''
      else if truthy (py_get ''lockingClause'' node) then
        sql_reject ''SQL_ROW_LOCK_NOT_ALLOWED'' ''Row locking clauses are not allowed.''
      else Inr policy)"

definition validate_WithClause :: "validation_policy \<Rightarrow> node \<Rightarrow> sql_error + validation_policy" where
  "validate_WithClause policy node =
     (if truthy (py_get ''recursive'' node) then
        sql_reject ''SQL_RECURSIVE_CTE_NOT_ALLOWED'' ''Recursive CTEs are not allowed.''
      else Inr policy)"

definition validate_range_var ::
    "python \<Rightarrow> validation_policy \<Rightarrow> node \<Rightarrow> string set \<Rightarrow> sql_error + validation_policy" where
  "validate_range_var py policy node visible_ctes =
     (let catalog = py_get ''catalogname'' node;
          schema = py_get ''schemaname'' node;
          relation = (case map_of node ''relname'' of None \<Rightarrow> [] | Some v \<Rightarrow> py_str py v)
      in if truthy catalog then
           sql_reject ''SQL_CROSS_DATABASE_REFERENCE''
             ''Cross-database relation references are not allowed.''
         else if \<not> truthy schema then
           (if relation \<in> visible_ctes then Inr policy
            else sql_reject ''SQL_RELATION_MUST_BE_QUALIFIED''
                   ''Physical relations must use a schema-qualified name.'')
         else
           (let qualified = py_str py schema @ ''.'' @ relation in
            if qualified \<notin> allowed_relations policy then
              sql_reject ''SQL_RELATION_NOT_ALLOWED''
                ''The SQL references a relation that is not published for this source.''
            else Inr (policy\<lparr>found_relations := insert qualified (found_relations policy)\<rparr>)))"

definition validate_FuncCall ::
    "python \<Rightarrow> validation_policy \<Rightarrow> node \<Rightarrow> sql_error + validation_policy" where
  "validate_FuncCall py policy node =
     (let parts = string_parts py (py_get ''funcname'' node);
          check = (\<lambda>function.
            if function \<notin> allowed_functions policy then
              sql_reject ''SQL_FUNCTION_NOT_ALLOWED'' ''The SQL function is not approved.''
            else Inr (policy\<lparr>found_functions :=
                        insert (''pg_catalog.'' @ function) (found_functions policy)\<rparr>))
      in if parts = [] then
           sql_reject ''SQL_FUNCTION_NOT_ALLOWED'' ''The SQL function is not allowed.''
         else if length parts = 1 then check (casefold py (parts ! 0))
         else if length parts = 2 \<and> parts ! 0 = ''pg_catalog'' then check (casefold py (parts ! 1))
         else sql_reject ''SQL_FUNCTION_SCHEMA_NOT_ALLOWED''
                ''Only approved built-in functions are allowed.'')"

definition operator_error :: "string \<Rightarrow> sql_error + 'a" where
  "operator_error construct = Inl (SqlValidationError ''SQL_OPERATOR_NOT_ALLOWED''
     ''The SQL operator is not approved.'' (Some construct))"

definition validate_A_Expr ::
    "python \<Rightarrow> validation_policy \<Rightarrow> node \<Rightarrow> sql_error + validation_policy" where
  "validate_A_Expr py policy node =
     (let kind_name = (case py_get ''kind'' node of
            MapV kind \<Rightarrow> (case map_of kind ''name'' of None \<Rightarrow> [] | Some v \<Rightarrow> py_str py v)
          | _ \<Rightarrow> [])
      in if kind_name = ''AEXPR_BETWEEN'' then
           (if \<not> is_mapping (py_get ''lexpr'' node)
              \<or> (case py_get ''rexpr'' node of
                   SeqV bounds \<Rightarrow> length bounds \<noteq> 2 \<or> \<not> list_all is_mapping bounds
                 | _ \<Rightarrow> True)
              \<or> \<not> {''>='', ''<=''} \<subseteq> allowed_operators policy
            then operator_error ''BETWEEN''
            else Inr (policy\<lparr>found_operators := {''>='', ''<=''} \<union> found_operators policy\<rparr>))
         else case map_of REJECTED_A_EXPR_CONSTRUCTS kind_name of
           Some rejected_construct \<Rightarrow> operator_error rejected_construct
         | None \<Rightarrow>
             (let parts = string_parts py (py_get ''name'' node) in
              if parts = [] then Inr policy
              else if length parts \<noteq> 1 \<or> parts ! 0 \<notin> allowed_operators policy
              then operator_error ''OPERATOR''
              else Inr (policy\<lparr>found_operators := insert (parts ! 0) (found_operators policy)\<rparr>)))"

definition validate_TypeName ::
    "python \<Rightarrow> validation_policy \<Rightarrow> node \<Rightarrow> sql_error + validation_policy" where
  "validate_TypeName py policy node =
     (let parts = string_parts py (py_get ''names'' node);
          type_name = casefold py (last parts)
      in if parts = [] then Inr policy
         else if length parts = 1 \<and> type_name \<in> set DEFAULT_ALLOWED_UNQUALIFIED_TYPES then
           (if type_name \<notin> allowed_types policy
            then sql_reject ''SQL_TYPE_NOT_ALLOWED'' ''The cast type is not approved.''
            else Inr policy)
         else if length parts \<noteq> 2 \<or> parts ! 0 \<noteq> ''pg_catalog'' then
           sql_reject ''SQL_TYPE_NOT_ALLOWED'' ''Only approved built-in cast types are allowed.''
         else if type_name \<notin> allowed_types policy then
           sql_reject ''SQL_TYPE_NOT_ALLOWED'' ''The cast type is not approved.''
         else Inr policy)"

definition validate_SQLValueFunction ::
    "validation_policy \<Rightarrow> node \<Rightarrow> sql_error + validation_policy" where
  "validate_SQLValueFunction policy node =
     (let name = (case py_get ''op'' node of MapV operation \<Rightarrow> py_get ''name'' operation | _ \<Rightarrow> NoneV)
      in if name \<notin> StrV ` set ALLOWED_SQL_VALUE_FUNCTIONS then
           sql_reject ''SQL_VALUE_FUNCTION_NOT_ALLOWED'' ''The SQL value function is not approved.''
         else Inr policy)"

definition validate_CollateClause ::
    "validation_policy \<Rightarrow> node \<Rightarrow> sql_error + validation_policy" where
  "validate_CollateClause policy node =
     sql_reject ''SQL_COLLATION_NOT_ALLOWED'' ''Explicit collations are not allowed.''"

text \<open>\<open>getattr(self, f"_validate_{tag}", None)\<close>\<close>

definition validate_handler ::
    "python \<Rightarrow> string \<Rightarrow> validation_policy \<Rightarrow> node \<Rightarrow> sql_error + validation_policy" where
  "validate_handler py tag policy node =
     (if tag = ''SelectStmt'' then validate_SelectStmt policy node
      else if tag = ''WithClause'' then validate_WithClause policy node
      else if tag = ''FuncCall'' then validate_FuncCall py policy node
      else if tag = ''A_Expr'' then validate_A_Expr py policy node
      else if tag = ''TypeName'' then validate_TypeName py policy node
      else if tag = ''SQLValueFunction'' then validate_SQLValueFunction policy node
      else if tag = ''CollateClause'' then validate_CollateClause policy node
      else Inr policy)"

text \<open>The body of the loop of \<open>validate\<close>.\<close>

definition validate_node ::
    "python \<Rightarrow> validation_policy \<Rightarrow> node \<Rightarrow> sql_error + validation_policy" where
  "validate_node py policy node =
     (let tag = node_tag py node in
      if py_ends ''Stmt'' tag \<and> tag \<noteq> ''SelectStmt'' then
        sql_reject ''SQL_NESTED_STATEMENT_NOT_ALLOWED''
          ''Only read-only SELECT statements are allowed inside CTEs.''
      else case map_of FORBIDDEN_NODE_CODES tag of
        Some forbidden_code \<Rightarrow> sql_reject forbidden_code ''The SQL construct is not allowed.''
      | None \<Rightarrow>
          (if tag \<notin> set ALLOWED_NODE_TAGS then
             sql_reject ''SQL_CONSTRUCT_NOT_ALLOWED''
               ''The SQL contains a construct that has not been approved.''
           else validate_handler py tag policy node))"

section \<open>Traversals\<close>

text \<open>
  \<open>_walk_nodes\<close> is a generator: the nodes it yields, and whether it ran to its end
  (\<open>False\<close> when it raised \<open>RecursionError\<close> after these nodes).
\<close>

fun walk_nodes :: "nat \<Rightarrow> pyval \<Rightarrow> node list \<times> bool"
  and walk_list :: "nat \<Rightarrow> pyval list \<Rightarrow> node list \<times> bool" where
  "walk_nodes 0 value = ([], False)"
| "walk_nodes (Suc n) (MapV m) =
     (let (ns, ok) = walk_list n (map snd m) in
      (if ''@'' \<in> fst ` set m then m # ns else ns, ok))"
| "walk_nodes (Suc n) (SeqV vs) = walk_list n vs"
| "walk_nodes (Suc n) value = ([], True)"
| "walk_list n [] = ([], True)"
| "walk_list n (v # vs) =
     (let (ns, ok) = walk_nodes n v in
      if \<not> ok then (ns, False)
      else let (ms, ok') = walk_list n vs in (ns @ ms, ok'))"

definition is_select :: "node \<Rightarrow> bool" where
  "is_select node \<longleftrightarrow> py_get ''@'' node = StrV ''SelectStmt''"

text \<open>The entries of \<open>node["withClause"]["ctes"]\<close> that are mappings.\<close>

definition with_ctes :: "node \<Rightarrow> node list" where
  "with_ctes node = (case py_get ''withClause'' node of
     MapV with_clause \<Rightarrow>
       (case py_get ''ctes'' with_clause of
          SeqV ctes \<Rightarrow> concat (map (\<lambda>cte. case cte of MapV c \<Rightarrow> [c] | _ \<Rightarrow> []) ctes)
        | _ \<Rightarrow> [])
   | _ \<Rightarrow> [])"

definition cte_names :: "python \<Rightarrow> node \<Rightarrow> string set" where
  "cte_names py cte =
     (let name = py_get ''ctename'' cte in if truthy name then {py_str py name} else {})"

definition scope_items :: "node \<Rightarrow> pyval list" where
  "scope_items node = map snd (filter (\<lambda>(k, v). k \<noteq> ''withClause'') node)"

function validate_select_scope ::
    "nat \<Rightarrow> python \<Rightarrow> validation_policy \<Rightarrow> node \<Rightarrow> string set \<Rightarrow> sql_error + validation_policy"
  and validate_ctes ::
    "nat \<Rightarrow> python \<Rightarrow> validation_policy \<Rightarrow> node list \<Rightarrow> string set \<Rightarrow>
      sql_error + (validation_policy \<times> string set)"
  and validate_scoped_value ::
    "nat \<Rightarrow> python \<Rightarrow> validation_policy \<Rightarrow> pyval \<Rightarrow> string set \<Rightarrow> sql_error + validation_policy"
  and validate_scoped_list ::
    "nat \<Rightarrow> python \<Rightarrow> validation_policy \<Rightarrow> pyval list \<Rightarrow> string set \<Rightarrow> sql_error + validation_policy"
where
  "validate_select_scope 0 py policy node outer_ctes = Inl RecursionError"
| "validate_select_scope (Suc n) py policy node outer_ctes =
     bindE (validate_ctes n py policy (with_ctes node) outer_ctes) (\<lambda>(policy, visible).
       validate_scoped_list n py policy (scope_items node) visible)"
| "validate_ctes n py policy [] visible = Inr (policy, visible)"
| "validate_ctes n py policy (cte # ctes) visible =
     bindE (case py_get ''ctequery'' cte of
              MapV query \<Rightarrow> (if is_select query
                            then validate_select_scope n py policy query visible else Inr policy)
            | _ \<Rightarrow> Inr policy)
       (\<lambda>policy. validate_ctes n py policy ctes (visible \<union> cte_names py cte))"
| "validate_scoped_value 0 py policy value visible = Inl RecursionError"
| "validate_scoped_value (Suc n) py policy value visible =
     (case value of
        MapV m \<Rightarrow>
          (if py_get ''@'' m = StrV ''RangeVar'' then validate_range_var py policy m visible
           else if is_select m then validate_select_scope n py policy m visible
           else validate_scoped_list n py policy (map snd m) visible)
      | SeqV vs \<Rightarrow> validate_scoped_list n py policy vs visible
      | _ \<Rightarrow> Inr policy)"
| "validate_scoped_list n py policy [] visible = Inr policy"
| "validate_scoped_list n py policy (v # vs) visible =
     bindE (validate_scoped_value n py policy v visible)
       (\<lambda>policy. validate_scoped_list n py policy vs visible)"
  by pat_completeness auto
termination
  by (relation "measures
        [case_sum (case_sum (\<lambda>(n, _). n) (\<lambda>(n, _). n)) (case_sum (\<lambda>(n, _). n) (\<lambda>(n, _). n)),
         case_sum (case_sum (\<lambda>_. 0) (\<lambda>(_, _, _, ctes, _). length ctes))
           (case_sum (\<lambda>_. 0) (\<lambda>(_, _, _, vs, _). length vs))]") auto

text \<open>
  \<open>validate\<close>: the handlers see the yielded nodes one by one, so a rejection among them comes
  before a \<open>RecursionError\<close> further on.
\<close>

definition validate_tree ::
    "python \<Rightarrow> validation_policy \<Rightarrow> node \<Rightarrow> sql_error + validation_policy" where
  "validate_tree py policy tree =
     (let (nodes, ok) = walk_nodes (frames py) (MapV tree) in
      bindE (foldE (validate_node py) policy nodes) (\<lambda>policy.
        if ok then validate_select_scope (frames py) py policy tree {}
        else Inl RecursionError))"

section \<open>Validating a statement\<close>

text \<open>
  \<open>pglast\<close>: parsing a text into statements, telling whether a statement is a
  \<open>SelectStmt\<close>, serialising it with \<open>skip_none=True\<close>, and the fingerprint of a text.
\<close>

record 'stmt pglast =
  parse_sql :: "string \<Rightarrow> sql_error + 'stmt list"
  is_select_stmt :: "'stmt \<Rightarrow> bool"
  serialise :: "'stmt \<Rightarrow> sql_error + node"
  sql_fingerprint :: "string \<Rightarrow> sql_error + string"

definition initial_policy ::
    "python \<Rightarrow> string list \<Rightarrow> string list \<Rightarrow> string list \<Rightarrow> string list \<Rightarrow> validation_policy" where
  "initial_policy py rels functions operators types =
     \<lparr>allowed_relations = set rels,
      allowed_functions = casefold py ` set functions,
      allowed_operators = set operators,
      allowed_types = casefold py ` set types,
      found_relations = {}, found_functions = {}, found_operators = {}\<rparr>"

definition sorted_set :: "string set \<Rightarrow> string list" where
  "sorted_set = sorted_list_of_set"

definition validate_parsed ::
    "python \<Rightarrow> 'stmt pglast \<Rightarrow> string \<Rightarrow> validation_policy \<Rightarrow> sql_error + validated_sql" where
  "validate_parsed py pg sql policy =
     bindE (parse_sql pg sql) (\<lambda>statements.
       if length statements \<noteq> 1 then
         sql_reject ''SQL_MULTIPLE_STATEMENTS'' ''Exactly one SQL statement is required.''
       else if \<not> is_select_stmt pg (statements ! 0) then
         sql_reject ''SQL_STATEMENT_NOT_ALLOWED'' ''Only a read-only SELECT statement is allowed.''
       else
         bindE (serialise pg (statements ! 0)) (\<lambda>tree.
         bindE (validate_tree py policy tree) (\<lambda>policy.
         bindE (sql_fingerprint pg sql) (\<lambda>fp.
           Inr \<lparr>fingerprint = ''pg_query:'' @ fp,
                validated_relations = sorted_set (found_relations policy),
                validated_functions = sorted_set (found_functions policy),
                validated_operators = sorted_set (found_operators policy)\<rparr>))))"

text \<open>\<open>except (ParseError, RecursionError)\<close>\<close>

definition catch_parse_error :: "sql_error + 'a \<Rightarrow> sql_error + 'a" where
  "catch_parse_error r = (case r of
     Inl e \<Rightarrow> (if e \<in> {ParseError, RecursionError}
              then sql_reject ''SQL_PARSE_ERROR'' ''SQL could not be parsed.'' else Inl e)
   | Inr x \<Rightarrow> Inr x)"

definition validate_sql_with ::
    "python \<Rightarrow> 'stmt pglast \<Rightarrow> string \<Rightarrow> string list \<Rightarrow> string list \<Rightarrow> string list \<Rightarrow> string list \<Rightarrow>
      int \<Rightarrow> sql_error + validated_sql" where
  "validate_sql_with py pg sql rels functions operators types max_bytes =
     (if py_blank sql then
        sql_reject ''SQL_EMPTY'' ''SQL must contain one read-only SELECT statement.''
      else if int (length sql) > max_bytes then
        sql_reject ''SQL_TOO_LARGE'' ''SQL exceeds the configured byte limit.''
      else catch_parse_error
        (validate_parsed py pg sql (initial_policy py rels functions operators types)))"

text \<open>The call of \<open>QueryService.query\<close>, with the default allowlists.\<close>

definition validate_sql ::
    "python \<Rightarrow> 'stmt pglast \<Rightarrow> string \<Rightarrow> string list \<Rightarrow> int \<Rightarrow> sql_error + validated_sql" where
  "validate_sql py pg sql rels max_bytes =
     validate_sql_with py pg sql rels DEFAULT_ALLOWED_FUNCTIONS DEFAULT_ALLOWED_OPERATORS
       DEFAULT_ALLOWED_TYPES max_bytes"

end
