(* ===== verification/QueryExecutor.thy ===== *)
theory QueryExecutor
  imports ReaderPolicy QueryPlan SqlValidation
begin

text \<open>
  The execution of one admitted query in \<open>src/query_man/guarded_query/query.py\<close>: the check of
  the resolved functions and operators, the bounded fetch of the result, the transaction on the
  connection, and the mapping of every failure to a public error with its metrics. Updates of
  the operational state are part of the session's trace; audit log lines are not modelled.
\<close>

section \<open>Resolved functions and operators\<close>

definition removeprefix :: "string \<Rightarrow> string \<Rightarrow> string" where
  "removeprefix p s = (case strip_prefix p s of None \<Rightarrow> s | Some t \<Rightarrow> t)"

definition safe_objects :: "(string \<times> pyval) list \<Rightarrow> string set" where
  "safe_objects rows = set (map fst (filter (\<lambda>(n, is_safe). truthy is_safe) rows))"

definition validate_resolved_objects :: "database \<Rightarrow> validated_sql \<Rightarrow> unit session" where
  "validate_resolved_objects db validated =
     (let functions0 = sort (remdups (map (removeprefix ''pg_catalog.'') (validated_functions validated)));
          operators0 = sort (remdups (validated_operators validated)) in
      bindS (if functions0 = [] then returnS ()
             else bindS (query db (FUNCTION_POLICY functions0) objects_of) (\<lambda>rows.
                    liftS (raise_if (safe_objects rows \<noteq> set functions0)
                             (query_rejected ''QUERY_RESOLVED_FUNCTION_NOT_ALLOWED'')))) (\<lambda>_.
      if operators0 = [] then returnS ()
      else bindS (query db (OPERATOR_POLICY operators0) objects_of) (\<lambda>rows.
             liftS (raise_if (safe_objects rows \<noteq> set operators0)
                      (query_rejected ''QUERY_RESOLVED_OPERATOR_NOT_ALLOWED'')))))"

section \<open>The result\<close>

type_synonym row = "(cell_key \<times> cell) list"

text \<open>The \<open>for\<close> loop over a batch: rows so far, bytes so far, and whether it was cut off.\<close>

fun add_batch ::
  "budget_profile \<Rightarrow> pyval list \<Rightarrow> int \<Rightarrow> row list \<Rightarrow> exc + (pyval list \<times> int \<times> bool)" where
  "add_batch b rows result_bytes [] = Inr (rows, result_bytes, False)"
| "add_batch b rows result_bytes (row # batch) =
     (if int (length rows) \<ge> max_result_rows b then Inr (rows, result_bytes, True)
      else
        (case encode_result_value (CellMapping row) of
           Inl e \<Rightarrow> Inl (EncodingErr e)
         | Inr encoded_row \<Rightarrow>
             (let row_bytes = int (length (json_dumps encoded_row));
                  separator_bytes = (if rows = [] then 0 else 1) in
              if result_bytes + separator_bytes + row_bytes > max_result_bytes b
              then Inr (rows, result_bytes, True)
              else add_batch b (rows @ [encoded_row]) (result_bytes + separator_bytes + row_bytes) batch)))"

definition fetch_size :: "budget_profile \<Rightarrow> pyval list \<Rightarrow> int" where
  "fetch_size b rows = min 16 (max_result_rows b - int (length rows) + 1)"

lemma add_batch_continues:
  "add_batch b rows n batch = Inr (rows', n', False) \<Longrightarrow>
     length rows' = length rows + length batch \<and>
     (batch \<noteq> [] \<longrightarrow> int (length rows) < max_result_rows b)"
  by (induction b rows n batch rule: add_batch.induct)
    (auto simp: Let_def split: if_splits sum.splits)

function fetch_rows ::
  "database \<Rightarrow> budget_profile \<Rightarrow> pyval list \<Rightarrow> int \<Rightarrow> (pyval list \<times> int \<times> bool) session" where
  "fetch_rows db b rows result_bytes tr =
     (case query db (CURSOR_FETCH (fetch_size b rows)) batch_of tr of
        (Inl e, tr') \<Rightarrow> (Inl e, tr')
      | (Inr batch, tr') \<Rightarrow>
          if batch = [] then (Inr (rows, result_bytes, False), tr')
          else
            (case add_batch b rows result_bytes batch of
               Inl e \<Rightarrow> (Inl e, tr')
             | Inr (rows', bytes', truncated) \<Rightarrow>
                 if truncated then (Inr (rows', bytes', True), tr')
                 else fetch_rows db b rows' bytes' tr'))"
  by pat_completeness auto
termination
  by (relation "measure (\<lambda>(db, b, rows, n, tr). nat (max_result_rows b - int (length rows) + 1))")
    (auto simp: Suc_le_eq dest!: add_batch_continues)

declare fetch_rows.simps [simp del]

lemma fetch_rows_fail:
  "query db (CURSOR_FETCH (fetch_size b rows)) batch_of tr = (Inl e, t) \<Longrightarrow>
     fetch_rows db b rows n tr = (Inl e, t)"
  by (subst fetch_rows.simps) simp

lemma fetch_rows_end:
  "query db (CURSOR_FETCH (fetch_size b rows)) batch_of tr = (Inr [], t) \<Longrightarrow>
     fetch_rows db b rows n tr = (Inr (rows, n, False), t)"
  by (subst fetch_rows.simps) simp

lemma fetch_rows_more:
  "query db (CURSOR_FETCH (fetch_size b rows)) batch_of tr = (Inr batch, t) \<Longrightarrow> batch \<noteq> [] \<Longrightarrow>
     fetch_rows db b rows n tr =
       (case add_batch b rows n batch of
          Inl e \<Rightarrow> (Inl e, t)
        | Inr (rows', n', cut_off) \<Rightarrow>
            if cut_off then (Inr (rows', n', True), t) else fetch_rows db b rows' n' t)"
  by (subst fetch_rows.simps) simp

definition UNSUPPORTED_RESULT :: exc where
  "UNSUPPORTED_RESULT = EncodingErr (ResultEncodingError ''Unsupported PostgreSQL result type'')"

definition result_columns :: "exc + result_column list \<Rightarrow> exc + string list" where
  "result_columns description =
     (case description of
        Inl e \<Rightarrow> Inl (if is_exception e then UNSUPPORTED_RESULT else e)
      | Inr cols \<Rightarrow>
          (case those (map result_name cols) of
             None \<Rightarrow> Inl UNSUPPORTED_RESULT
           | Some names \<Rightarrow>
               bindE (raise_if (\<not> distinct names) (query_rejected ''QUERY_DUPLICATE_RESULT_COLUMN''))
                 (\<lambda>_. case require_supported_result_oids (Inr (map type_code cols) :: exc + pyval list) of
                        Inl e \<Rightarrow> Inl (EncodingErr e)
                      | Inr u \<Rightarrow> Inr names)))"

definition fetch_result ::
  "database \<Rightarrow> budget_profile \<Rightarrow> string \<Rightarrow> (string list \<times> pyval list \<times> int \<times> bool) session" where
  "fetch_result db b sql =
     bindS (query db (CURSOR_EXECUTE sql) description_of) (\<lambda>description.
     bindS (liftS (result_columns description)) (\<lambda>names.
     bindS (fetch_rows db b [] 2) (\<lambda>(rows, result_bytes, truncated).
     returnS (names, rows, result_bytes, truncated))))"

section \<open>The transaction\<close>

definition query_session_values :: "source_profile \<Rightarrow> string \<Rightarrow> string list" where
  "query_session_values source query_id =
     (let ms = (\<lambda>n. int_str n @ ''ms'') in
      [ms (query_statement_timeout_ms (budget source)), ms (query_transaction_timeout_ms (budget source)),
       ms (lock_timeout_ms (budget source)), ms (query_transaction_timeout_ms (budget source)),
       [], ''query-man:'' @ query_id]
      @ reader_session_budget_values source)"

text \<open>\<open>_rollback_quietly\<close>, and the two \<open>except\<close> clauses that end the transaction.\<close>

definition abort_transaction :: "database \<Rightarrow> exc \<Rightarrow> 'a session" where
  "abort_transaction db e =
     (if e = CancelledError
      then bindS (execute db CANCEL) (\<lambda>_. bindS (quietly db ROLLBACK) (\<lambda>_. raiseS e))
      else bindS (quietly db ROLLBACK) (\<lambda>_. raiseS e))"

type_synonym fetched = "plan_summary \<times> string list \<times> pyval list \<times> int \<times> bool"

definition query_transaction ::
  "database \<Rightarrow> source_profile \<Rightarrow> string \<Rightarrow> validated_sql \<Rightarrow> string \<Rightarrow> fetched session" where
  "query_transaction db source sql validated query_id =
     bindS (execute db BEGIN_READ_ONLY) (\<lambda>_.
     bindS (execute db SET_TIMEZONE_UTC) (\<lambda>_.
     bindS (execute db (SET_QUERY_SESSION (query_session_values source query_id))) (\<lambda>_.
     bindS (require_reader_session_policy db source '''') (\<lambda>_.
     bindS (validate_resolved_objects db validated) (\<lambda>_.
     bindS (catchS (query db (EXPLAIN_JSON sql) plan_of)
              (raise_query_invalid_for_user_sql (source_id source))) (\<lambda>plan_row.
     bindS (liftS (bindE (extract_plan plan_row) summarize_plan)) (\<lambda>plan.
     bindS (liftS (admit_plan source plan)) (\<lambda>_.
     bindS (finallyS (catchS (fetch_result db (budget source) sql)
                        (raise_query_invalid_for_user_sql (source_id source)))
              (quietly db CURSOR_CLOSE)) (\<lambda>(names, rows, result_bytes, truncated).
     bindS (execute db COMMIT) (\<lambda>_.
     bindS (emit (SetSourceQueryHealth (source_id source) Healthy)) (\<lambda>_.
     returnS (plan, names, rows, result_bytes, truncated))))))))))))"

record query_result =
  result_query_id :: string
  result_metadata_revision :: string
  result_fingerprint :: string
  result_column_names :: "string list"
  result_rows :: "pyval list"
  row_count :: nat
  result_bytes :: int
  truncated :: bool
  queue_ms :: int
  elapsed_ms :: int
  plan_summary_of :: plan_summary

definition execute_connection ::
  "database \<Rightarrow> source_profile \<Rightarrow> string \<Rightarrow> string \<Rightarrow> validated_sql \<Rightarrow> int \<Rightarrow> string \<Rightarrow> int \<Rightarrow> query_result session"
  where
  "execute_connection db source sql metadata_revision validated queue query_id elapsed =
     bindS (catchS (query_transaction db source sql validated query_id) (abort_transaction db))
       (\<lambda>(plan, names, rows, n, cut).
     bindS (emit (Increment ''query_execution_succeeded'' (Some (source_id source)) 1)) (\<lambda>_.
     bindS (emit (Observe ''query_elapsed_ms'' elapsed (Some (source_id source)))) (\<lambda>_.
     bindS (if cut then emit (Increment ''query_truncated'' (Some (source_id source)) 1) else returnS ()) (\<lambda>_.
     returnS \<lparr>result_query_id = query_id, result_metadata_revision = metadata_revision,
        result_fingerprint = fingerprint validated, result_column_names = names, result_rows = rows,
        row_count = length rows, result_bytes = n, truncated = cut, queue_ms = queue,
        elapsed_ms = elapsed, plan_summary_of = plan\<rparr>))))"

section \<open>An admitted query\<close>

text \<open>\<open>cancel_reason\<close> of the active query is \<open>shutdown\<close> or \<open>None\<close>.\<close>

definition require_query_connection_policy :: "database \<Rightarrow> source_profile \<Rightarrow> unit session" where
  "require_query_connection_policy db source =
     catchS (liftS (require_reader_connection_policy db (sslmode (connection source))))
       (\<lambda>e. if e = ReaderSessionPolicyError
             then bindS (quietly db CLOSE_CONNECTION) (\<lambda>_. raiseS e) else raiseS e)"

definition count_failure :: "string \<Rightarrow> string \<Rightarrow> exc \<Rightarrow> 'a session" where
  "count_failure name sid e =
     bindS (emit (Increment name (Some sid) 1)) (\<lambda>_. raiseS e)"

definition report_unavailable :: "string \<Rightarrow> string \<Rightarrow> exc \<Rightarrow> 'a session" where
  "report_unavailable name sid e =
     bindS (emit (Increment name (Some sid) 1)) (\<lambda>_.
     bindS (emit (SetSourceQueryHealth sid Unavailable)) (\<lambda>_. raiseS e))"

definition map_query_failure :: "string \<Rightarrow> (statement list \<Rightarrow> bool) \<Rightarrow> exc \<Rightarrow> 'a session" where
  "map_query_failure sid shutting_down e = (\<lambda>tr.
     (case e of
        PoolTimeout \<Rightarrow> report_unavailable ''query_pool_exhausted'' sid (AppErr QueryUnavailableError)
      | TimeoutError \<Rightarrow> count_failure ''query_timeout'' sid (AppErr QueryTimeoutError)
      | DbErr QueryCanceled state \<Rightarrow>
          count_failure (if shutting_down tr then ''query_shutdown_cancelled'' else ''query_timeout'')
            sid (AppErr QueryTimeoutError)
      | DbErr OperationalError state \<Rightarrow>
          report_unavailable ''query_failed'' sid (AppErr QueryUnavailableError)
      | DbErr InterfaceError state \<Rightarrow>
          report_unavailable ''query_failed'' sid (AppErr QueryUnavailableError)
      | ReaderSessionPolicyError \<Rightarrow>
          report_unavailable ''query_failed'' sid (AppErr QueryUnavailableError)
      | AppErr (QueryRejectedError reason rejected) \<Rightarrow> count_failure ''query_rejected'' sid e
      | AppErr (QueryInvalidError reason m) \<Rightarrow> raiseS e
      | AppErr QueryOverloadedError \<Rightarrow> raiseS e
      | AppErr QueryTimeoutError \<Rightarrow> raiseS e
      | CancelledError \<Rightarrow> raiseS e
      | _ \<Rightarrow> count_failure ''query_failed'' sid (AppErr QueryUnavailableError)) tr)"

text \<open>
  After the semaphore is acquired. The pool gives a connection or raises; \<open>expired\<close> tells
  whether a cancellation at that point comes from the transaction timeout of the query, which
  turns it into \<open>TimeoutError\<close>.
\<close>

definition execute_admitted ::
  "exc + database \<Rightarrow> (statement list \<Rightarrow> bool) \<Rightarrow> (statement list \<Rightarrow> bool) \<Rightarrow> source_profile \<Rightarrow> string \<Rightarrow> string
     \<Rightarrow> validated_sql \<Rightarrow> int \<Rightarrow> string \<Rightarrow> int \<Rightarrow> query_result session" where
  "execute_admitted acquired expired shutting_down source sql metadata_revision validated queue query_id elapsed =
     bindS (emit (Observe ''query_queue_ms'' queue (Some (source_id source)))) (\<lambda>_.
     bindS (emit (Increment ''query_execution_started'' (Some (source_id source)) 1)) (\<lambda>_.
     catchS
       (catchS
         (bindS (liftS acquired) (\<lambda>db.
          bindS (require_query_connection_policy db source) (\<lambda>_.
          execute_connection db source sql metadata_revision validated queue query_id elapsed)))
         (\<lambda>e tr. if e = CancelledError \<and> expired tr then raiseS TimeoutError tr else raiseS e tr))
       (map_query_failure (source_id source) shutting_down)))"

text \<open>
  \<open>execute\<close>: refused when the executor does not accept any more; a queue that times out; a
  cancellation, which is a failed query once the executor has stopped accepting.
\<close>

datatype admission = NotAccepting | QueueTimeout | QueueCancelled | Admitted

definition execute_query ::
  "admission \<Rightarrow> (statement list \<Rightarrow> bool) \<Rightarrow> exc + database \<Rightarrow> (statement list \<Rightarrow> bool) \<Rightarrow> (statement list \<Rightarrow> bool)
     \<Rightarrow> source_profile \<Rightarrow> string \<Rightarrow> string \<Rightarrow> validated_sql \<Rightarrow> int \<Rightarrow> string \<Rightarrow> int \<Rightarrow> query_result session" where
  "execute_query adm accepts acquired expired shutting_down source sql metadata_revision validated queue query_id elapsed =
     (if adm = NotAccepting then raiseS (AppErr QueryUnavailableError)
      else catchS
        (case adm of
           QueueTimeout \<Rightarrow>
             count_failure ''query_queue_rejected'' (source_id source) (AppErr QueryOverloadedError)
         | QueueCancelled \<Rightarrow> raiseS CancelledError
         | _ \<Rightarrow> execute_admitted acquired expired shutting_down source sql metadata_revision validated
                  queue query_id elapsed)
        (\<lambda>e tr.
           if e = CancelledError
           then (if \<not> accepts tr then raiseS (AppErr QueryUnavailableError)
                 else count_failure ''query_interrupted'' (source_id source) e) tr
           else raiseS e tr))"

end
