(* ===== verification/QueryResultSpec.thy ===== *)
theory QueryResultSpec
  imports QueryExecutor
begin

text \<open>
  The bounded result: the loop over batches returns the encodings of the first rows the cursor
  delivers, within both limits of the budget, with the exact size of their JSON text, and is
  marked truncated exactly when a delivered row was left out.
\<close>

section \<open>Size of the JSON text of a list\<close>

definition rows_bytes :: "pyval list \<Rightarrow> int" where
  "rows_bytes rows = int (length (json_dumps (SeqV rows)))"

lemma rows_bytes_Nil [simp]: "rows_bytes [] = 2"
  by (simp add: rows_bytes_def)

lemma length_json_rest_append: "length (json_rest (vs @ ws)) = length (json_rest vs) + length (json_rest ws)"
  by (induction vs) simp_all

lemma rows_bytes_snoc:
  "rows_bytes (rows @ [v]) = rows_bytes rows + (if rows = [] then 0 else 1) + int (length (json_dumps v))"
  by (cases rows) (simp_all add: rows_bytes_def length_json_rest_append)

section \<open>One batch\<close>

abbreviation encodes :: "row list \<Rightarrow> pyval list \<Rightarrow> bool" where
  "encodes rs vs \<equiv> map (\<lambda>r. encode_result_value (CellMapping r)) rs = map Inr vs"

lemma add_batch_correct:
  "add_batch b rows n batch = Inr (rows', n', trunc) \<Longrightarrow> n = rows_bytes rows \<Longrightarrow>
   \<exists>k new. k \<le> length batch \<and> rows' = rows @ new \<and> encodes (take k batch) new \<and>
     n' = rows_bytes rows' \<and> (trunc \<longleftrightarrow> k < length batch) \<and>
     (new \<noteq> [] \<longrightarrow> n' \<le> max_result_bytes b \<and> int (length rows') \<le> max_result_rows b)"
proof (induction b rows n batch rule: add_batch.induct)
  case (1 b rows n)
  then show ?case by auto
next
  case (2 b rows n row batch)
  show ?case
  proof (cases "int (length rows) \<ge> max_result_rows b")
    case True
    with 2 show ?thesis by (intro exI [of _ 0] exI [of _ "[]"]) auto
  next
    case False
    with 2(2) obtain v where v: "encode_result_value (CellMapping row) = Inr v"
      by (auto split: sum.splits)
    let ?n = "n + (if rows = [] then 0 else 1) + int (length (json_dumps v))"
    have size: "?n = rows_bytes (rows @ [v])" using 2(3) by (simp add: rows_bytes_snoc)
    show ?thesis
    proof (cases "?n > max_result_bytes b")
      case True
      with False v 2(2,3) show ?thesis
        by (intro exI [of _ 0] exI [of _ "[]"]) (auto simp: Let_def split: if_splits)
    next
      case fits: False
      then have rec: "add_batch b (rows @ [v]) ?n batch = Inr (rows', n', trunc)"
        using False v 2(2) by (simp add: Let_def)
      from 2(1) [OF False v refl refl fits rec size] obtain k new where IH:
        "k \<le> length batch" "rows' = (rows @ [v]) @ new" "encodes (take k batch) new"
        "n' = rows_bytes rows'" "trunc \<longleftrightarrow> k < length batch"
        "new \<noteq> [] \<longrightarrow> n' \<le> max_result_bytes b \<and> int (length rows') \<le> max_result_rows b" by blast
      have "n' \<le> max_result_bytes b \<and> int (length rows') \<le> max_result_rows b"
        using IH fits False size by (cases new) auto
      with IH v show ?thesis by (intro exI [of _ "Suc k"] exI [of _ "v # new"]) auto
    qed
  qed
qed

section \<open>All batches\<close>

text \<open>The rows a database delivers for the fetches among some statements.\<close>

fun delivered :: "database \<Rightarrow> statement list \<Rightarrow> statement list \<Rightarrow> row list" where
  "delivered db tr [] = []"
| "delivered db tr (st # sts) =
     (case (st, reply db tr st) of (CURSOR_FETCH n, Inr (Batch rs)) \<Rightarrow> rs | _ \<Rightarrow> [])
     @ delivered db (tr @ [st]) sts"

definition is_fetch :: "statement \<Rightarrow> bool" where
  "is_fetch st \<longleftrightarrow> (\<exists>n. st = CURSOR_FETCH n)"

lemma is_fetch_fetch [simp]: "is_fetch (CURSOR_FETCH n)"
  by (simp add: is_fetch_def)

lemma fetch_rows_correct:
  assumes "fetch_rows db b rows n tr = (Inr (rows', n', trunc), t)" and "n = rows_bytes rows"
  shows "\<exists>sts k new. t = tr @ sts \<and> list_all is_fetch sts \<and> rows' = rows @ new \<and>
    k \<le> length (delivered db tr sts) \<and> encodes (take k (delivered db tr sts)) new \<and>
    n' = rows_bytes rows' \<and> (trunc \<longleftrightarrow> k < length (delivered db tr sts)) \<and>
    (new \<noteq> [] \<longrightarrow> n' \<le> max_result_bytes b \<and> int (length rows') \<le> max_result_rows b)"
  using assms
proof (induction db b rows n tr rule: fetch_rows.induct)
  case (1 db b rows n tr)
  let ?st = "CURSOR_FETCH (fetch_size b rows)"
  obtain r where q0: "query db ?st batch_of tr = (r, tr @ [?st])"
    using query_trace [of db ?st batch_of tr] by (metis prod.collapse)
  then obtain batch where r: "r = Inr batch" using 1(2) fetch_rows_fail [of db b rows tr] by (cases r) auto
  note q = q0 [unfolded r]
  have batch: "reply db tr ?st = Inr (Batch batch)" using q unfolding query_Inr read_Inr by blast
  show ?case
  proof (cases "batch = []")
    case True
    with 1(2) q fetch_rows_end [of db b rows tr] have "rows' = rows" "n' = n" "\<not> trunc" "t = tr @ [?st]"
      by auto
    with True batch 1(3) show ?thesis
      by (intro exI [of _ "[?st]"] exI [of _ 0] exI [of _ "[]"]) auto
  next
    case False
    with 1(2) q obtain rows1 n1 trunc1 where add: "add_batch b rows n batch = Inr (rows1, n1, trunc1)"
      by (auto simp: fetch_rows_more split: sum.splits)
    from add_batch_correct [OF add 1(3)] obtain k new where A:
      "k \<le> length batch" "rows1 = rows @ new" "encodes (take k batch) new"
      "n1 = rows_bytes rows1" "trunc1 \<longleftrightarrow> k < length batch"
      "new \<noteq> [] \<longrightarrow> n1 \<le> max_result_bytes b \<and> int (length rows1) \<le> max_result_rows b" by blast
    show ?thesis
    proof (cases trunc1)
      case True
      with 1(2) q False add have "rows' = rows1" "n' = n1" "trunc" "t = tr @ [?st]"
        by (auto simp: fetch_rows_more)
      with True A batch show ?thesis
        by (intro exI [of _ "[?st]"] exI [of _ k] exI [of _ new]) auto
    next
      case cont: False
      with 1(2) q False add have rec: "fetch_rows db b rows1 n1 (tr @ [?st]) = (Inr (rows', n', trunc), t)"
        by (simp add: fetch_rows_more)
      from 1(1) [OF q [symmetric] refl False add refl refl cont rec A(4)] obtain sts k2 new2 where B:
        "t = (tr @ [?st]) @ sts" "list_all is_fetch sts" "rows' = rows1 @ new2"
        "k2 \<le> length (delivered db (tr @ [?st]) sts)"
        "encodes (take k2 (delivered db (tr @ [?st]) sts)) new2" "n' = rows_bytes rows'"
        "trunc \<longleftrightarrow> k2 < length (delivered db (tr @ [?st]) sts)"
        "new2 \<noteq> [] \<longrightarrow> n' \<le> max_result_bytes b \<and> int (length rows') \<le> max_result_rows b" by blast
      have "k = length batch" using A cont by simp
      with A B batch False show ?thesis
        by (intro exI [of _ "?st # sts"] exI [of _ "length batch + k2"] exI [of _ "new @ new2"])
          (cases new2; auto)
    qed
  qed
qed

text \<open>Whatever happens, the loop fetches at most once more than the rows it may still take.\<close>

lemma fetch_rows_fetches:
  "\<exists>sts. snd (fetch_rows db b rows n tr) = tr @ sts \<and> list_all is_fetch sts \<and>
     int (length sts) \<le> max 0 (max_result_rows b - int (length rows)) + 1"
proof (induction db b rows n tr rule: fetch_rows.induct)
  case (1 db b rows n tr)
  let ?st = "CURSOR_FETCH (fetch_size b rows)"
  obtain r where q: "query db ?st batch_of tr = (r, tr @ [?st])"
    using query_trace [of db ?st batch_of tr] by (metis prod.collapse)
  consider (stop) "snd (fetch_rows db b rows n tr) = tr @ [?st]"
    | (cont) batch rows1 n1 where "r = Inr batch" "batch \<noteq> []"
        "add_batch b rows n batch = Inr (rows1, n1, False)"
  proof (cases r)
    case (Inl e)
    then show thesis using stop fetch_rows_fail [of db b rows tr e] q by simp
  next
    case (Inr batch)
    show thesis
    proof (cases "batch = []")
      case True
      then show thesis using stop fetch_rows_end [of db b rows tr] q Inr by simp
    next
      case False
      note more = fetch_rows_more [OF q [unfolded Inr] False, of n]
      show thesis
      proof (cases "add_batch b rows n batch")
        case Inl
        with more show thesis by (intro stop) simp
      next
        case add: (Inr res)
        obtain rows1 n1 trunc1 where res: "res = (rows1, n1, trunc1)" by (cases res)
        show thesis
        proof (cases trunc1)
          case True
          with more add res show thesis by (intro stop) simp
        next
          case no: False
          with Inr False add res show thesis by (intro cont [of batch rows1 n1]) simp_all
        qed
      qed
    qed
  qed
  then show ?case
  proof cases
    case stop
    then show ?thesis by (intro exI [of _ "[?st]"]) simp
  next
    case cont
    have "fetch_rows db b rows n tr = fetch_rows db b rows1 n1 (tr @ [?st])"
      using cont q by (simp add: fetch_rows_more)
    moreover obtain sts where "snd (fetch_rows db b rows1 n1 (tr @ [?st])) = (tr @ [?st]) @ sts"
      "list_all is_fetch sts" "int (length sts) \<le> max 0 (max_result_rows b - int (length rows1)) + 1"
      using 1 [OF q [unfolded cont, symmetric] refl cont(2,3) refl refl] by auto
    moreover have "length rows1 = length rows + length batch" "int (length rows) < max_result_rows b" "1 \<le> length batch"
      using add_batch_continues [OF cont(3)] cont(2) by (auto simp: Suc_le_eq)
    ultimately show ?thesis
      by (intro exI [of _ "?st # sts"]) auto
  qed
qed

lemma sends_fetch_rows [sends_intros]:
  "(\<And>n. P (CURSOR_FETCH n)) \<Longrightarrow> sends P (fetch_rows db b rows n)"
proof -
  assume P: "\<And>n. P (CURSOR_FETCH n)"
  have "\<exists>sts. snd (fetch_rows db b rows n tr) = tr @ sts \<and> list_all P sts" for tr
    using fetch_rows_fetches [of db b rows n tr] P unfolding list_all_iff is_fetch_def by metis
  then show ?thesis unfolding sends_def by blast
qed

end
