(* ===== verification/QueryPlanSpec.thy ===== *)
theory QueryPlanSpec
  imports QueryPlan Revision
begin

text \<open>
  The plan summary against a recursion over the plan tree, and what admission means: the loop
  over the stack visits every node exactly once, and an admitted plan is within every limit.
\<close>

section \<open>The plan tree\<close>

datatype plan_tree = Plan_Tree (own_rows: int) (subplans: "plan_tree list")

function tree_of :: "plan_node \<Rightarrow> plan_tree option" where
  "tree_of node =
     (case non_negative_number node ''Plan Rows'' of
        Inl e \<Rightarrow> None
      | Inr rows \<Rightarrow>
          (case plan_children node of
             Inl e \<Rightarrow> None
           | Inr children \<Rightarrow>
               map_option (Plan_Tree \<lfloor>rows\<rfloor>) (those (map tree_of children))))"
  by pat_completeness auto
termination
proof (relation "measure node_weight")
  fix node rows children child
  assume "plan_children node = Inr children" "child \<in> set children"
  then have "Suc (node_weight child) \<le> node_weight node"
    using plan_children_weight [of node children]
      member_le_sum_list [of "Suc (node_weight child)" "map (\<lambda>d. Suc (node_weight d)) children"] by auto
  then show "(child, node) \<in> measure node_weight" by simp
qed simp

declare tree_of.simps [simp del]

fun tree_nodes :: "plan_tree \<Rightarrow> int" where
  "tree_nodes (Plan_Tree rows ts) = 1 + sum_list (map tree_nodes ts)"

fun tree_rows :: "plan_tree \<Rightarrow> int set" where
  "tree_rows (Plan_Tree rows ts) = insert rows (\<Union> (set (map tree_rows ts)))"

lemma finite_tree_rows [simp]: "finite (tree_rows t)"
  by (induction t) auto

lemma tree_rows_nonempty [simp]: "tree_rows t \<noteq> {}"
  by (cases t) simp

lemma tree_nodes_pos: "1 \<le> tree_nodes t"
proof (induction t)
  case (Plan_Tree rows ts)
  then have "0 \<le> sum_list (map tree_nodes ts)" by (intro sum_list_nonneg) fastforce
  then show ?case by simp
qed

section \<open>The loop visits every node once\<close>

lemma those_append:
  "those (xs @ ys) = (case (those xs, those ys) of (Some a, Some b) \<Rightarrow> Some (a @ b) | _ \<Rightarrow> None)"
  by (induction xs) (auto split: option.splits)

lemma those_Some: "those xs = Some ys \<longleftrightarrow> xs = map Some ys"
  by (induction xs arbitrary: ys) (auto split: option.splits)

lemma those_rev: "those (rev xs) = map_option rev (those xs)"
  by (induction xs) (auto simp: those_append split: option.splits)

lemma max_of_rows:
  "finite A \<Longrightarrow> max m (Max (insert 0 (insert rows A))) = max (max m rows) (Max (insert 0 A))"
  for rows :: int
  by (subst insert_commute, subst Max_insert) (auto simp: max.assoc)

lemma plan_loop_trees:
  "case those (map tree_of pending) of
     None \<Rightarrow> (\<exists>e. plan_loop pending n rows_max = Inl e)
   | Some ts \<Rightarrow> plan_loop pending n rows_max =
       Inr (n + sum_list (map tree_nodes ts),
            max rows_max (Max (insert 0 (\<Union> (set (map tree_rows ts))))))"
  if "0 \<le> rows_max"
  using that
proof (induction pending n rows_max rule: plan_loop.induct)
  case (1 n rows_max)
  then show ?case by simp
next
  case (2 node pending n rows_max)
  show ?case
  proof (cases "non_negative_number node ''Plan Rows''")
    case (Inl e)
    then show ?thesis by (simp add: tree_of.simps [of node])
  next
    case (Inr rows)
    have pos: "0 \<le> \<lfloor>rows\<rfloor>"
      using Inr by (auto simp: non_negative_number_def err_simps split: option.splits plan_json.splits
          pyfloat.splits if_splits)
    show ?thesis
    proof (cases "plan_children node")
      case Inl
      with Inr show ?thesis by (simp add: tree_of.simps [of node])
    next
      case ch: (Inr children)
      have nonneg: "0 \<le> max rows_max \<lfloor>rows\<rfloor>" using 2(2) by simp
      note IH = 2(1) [OF Inr ch nonneg]
      have step: "plan_loop (node # pending) n rows_max =
          plan_loop (rev children @ pending) (n + 1) (max rows_max \<lfloor>rows\<rfloor>)"
        using Inr ch by simp
      have tree: "tree_of node = map_option (Plan_Tree \<lfloor>rows\<rfloor>) (those (map tree_of children))"
        using Inr ch by (simp add: tree_of.simps [of node])
      show ?thesis
      proof (cases "those (map tree_of children)")
        case None
        then have "those (map tree_of (rev children @ pending)) = None"
          by (simp add: those_append those_rev rev_map [symmetric])
        then show ?thesis using IH step tree None by simp
      next
        case cs: (Some cts)
        show ?thesis
        proof (cases "those (map tree_of pending)")
          case None
          then have "those (map tree_of (rev children @ pending)) = None"
            using cs by (simp add: those_append those_rev rev_map [symmetric])
          then show ?thesis using IH step tree None cs by simp
        next
          case (Some pts)
          then have "those (map tree_of (rev children @ pending)) = Some (rev cts @ pts)"
            using cs by (simp add: those_append those_rev rev_map [symmetric])
          then have "plan_loop (node # pending) n rows_max =
              Inr (n + 1 + (sum_list (map tree_nodes cts) + sum_list (map tree_nodes pts)),
                max (max rows_max \<lfloor>rows\<rfloor>)
                  (Max (insert 0 (\<Union> (set (map tree_rows cts)) \<union> \<Union> (set (map tree_rows pts))))))"
            using IH step by (simp add: rev_map [symmetric] sum_list_rev)
          then show ?thesis
            using Some tree cs
              max_of_rows [of "\<Union> (set (map tree_rows cts)) \<union> \<Union> (set (map tree_rows pts))" rows_max "\<lfloor>rows\<rfloor>"]
            by (simp add: Un_assoc del: Max_insert plan_loop.simps)
        qed
      qed
    qed
  qed
qed

section \<open>Properties\<close>

text \<open>
  The plan summary. The loop over the stack of pending nodes succeeds exactly on a plan
  whose nodes all carry a finite non-negative row estimate and well-formed children, and whose
  root has such a cost; then it has counted every node of the plan tree once and found the
  largest row estimate in it, rounded down. It always ends.
\<close>
theorem plan_summary_of_tree:
  "summarize_plan top_node = Inr s \<longleftrightarrow>
     (\<exists>t cost. tree_of top_node = Some t \<and> non_negative_number top_node ''Total Cost'' = Inr cost \<and>
        s = \<lparr>total_cost = cost, max_rows = Max (insert 0 (tree_rows t)), node_count = tree_nodes t\<rparr>)"
proof (cases "tree_of top_node")
  case None
  then have "\<exists>e. plan_loop [top_node] 0 0 = Inl e" using plan_loop_trees [of 0 "[top_node]" 0] by simp
  with None show ?thesis by (auto simp: summarize_plan_def)
next
  case (Some t)
  then have "plan_loop [top_node] 0 0 = Inr (tree_nodes t, max 0 (Max (insert 0 (tree_rows t))))"
    using plan_loop_trees [of 0 "[top_node]" 0] by simp
  moreover have "max 0 (Max (insert 0 (tree_rows t))) = Max (insert 0 (tree_rows t))" by simp
  ultimately show ?thesis using Some by (auto simp: summarize_plan_def err_simps simp del: Max_insert)
qed

lemma admit_plan_Inr [err_simps]:
  "admit_plan source plan = Inr u \<longleftrightarrow>
     total_cost plan \<le> of_int (max_plan_total_cost (budget source)) \<and>
     max_rows plan \<le> max_plan_rows (budget source) \<and> node_count plan \<le> max_plan_nodes (budget source)"
  by (auto simp: admit_plan_def err_simps not_less)

text \<open>
  Admission. A plan is admitted exactly when its cost, the estimate of every node of its tree
  and the number of its nodes are within the limits of the budget; otherwise the query is
  rejected for the first limit exceeded, in that order.
\<close>
theorem plan_admission:
  assumes "summarize_plan top_node = Inr s" and "tree_of top_node = Some t"
    and "0 \<le> max_plan_rows (budget source)"
  shows "(admit_plan source s = Inr () \<longleftrightarrow>
      total_cost s \<le> of_int (max_plan_total_cost (budget source)) \<and>
      (\<forall>rows \<in> tree_rows t. rows \<le> max_plan_rows (budget source)) \<and>
      tree_nodes t \<le> max_plan_nodes (budget source)) \<and>
    (admit_plan source s = Inr () \<or> admit_plan source s \<in> {Inl (query_rejected ''QUERY_PLAN_COST_EXCEEDED''),
       Inl (query_rejected ''QUERY_PLAN_ROWS_EXCEEDED''), Inl (query_rejected ''QUERY_PLAN_NODES_EXCEEDED'')})"
proof -
  have s: "max_rows s = Max (insert 0 (tree_rows t))" "node_count s = tree_nodes t"
    using assms(1,2) unfolding plan_summary_of_tree by auto
  have "max_rows s \<le> max_plan_rows (budget source) \<longleftrightarrow>
      (\<forall>rows \<in> tree_rows t. rows \<le> max_plan_rows (budget source))"
    unfolding s(1) using assms(3) by (subst Max_le_iff) auto
  moreover have "admit_plan source s = Inr () \<or> admit_plan source s \<in>
      {Inl (query_rejected ''QUERY_PLAN_COST_EXCEEDED''),
       Inl (query_rejected ''QUERY_PLAN_ROWS_EXCEEDED''), Inl (query_rejected ''QUERY_PLAN_NODES_EXCEEDED'')}"
    by (simp add: admit_plan_def raise_if_def)
  ultimately show ?thesis unfolding admit_plan_Inr s(2) by blast
qed

text \<open>
  Errors of the query. For every error code of the server the failure becomes either the
  public error of its reason, which always has a message, and one more count of invalid
  queries, or it stays what it was; interface errors and all others pass unchanged.
\<close>
theorem sqlstate_errors_public:
  "raise_query_invalid_for_user_sql sid e tr =
     (case (if is_database_error e then sqlstate_reason e else None) of
        None \<Rightarrow> (Inl e, tr)
      | Some reason \<Rightarrow>
          (Inl (AppErr (QueryInvalidError reason (the (map_of QUERY_INVALID_MESSAGES reason)))),
           tr @ [OPERATION (Increment ''query_invalid'' (Some sid) 1)]))"
proof -
  have "list_all (\<lambda>(k, r). map_of QUERY_INVALID_MESSAGES r \<noteq> None) QUERY_INVALID_REASON_BY_SQLSTATE"
    by code_simp
  then have public: "map_of QUERY_INVALID_MESSAGES r \<noteq> None" if "sqlstate_reason e = Some r" for r
    using that by (fastforce simp: sqlstate_reason_def list_all_iff dest!: map_of_SomeD split: exc.splits)
  have "query_invalid_error r = Inr (QueryInvalidError r (the (map_of QUERY_INVALID_MESSAGES r)))"
    if "sqlstate_reason e = Some r" for r
    using public [OF that] by (auto simp: query_invalid_error_def)
  then show ?thesis
    by (auto simp: raise_query_invalid_for_user_sql_def bindS_def split: option.split)
qed

section \<open>A concrete plan\<close>

definition example_plan :: plan_node where
  "example_plan =
     [(''Node Type'', PStr ''Sort''), (''Total Cost'', PFloat (Float (125 / 10))), (''Plan Rows'', PInt 7),
      (''Plans'', PList [PDict [(''Plan Rows'', PInt 40)],
                         PDict [(''Plan Rows'', PFloat (Float (9 / 2)))]])]"

lemma example_summary:
  "summarize_plan example_plan = Inr \<lparr>total_cost = 125 / 10, max_rows = 40, node_count = 3\<rparr>"
  by (simp add: summarize_plan_def example_plan_def non_negative_number_def float_of_int_def
      round_to_53_def bit_length.simps plan_children_def Let_def)

lemma example_tree:
  "tree_of example_plan = Some (Plan_Tree 7 [Plan_Tree 40 [], Plan_Tree 4 []])"
proof -
  have "\<lfloor>9 / 2 :: rat\<rfloor> = 4" by (rule floor_unique) simp_all
  then show ?thesis
    by (simp add: tree_of.simps example_plan_def non_negative_number_def float_of_int_def
        round_to_53_def bit_length.simps plan_children_def Let_def)
qed

theorem plan_admission_witness:
  "admit_plan example_source \<lparr>total_cost = 125 / 10, max_rows = 40, node_count = 3\<rparr> = Inr ()"
  using plan_admission [OF example_summary example_tree, of example_source]
  by (simp add: example_source_def example_budget_def)

end
