(* ===== verification/QueryExecutorSpec.thy ===== *)
theory QueryExecutorSpec
  imports QueryResultSpec QueryPlanSpec
begin

text \<open>
  What an executed query guarantees, whatever the database answers and whenever it fails: the
  text of the user reaches the server only behind every gate, the transaction is committed or
  rolled back, a result is bounded and complete or marked truncated, and a failure is one of
  the public errors.
\<close>

section \<open>The gates before the statements of the user\<close>

text \<open>The functions and operators that were found are all safe in the catalog of the server.\<close>

definition resolved_functions :: "validated_sql \<Rightarrow> string list" where
  "resolved_functions v = sort (remdups (map (removeprefix ''pg_catalog.'') (validated_functions v)))"

definition resolved_operators :: "validated_sql \<Rightarrow> string list" where
  "resolved_operators v = sort (remdups (validated_operators v))"

definition objects_safe :: "database \<Rightarrow> statement list \<Rightarrow> validated_sql \<Rightarrow> bool" where
  "objects_safe db t v \<longleftrightarrow>
     (resolved_functions v = [] \<or> (\<exists>rows. reply db t (FUNCTION_POLICY (resolved_functions v)) =
        Inr (ObjectRows rows) \<and> safe_objects rows = set (resolved_functions v))) \<and>
     (let t' = (if resolved_functions v = [] then t else t @ [FUNCTION_POLICY (resolved_functions v)]) in
      resolved_operators v = [] \<or> (\<exists>rows. reply db t' (OPERATOR_POLICY (resolved_operators v)) =
        Inr (ObjectRows rows) \<and> safe_objects rows = set (resolved_operators v)))"

definition resolved_statements :: "validated_sql \<Rightarrow> statement list" where
  "resolved_statements v =
     (if resolved_functions v = [] then [] else [FUNCTION_POLICY (resolved_functions v)])
     @ (if resolved_operators v = [] then [] else [OPERATOR_POLICY (resolved_operators v)])"

lemma validate_resolved_Inr:
  "validate_resolved_objects db v tr = (Inr u, t) \<longleftrightarrow> t = tr @ resolved_statements v \<and> objects_safe db tr v"
  unfolding validate_resolved_objects_def resolved_functions_def [symmetric]
    resolved_operators_def [symmetric] objects_safe_def resolved_statements_def
  by (cases "resolved_functions v = []"; cases "resolved_operators v = []")
    (auto simp: err_simps Let_def)

lemma sends_resolved [sends_intros]:
  "(\<And>fs. P (FUNCTION_POLICY fs)) \<Longrightarrow> (\<And>fs. P (OPERATOR_POLICY fs)) \<Longrightarrow>
     sends P (validate_resolved_objects db v)"
  unfolding validate_resolved_objects_def Let_def
  by (auto intro!: sends_intros)

lemma sends_user_sql_error [sends_intros]:
  "(\<And>ev. P (OPERATION ev)) \<Longrightarrow> sends P (raise_query_invalid_for_user_sql sid e)"
  unfolding raise_query_invalid_for_user_sql_def
  by (auto intro!: sends_intros split: option.splits)

lemma sends_fetch_result [sends_intros]:
  "P (CURSOR_EXECUTE sql) \<Longrightarrow> (\<And>n. P (CURSOR_FETCH n)) \<Longrightarrow> sends P (fetch_result db b sql)"
  unfolding fetch_result_def by (auto intro!: sends_intros)

text \<open>The statements up to the session policy, and the policy row.\<close>

definition session_statements :: "source_profile \<Rightarrow> string \<Rightarrow> statement list" where
  "session_statements source query_id =
     [BEGIN_READ_ONLY, SET_TIMEZONE_UTC, SET_QUERY_SESSION (query_session_values source query_id)]"

definition session_gated ::
  "database \<Rightarrow> source_profile \<Rightarrow> validated_sql \<Rightarrow> string \<Rightarrow> statement list \<Rightarrow> statement list \<Rightarrow> bool" where
  "session_gated db source v query_id tr t \<longleftrightarrow>
     (let pol = CHECK_SESSION_POLICY (session_policy_arguments source '''');
          before = tr @ session_statements source query_id in
      (\<exists>checks. reply db before pol = Inr (PolicyRow (Some checks)) \<and> checks \<noteq> [] \<and>
         list_all (\<lambda>(k, x). truthy x) checks) \<and>
      objects_safe db (before @ [pol]) v \<and> t = before @ [pol] @ resolved_statements v)"

definition plan_admitted :: "database \<Rightarrow> source_profile \<Rightarrow> string \<Rightarrow> statement list \<Rightarrow> plan_summary \<Rightarrow> bool" where
  "plan_admitted db source sql t plan \<longleftrightarrow>
     (\<exists>row. reply db t (EXPLAIN_JSON sql) = Inr (PlanRow row) \<and>
        bindE (extract_plan row) summarize_plan = Inr plan) \<and> admit_plan source plan = Inr ()"

definition user_part :: "database \<Rightarrow> source_profile \<Rightarrow> string \<Rightarrow> fetched session" where
  "user_part db source sql =
     bindS (catchS (query db (EXPLAIN_JSON sql) plan_of)
              (raise_query_invalid_for_user_sql (source_id source))) (\<lambda>plan_row.
     bindS (liftS (bindE (extract_plan plan_row) summarize_plan)) (\<lambda>plan.
     bindS (liftS (admit_plan source plan)) (\<lambda>_.
     bindS (finallyS (catchS (fetch_result db (budget source) sql)
                        (raise_query_invalid_for_user_sql (source_id source)))
              (quietly db CURSOR_CLOSE)) (\<lambda>(names, rows, result_bytes, truncated).
     bindS (execute db COMMIT) (\<lambda>_.
     bindS (emit (SetSourceQueryHealth (source_id source) Healthy)) (\<lambda>_.
     returnS (plan, names, rows, result_bytes, truncated)))))))"

lemma query_transaction_parts:
  "query_transaction db source sql validated query_id =
     bindS (execute db BEGIN_READ_ONLY) (\<lambda>_.
     bindS (execute db SET_TIMEZONE_UTC) (\<lambda>_.
     bindS (execute db (SET_QUERY_SESSION (query_session_values source query_id))) (\<lambda>_.
     bindS (require_reader_session_policy db source '''') (\<lambda>_.
     bindS (validate_resolved_objects db validated) (\<lambda>_. user_part db source sql)))))"
  by (simp add: query_transaction_def user_part_def)

lemma raise_query_invalid_Inr [err_simps]: "raise_query_invalid_for_user_sql sid e tr \<noteq> (Inr x, t)"
  by (simp add: raise_query_invalid_for_user_sql_def bindS_def split: option.split sum.split)

lemma explain_Inr:
  "catchS (query db (EXPLAIN_JSON sql) plan_of) (raise_query_invalid_for_user_sql sid) tr = (Inr row, t)
     \<longleftrightarrow> reply db tr (EXPLAIN_JSON sql) = Inr (PlanRow row) \<and> t = tr @ [EXPLAIN_JSON sql]"
  by (auto simp: err_simps)

lemma user_part_reached:
  assumes "x \<in> set (snd (query_transaction db source sql validated query_id tr))" and "x \<notin> set tr"
    and "x = EXPLAIN_JSON s \<or> x = CURSOR_EXECUTE s \<or> x = COMMIT"
  obtains t where "session_gated db source validated query_id tr t" and "x \<notin> set t"
    and "x \<in> set (snd (user_part db source sql t))"
proof -
  have other: "sends (\<lambda>st. st \<noteq> x) (execute db BEGIN_READ_ONLY)" "sends (\<lambda>st. st \<noteq> x) (execute db SET_TIMEZONE_UTC)"
    "sends (\<lambda>st. st \<noteq> x) (execute db (SET_QUERY_SESSION vs))"
    "sends (\<lambda>st. st \<noteq> x) (require_reader_session_policy db source tenant)"
    "sends (\<lambda>st. st \<noteq> x) (validate_resolved_objects db validated)" for vs tenant
    using assms(3) by (auto intro!: sends_intros)
  from assms(1,2) [unfolded query_transaction_parts] obtain t1 a1 where 1: "execute db BEGIN_READ_ONLY tr = (Inr a1, t1)"
    and x1: "x \<notin> set t1" and r1: "x \<in> set (snd (bindS (execute db SET_TIMEZONE_UTC) (\<lambda>_.
     bindS (execute db (SET_QUERY_SESSION (query_session_values source query_id))) (\<lambda>_.
     bindS (require_reader_session_policy db source '''') (\<lambda>_.
     bindS (validate_resolved_objects db validated) (\<lambda>_. user_part db source sql)))) t1))"
    by (rule bindS_reach) (rule other)
  from r1 x1 other(2) obtain t2 a2 where 2: "execute db SET_TIMEZONE_UTC t1 = (Inr a2, t2)"
    and x2: "x \<notin> set t2" and r2: "x \<in> set (snd (bindS (execute db (SET_QUERY_SESSION (query_session_values source query_id))) (\<lambda>_.
     bindS (require_reader_session_policy db source '''') (\<lambda>_.
     bindS (validate_resolved_objects db validated) (\<lambda>_. user_part db source sql))) t2))"
    by (rule bindS_reach)
  from r2 x2 other(3) obtain t3 a3 where 3: "execute db (SET_QUERY_SESSION (query_session_values source query_id)) t2 = (Inr a3, t3)"
    and x3: "x \<notin> set t3" and r3: "x \<in> set (snd (bindS (require_reader_session_policy db source '''') (\<lambda>_.
     bindS (validate_resolved_objects db validated) (\<lambda>_. user_part db source sql)) t3))"
    by (rule bindS_reach)
  from r3 x3 other(4) obtain t4 a4 where 4: "require_reader_session_policy db source '''' t3 = (Inr a4, t4)"
    and x4: "x \<notin> set t4"
    and r4: "x \<in> set (snd (bindS (validate_resolved_objects db validated) (\<lambda>_. user_part db source sql) t4))"
    by (rule bindS_reach)
  from r4 x4 other(5) obtain t5 a5 where 5: "validate_resolved_objects db validated t4 = (Inr a5, t5)"
    and x5: "x \<notin> set t5" and r5: "x \<in> set (snd (user_part db source sql t5))"
    by (rule bindS_reach)
  have "session_gated db source validated query_id tr t5"
    using 1 2 3 4 5
    by (auto simp: session_gated_def session_statements_def session_policy_Inr validate_resolved_Inr)
  with that x5 r5 show thesis by blast
qed

section \<open>The whole execution\<close>

text \<open>What a failure becomes, and what is recorded of it.\<close>

fun public_failure :: "exc \<Rightarrow> exc" where
  "public_failure CancelledError = CancelledError"
| "public_failure TimeoutError = AppErr QueryTimeoutError"
| "public_failure (DbErr QueryCanceled state) = AppErr QueryTimeoutError"
| "public_failure (AppErr (QueryRejectedError reason c)) = AppErr (QueryRejectedError reason c)"
| "public_failure (AppErr (QueryInvalidError reason m)) = AppErr (QueryInvalidError reason m)"
| "public_failure (AppErr QueryOverloadedError) = AppErr QueryOverloadedError"
| "public_failure (AppErr QueryTimeoutError) = AppErr QueryTimeoutError"
| "public_failure e = AppErr QueryUnavailableError"

fun failure_counter :: "bool \<Rightarrow> exc \<Rightarrow> string option" where
  "failure_counter shutdown CancelledError = None"
| "failure_counter shutdown TimeoutError = Some ''query_timeout''"
| "failure_counter shutdown PoolTimeout = Some ''query_pool_exhausted''"
| "failure_counter shutdown (DbErr QueryCanceled state) =
     Some (if shutdown then ''query_shutdown_cancelled'' else ''query_timeout'')"
| "failure_counter shutdown (AppErr (QueryRejectedError reason c)) = Some ''query_rejected''"
| "failure_counter shutdown (AppErr (QueryInvalidError reason m)) = None"
| "failure_counter shutdown (AppErr QueryOverloadedError) = None"
| "failure_counter shutdown (AppErr QueryTimeoutError) = None"
| "failure_counter shutdown e = Some ''query_failed''"

fun loses_connection :: "exc \<Rightarrow> bool" where
  "loses_connection PoolTimeout = True"
| "loses_connection ReaderSessionPolicyError = True"
| "loses_connection (DbErr OperationalError state) = True"
| "loses_connection (DbErr InterfaceError state) = True"
| "loses_connection e = False"

definition failure_events :: "string \<Rightarrow> bool \<Rightarrow> exc \<Rightarrow> statement list" where
  "failure_events sid shutdown e =
     (case failure_counter shutdown e of None \<Rightarrow> []
      | Some name \<Rightarrow> [OPERATION (Increment name (Some sid) 1)])
     @ (if loses_connection e then [OPERATION (SetSourceQueryHealth sid Unavailable)] else [])"

lemma map_query_failure_run:
  "map_query_failure sid shutting e tr =
     (Inl (public_failure e), tr @ failure_events sid (shutting tr) e)"
proof (cases e)
  case (AppErr a)
  then show ?thesis
    by (cases a) (simp_all add: map_query_failure_def count_failure_def bindS_def failure_events_def)
next
  case (DbErr k state)
  then show ?thesis
    by (cases k) (simp_all add: map_query_failure_def count_failure_def report_unavailable_def bindS_def
        failure_events_def)
qed (simp_all add: map_query_failure_def count_failure_def report_unavailable_def bindS_def failure_events_def)

lemma sends_map_failure [sends_intros]:
  "(\<And>ev. P (OPERATION ev)) \<Longrightarrow> sends P (map_query_failure sid shutting e)"
  by (auto simp: sends_def map_query_failure_run failure_events_def split: option.split)

lemma sends_connection_policy [sends_intros]:
  "P CLOSE_CONNECTION \<Longrightarrow> sends P (require_query_connection_policy db source)"
  unfolding require_query_connection_policy_def by (auto intro!: sends_intros)

lemma sends_abort [sends_intros]:
  "P CANCEL \<Longrightarrow> P ROLLBACK \<Longrightarrow> sends P (abort_transaction db e)"
  unfolding abort_transaction_def by (auto intro!: sends_intros)

lemma connection_policy_run:
  "require_query_connection_policy db source tr = (Inr u, t) \<longleftrightarrow>
     t = tr \<and> require_reader_connection_policy db (sslmode (connection source)) = Inr ()"
  by (auto simp: require_query_connection_policy_def err_simps)

lemma user_part_sends:
  assumes "P (EXPLAIN_JSON sql)" and "P (CURSOR_EXECUTE sql)" and "\<And>n. P (CURSOR_FETCH n)"
    and "P CURSOR_CLOSE" and "P COMMIT" and "\<And>ev. P (OPERATION ev)"
  shows "sends P (user_part db source sql)"
  unfolding user_part_def using assms by (auto intro!: sends_intros)

lemma user_text:
  assumes "x \<in> set (snd (user_part db source sql t))" and "x \<notin> set t"
    and "x = EXPLAIN_JSON s \<or> x = CURSOR_EXECUTE s"
  shows "s = sql"
proof -
  have "sends (\<lambda>st. \<forall>s. st = EXPLAIN_JSON s \<or> st = CURSOR_EXECUTE s \<longrightarrow> s = sql) (user_part db source sql)"
    by (rule user_part_sends) auto
  moreover obtain r t' where run: "user_part db source sql t = (r, t')" by fastforce
  ultimately obtain sts where "t' = t @ sts"
    and only: "list_all (\<lambda>st. \<forall>s. st = EXPLAIN_JSON s \<or> st = CURSOR_EXECUTE s \<longrightarrow> s = sql) sts"
    by (rule sendsE)
  with assms(1,2) run have "x \<in> set sts" by simp
  with only assms(3) show ?thesis unfolding list_all_iff by blast
qed

lemma cursor_after_admission:
  assumes "CURSOR_EXECUTE s \<in> set (snd (user_part db source sql t))" and "CURSOR_EXECUTE s \<notin> set t"
  obtains plan where "plan_admitted db source sql t plan"
proof -
  let ?x = "CURSOR_EXECUTE s"
  have explain: "sends (\<lambda>st. st \<noteq> ?x) (catchS (query db (EXPLAIN_JSON sql) plan_of)
      (raise_query_invalid_for_user_sql (source_id source)))"
    by (auto intro!: sends_intros)
  from assms [unfolded user_part_def] explain obtain row t1
    where 1: "catchS (query db (EXPLAIN_JSON sql) plan_of)
        (raise_query_invalid_for_user_sql (source_id source)) t = (Inr row, t1)" and x1: "?x \<notin> set t1"
      and r1: "?x \<in> set (snd (bindS (liftS (bindE (extract_plan row) summarize_plan)) (\<lambda>plan.
     bindS (liftS (admit_plan source plan)) (\<lambda>_.
     bindS (finallyS (catchS (fetch_result db (budget source) sql)
                        (raise_query_invalid_for_user_sql (source_id source)))
              (quietly db CURSOR_CLOSE)) (\<lambda>(names, rows, result_bytes, truncated).
     bindS (execute db COMMIT) (\<lambda>_.
     bindS (emit (SetSourceQueryHealth (source_id source) Healthy)) (\<lambda>_.
     returnS (plan, names, rows, result_bytes, truncated)))))) t1))"
    by (rule bindS_reach)
  from r1 x1 sends_basic(3) obtain plan t2
    where 2: "liftS (bindE (extract_plan row) summarize_plan) t1 = (Inr plan, t2)" and x2: "?x \<notin> set t2"
      and r2: "?x \<in> set (snd (bindS (liftS (admit_plan source plan)) (\<lambda>_.
     bindS (finallyS (catchS (fetch_result db (budget source) sql)
                        (raise_query_invalid_for_user_sql (source_id source)))
              (quietly db CURSOR_CLOSE)) (\<lambda>(names, rows, result_bytes, truncated).
     bindS (execute db COMMIT) (\<lambda>_.
     bindS (emit (SetSourceQueryHealth (source_id source) Healthy)) (\<lambda>_.
     returnS (plan, names, rows, result_bytes, truncated))))) t2))"
    by (rule bindS_reach)
  from r2 x2 sends_basic(3) obtain u t3 where 3: "liftS (admit_plan source plan) t2 = (Inr u, t3)"
    by (rule bindS_reach)
  from 1 2 3 have "plan_admitted db source sql t plan"
    by (auto simp: plan_admitted_def explain_Inr)
  with that show thesis .
qed

text \<open>What an execution records before it takes a connection.\<close>

definition started :: "source_profile \<Rightarrow> int \<Rightarrow> statement list" where
  "started source queue =
     [OPERATION (Observe ''query_queue_ms'' queue (Some (source_id source))),
      OPERATION (Increment ''query_execution_started'' (Some (source_id source)) 1)]"

lemma execute_admitted_run:
  "execute_admitted acquired expired shutting source sql mrev validated queue query_id elapsed tr =
     catchS
       (catchS
         (bindS (liftS acquired) (\<lambda>db.
          bindS (require_query_connection_policy db source) (\<lambda>_.
          execute_connection db source sql mrev validated queue query_id elapsed)))
         (\<lambda>e tr. if e = CancelledError \<and> expired tr then raiseS TimeoutError tr else raiseS e tr))
       (map_query_failure (source_id source) shutting) (tr @ started source queue)"
  by (simp add: execute_admitted_def started_def bindS_def)

lemma sends_if_raise [sends_intros]: "sends P (\<lambda>tr. if b tr then raiseS e tr else raiseS e' tr)"
  by (simp add: sends_def)

lemma admitted_reached:
  assumes "x \<in> set (snd (execute_admitted acquired expired shutting source sql mrev validated queue query_id elapsed []))"
    and "\<And>ev. x \<noteq> OPERATION ev" and "x \<noteq> CLOSE_CONNECTION"
  obtains db where "acquired = Inr db" and "require_reader_connection_policy db (sslmode (connection source)) = Inr ()"
    and "x \<in> set (snd (execute_connection db source sql mrev validated queue query_id elapsed (started source queue)))"
proof -
  have "sends (\<lambda>st. st \<noteq> x) (map_query_failure (source_id source) shutting e :: query_result session)" for e
    using assms(2) by (auto intro!: sends_intros)
  from catchS_reach [OF assms(1) [unfolded execute_admitted_run append_Nil] this]
  have "x \<in> set (snd (catchS
         (bindS (liftS acquired) (\<lambda>db.
          bindS (require_query_connection_policy db source) (\<lambda>_.
          execute_connection db source sql mrev validated queue query_id elapsed)))
         (\<lambda>e tr. if e = CancelledError \<and> expired tr then raiseS TimeoutError tr else raiseS e tr)
         (started source queue)))" .
  from catchS_reach [OF this sends_if_raise]
  have 0: "x \<in> set (snd (bindS (liftS acquired) (\<lambda>db.
          bindS (require_query_connection_policy db source) (\<lambda>_.
          execute_connection db source sql mrev validated queue query_id elapsed)) (started source queue)))" .
  have fresh: "x \<notin> set (started source queue)" using assms(2) by (auto simp: started_def)
  from 0 fresh sends_basic(3) obtain db t1 where 1: "liftS acquired (started source queue) = (Inr db, t1)"
    and r1: "x \<notin> set t1" "x \<in> set (snd (bindS (require_query_connection_policy db source) (\<lambda>_.
          execute_connection db source sql mrev validated queue query_id elapsed) t1))"
    by (rule bindS_reach)
  have "sends (\<lambda>st. st \<noteq> x) (require_query_connection_policy db source)"
    using assms(3) by (auto intro!: sends_intros)
  with r1(2,1) obtain u t2 where 2: "require_query_connection_policy db source t1 = (Inr u, t2)"
    and r2: "x \<in> set (snd (execute_connection db source sql mrev validated queue query_id elapsed t2))"
    by (rule bindS_reach)
  from that 1 2 r2 show thesis by (simp add: connection_policy_run)
qed

lemma connection_reached:
  assumes "x \<in> set (snd (execute_connection db source sql mrev validated queue query_id elapsed tr))"
    and "\<And>ev. x \<noteq> OPERATION ev" and "x \<noteq> CANCEL" and "x \<noteq> ROLLBACK"
  shows "x \<in> set (snd (query_transaction db source sql validated query_id tr))"
proof -
  have "x \<in> set (snd (catchS (query_transaction db source sql validated query_id) (abort_transaction db) tr))"
    using assms(1) unfolding execute_connection_def
    by (rule bindS_reach_first) (auto intro!: sends_intros assms(2) [symmetric])
  then show ?thesis
    by (rule catchS_reach) (use assms(3,4) in \<open>auto intro!: sends_intros\<close>)
qed

lemma query_reached:
  assumes "x \<in> set (snd (execute_query adm accepts acquired expired shutting source sql mrev validated queue query_id elapsed []))"
    and "\<And>ev. x \<noteq> OPERATION ev"
  shows "adm = Admitted \<and>
    x \<in> set (snd (execute_admitted acquired expired shutting source sql mrev validated queue query_id elapsed []))"
proof -
  have stop: "sends (\<lambda>st. st \<noteq> x) (\<lambda>tr. (if e = CancelledError
      then (if \<not> accepts tr then raiseS (AppErr QueryUnavailableError)
            else count_failure ''query_interrupted'' (source_id source) e) tr else raiseS e tr) :: (exc + query_result) \<times> statement list)"
    for e
    using assms(2) by (auto simp: sends_def count_failure_def bindS_def)
  have adm: "adm \<noteq> NotAccepting" using assms(1) by (auto simp: execute_query_def)
  with assms(1) have "x \<in> set (snd ((case adm of
           QueueTimeout \<Rightarrow>
             count_failure ''query_queue_rejected'' (source_id source) (AppErr QueryOverloadedError)
         | QueueCancelled \<Rightarrow> raiseS CancelledError
         | _ \<Rightarrow> execute_admitted acquired expired shutting source sql mrev validated
                  queue query_id elapsed) []))"
    unfolding execute_query_def by (intro catchS_reach [OF _ stop]) simp
  with adm assms(2) show ?thesis
    by (cases adm) (auto simp: count_failure_def bindS_def)
qed

section \<open>Properties\<close>

lemma gated_statement:
  assumes "x \<in> set (snd (execute_query adm accepts acquired expired shutting source sql mrev validated queue query_id elapsed []))"
    and "x = EXPLAIN_JSON s \<or> x = CURSOR_EXECUTE s"
  shows "s = sql \<and> adm = Admitted \<and> (\<exists>db t. acquired = Inr db \<and>
    require_reader_connection_policy db (sslmode (connection source)) = Inr () \<and>
    session_gated db source validated query_id (started source queue) t \<and>
    (x = CURSOR_EXECUTE s \<longrightarrow> (\<exists>plan. plan_admitted db source sql t plan)))"
proof -
  have x: "x \<noteq> OPERATION ev" "x \<noteq> CLOSE_CONNECTION" "x \<noteq> CANCEL" "x \<noteq> ROLLBACK" for ev
    using assms(2) by auto
  have a: "adm = Admitted" and
    1: "x \<in> set (snd (execute_admitted acquired expired shutting source sql mrev validated queue query_id elapsed []))"
    using query_reached [OF assms(1) x(1)] by simp_all
  obtain db where db: "acquired = Inr db" "require_reader_connection_policy db (sslmode (connection source)) = Inr ()"
    and 2: "x \<in> set (snd (execute_connection db source sql mrev validated queue query_id elapsed (started source queue)))"
    using admitted_reached [OF 1 x(1,2)] .
  from connection_reached [OF 2 x(1,3,4)]
  have 3: "x \<in> set (snd (query_transaction db source sql validated query_id (started source queue)))" .
  have "x \<notin> set (started source queue)" using x(1) by (auto simp: started_def)
  from 3 this obtain t where t: "session_gated db source validated query_id (started source queue) t"
    and fresh: "x \<notin> set t" and 4: "x \<in> set (snd (user_part db source sql t))"
    using assms(2) by (elim user_part_reached [where s = s]) auto
  have "x = CURSOR_EXECUTE s \<Longrightarrow> \<exists>plan. plan_admitted db source sql t plan"
    using fresh 4 cursor_after_admission [of s db source sql t] by blast
  with user_text [OF 4 fresh assms(2)] a db t show ?thesis by blast
qed

lemma gated_cursor:
  assumes "CURSOR_EXECUTE s \<in> set (snd (execute_query adm accepts acquired expired shutting source sql mrev validated queue query_id elapsed []))"
  obtains db t plan where "s = sql" and "acquired = Inr db"
    and "require_reader_connection_policy db (sslmode (connection source)) = Inr ()"
    and "session_gated db source validated query_id (started source queue) t"
    and "plan_admitted db source sql t plan"
  using gated_statement [OF assms, of s] by auto

text \<open>
  C2: nothing of the user reaches the server unchecked. Whatever the database answers, a plan
  request or a cursor is only ever sent for the validated text itself, on an admitted
  connection with the required policy, after the policy row of the session held in every
  column and every function and operator of the statement was found safe in the catalog of the
  server; and a cursor only after the plan of that text was read and is within the budget.
\<close>
theorem user_sql_gated:
  assumes "x \<in> set (snd (execute_query adm accepts acquired expired shutting source sql mrev validated queue query_id elapsed []))"
    and "x = EXPLAIN_JSON s \<or> x = CURSOR_EXECUTE s"
  shows "s = sql \<and> adm = Admitted \<and> (\<exists>db t. acquired = Inr db \<and>
    require_reader_connection_policy db (sslmode (connection source)) = Inr () \<and>
    session_gated db source validated query_id (started source queue) t \<and>
    (x = CURSOR_EXECUTE s \<longrightarrow> (\<exists>plan. plan_admitted db source sql t plan)))"
  by (rule gated_statement [OF assms])

section \<open>The transaction ends\<close>

lemma query_transaction_Inr:
  "query_transaction db source sql validated query_id tr = (Inr (plan, names, rows, n, trunc), t) \<longleftrightarrow>
     (\<exists>t1 t2. session_gated db source validated query_id tr t1 \<and> plan_admitted db source sql t1 plan \<and>
        (\<exists>a. reply db tr BEGIN_READ_ONLY = Inr a) \<and>
        (\<exists>a. reply db (tr @ [BEGIN_READ_ONLY]) SET_TIMEZONE_UTC = Inr a) \<and>
        (\<exists>a. reply db (tr @ [BEGIN_READ_ONLY, SET_TIMEZONE_UTC])
               (SET_QUERY_SESSION (query_session_values source query_id)) = Inr a) \<and>
        fetch_result db (budget source) sql (t1 @ [EXPLAIN_JSON sql]) = (Inr (names, rows, n, trunc), t2) \<and>
        reply db t2 CURSOR_CLOSE \<noteq> Inl CancelledError \<and>
        (\<exists>a. reply db (t2 @ [CURSOR_CLOSE]) COMMIT = Inr a) \<and>
        t = t2 @ [CURSOR_CLOSE, COMMIT, OPERATION (SetSourceQueryHealth (source_id source) Healthy)])"
  unfolding query_transaction_parts user_part_def
  by (auto simp: err_simps explain_Inr session_policy_Inr validate_resolved_Inr plan_admitted_def
      session_gated_def session_statements_def Let_def split: prod.splits)

text \<open>What a succeeded execution records, and the result it gives back.\<close>

definition succeeded :: "source_profile \<Rightarrow> int \<Rightarrow> bool \<Rightarrow> statement list" where
  "succeeded source elapsed trunc =
     [OPERATION (Increment ''query_execution_succeeded'' (Some (source_id source)) 1),
      OPERATION (Observe ''query_elapsed_ms'' elapsed (Some (source_id source)))]
     @ (if trunc then [OPERATION (Increment ''query_truncated'' (Some (source_id source)) 1)] else [])"

lemma abort_never_Inr [err_simps]: "abort_transaction db e tr \<noteq> (Inr x, t)"
  by (auto simp: abort_transaction_def err_simps)

lemma execute_connection_Inr:
  "execute_connection db source sql mrev validated queue query_id elapsed tr = (Inr q, t) \<longleftrightarrow>
     (\<exists>plan names rows n trunc t1.
        query_transaction db source sql validated query_id tr = (Inr (plan, names, rows, n, trunc), t1) \<and>
        t = t1 @ succeeded source elapsed trunc \<and>
        q = \<lparr>result_query_id = query_id, result_metadata_revision = mrev,
          result_fingerprint = fingerprint validated, result_column_names = names, result_rows = rows,
          row_count = length rows, result_bytes = n, truncated = trunc, queue_ms = queue,
          elapsed_ms = elapsed, plan_summary_of = plan\<rparr>)"
proof -
  have run: "bindS (emit (Increment ''query_execution_succeeded'' (Some (source_id source)) 1)) (\<lambda>_.
     bindS (emit (Observe ''query_elapsed_ms'' elapsed (Some (source_id source)))) (\<lambda>_.
     bindS (if trunc then emit (Increment ''query_truncated'' (Some (source_id source)) 1) else returnS ()) (\<lambda>_.
     returnS r))) t1 = (Inr r, t1 @ succeeded source elapsed trunc)" for r :: query_result and trunc t1
    by (simp add: bindS_def succeeded_def)
  show ?thesis
    unfolding execute_connection_def bindS_Inr
    by (simp add: run catchS_Inr abort_never_Inr split: prod.split) blast
qed

lemma execute_admitted_Inr:
  "execute_admitted acquired expired shutting source sql mrev validated queue query_id elapsed tr = (Inr q, t) \<longleftrightarrow>
     (\<exists>db. acquired = Inr db \<and> require_reader_connection_policy db (sslmode (connection source)) = Inr () \<and>
        execute_connection db source sql mrev validated queue query_id elapsed (tr @ started source queue) = (Inr q, t))"
  unfolding execute_admitted_run
  by (auto simp: catchS_Inr bindS_Inr map_query_failure_run connection_policy_run split: if_splits)

lemma execute_query_Inr:
  "execute_query adm accepts acquired expired shutting source sql mrev validated queue query_id elapsed tr = (Inr q, t) \<longleftrightarrow>
     adm = Admitted \<and>
     execute_admitted acquired expired shutting source sql mrev validated queue query_id elapsed tr = (Inr q, t)"
  by (cases adm) (auto simp: execute_query_def catchS_Inr count_failure_def bindS_Inr split: if_splits)

section \<open>The result and the end of the transaction\<close>

lemma fetch_result_Inr:
  assumes "fetch_result db b sql tr = (Inr (names, rows, n, trunc), t)"
  shows "\<exists>cols sts k. reply db tr (CURSOR_EXECUTE sql) = Inr (Description (Inr cols)) \<and>
    map result_name cols = map Some names \<and> distinct names \<and>
    require_supported_result_oids (Inr (map type_code cols) :: exc + pyval list) = Inr () \<and>
    t = tr @ CURSOR_EXECUTE sql # sts \<and> list_all is_fetch sts \<and>
    (let ds = delivered db (tr @ [CURSOR_EXECUTE sql]) sts in
       k \<le> length ds \<and> encodes (take k ds) rows \<and> (trunc \<longleftrightarrow> k < length ds)) \<and>
    n = rows_bytes rows \<and>
    (rows \<noteq> [] \<longrightarrow> n \<le> max_result_bytes b \<and> int (length rows) \<le> max_result_rows b)"
proof -
  from assms obtain d where d: "reply db tr (CURSOR_EXECUTE sql) = Inr (Description d)"
    and cols: "result_columns d = Inr names"
    and fetch: "fetch_rows db b [] 2 (tr @ [CURSOR_EXECUTE sql]) = (Inr (rows, n, trunc), t)"
    unfolding fetch_result_def by (auto simp: err_simps)
  from cols obtain cs where cs: "d = Inr cs" "those (map result_name cs) = Some names" "distinct names"
    "require_supported_result_oids (Inr (map type_code cs) :: exc + pyval list) = Inr ()"
    by (auto simp: result_columns_def err_simps split: sum.splits option.splits if_splits)
  have names: "map result_name cs = map Some names" using cs(2) by (simp add: those_Some)
  from fetch_rows_correct [OF fetch] obtain sts k where
    "t = (tr @ [CURSOR_EXECUTE sql]) @ sts" "list_all is_fetch sts"
    "k \<le> length (delivered db (tr @ [CURSOR_EXECUTE sql]) sts)"
    "encodes (take k (delivered db (tr @ [CURSOR_EXECUTE sql]) sts)) rows"
    "n = rows_bytes rows" "trunc \<longleftrightarrow> k < length (delivered db (tr @ [CURSOR_EXECUTE sql]) sts)"
    "rows \<noteq> [] \<longrightarrow> n \<le> max_result_bytes b \<and> int (length rows) \<le> max_result_rows b" by auto
  with d cs names show ?thesis
    by (intro exI [of _ cs] exI [of _ sts] exI [of _ k]) (simp add: Let_def)
qed

text \<open>
  C6: the result. The rows of a returned result are the encodings of the first rows the cursor
  delivered for the validated text, in order, within both limits of the budget; the reported
  count and size are exactly theirs, with the size that of the JSON text of the rows; the result
  is marked truncated exactly when a delivered row was left out; column names are distinct and
  column types approved; and the transaction was committed before the result was returned.
\<close>
theorem result_bounded_and_exact:
  assumes "execute_query adm accepts acquired expired shutting source sql mrev validated queue query_id elapsed [] = (Inr q, t)"
    and "0 \<le> max_result_rows (budget source)" and "2 \<le> max_result_bytes (budget source)"
  shows "int (row_count q) \<le> max_result_rows (budget source) \<and> result_bytes q \<le> max_result_bytes (budget source) \<and>
    row_count q = length (result_rows q) \<and> result_bytes q = int (length (json_dumps (SeqV (result_rows q)))) \<and>
    distinct (result_column_names q) \<and>
    (\<exists>db pre cols sts k evs. acquired = Inr db \<and>
      t = pre @ CURSOR_EXECUTE sql # sts @ [CURSOR_CLOSE, COMMIT] @ evs \<and> list_all is_fetch sts \<and>
      list_all (\<lambda>st. \<exists>ev. st = OPERATION ev) evs \<and>
      reply db pre (CURSOR_EXECUTE sql) = Inr (Description (Inr cols)) \<and>
      map result_name cols = map Some (result_column_names q) \<and>
      require_supported_result_oids (Inr (map type_code cols) :: exc + pyval list) = Inr () \<and>
      (let ds = delivered db (pre @ [CURSOR_EXECUTE sql]) sts in k \<le> length ds \<and>
         map (\<lambda>r. encode_result_value (CellMapping r)) (take k ds) = map Inr (result_rows q) \<and>
         (truncated q \<longleftrightarrow> k < length ds)))"
proof -
  from assms(1) obtain db plan names rows n trunc t1 where
    tx: "query_transaction db source sql validated query_id (started source queue) = (Inr (plan, names, rows, n, trunc), t1)"
    and t: "t = t1 @ succeeded source elapsed trunc" and db: "acquired = Inr db"
    and q: "result_column_names q = names" "result_rows q = rows" "row_count q = length rows" "result_bytes q = n"
      "truncated q = trunc"
    unfolding execute_query_Inr execute_admitted_Inr execute_connection_Inr by auto
  from tx obtain t0 t2 where fetch: "fetch_result db (budget source) sql (t0 @ [EXPLAIN_JSON sql]) = (Inr (names, rows, n, trunc), t2)"
    and t1: "t1 = t2 @ [CURSOR_CLOSE, COMMIT, OPERATION (SetSourceQueryHealth (source_id source) Healthy)]"
    unfolding query_transaction_Inr by blast
  let ?pre = "t0 @ [EXPLAIN_JSON sql]"
  from fetch_result_Inr [OF fetch] obtain cols sts k where
    R: "reply db ?pre (CURSOR_EXECUTE sql) = Inr (Description (Inr cols))"
    "map result_name cols = map Some names" "distinct names"
    "require_supported_result_oids (Inr (map type_code cols) :: exc + pyval list) = Inr ()"
    "t2 = ?pre @ CURSOR_EXECUTE sql # sts" "list_all is_fetch sts"
    "let ds = delivered db (?pre @ [CURSOR_EXECUTE sql]) sts in k \<le> length ds \<and> encodes (take k ds) rows \<and>
       (trunc \<longleftrightarrow> k < length ds)"
    "n = rows_bytes rows"
    "rows \<noteq> [] \<longrightarrow> n \<le> max_result_bytes (budget source) \<and> int (length rows) \<le> max_result_rows (budget source)"
    by blast
  have limits: "int (row_count q) \<le> max_result_rows (budget source)" "result_bytes q \<le> max_result_bytes (budget source)"
    using R(8,9) assms(2,3) q by (cases "rows = []"; simp)+
  have "t = ?pre @ CURSOR_EXECUTE sql # sts @ [CURSOR_CLOSE, COMMIT]
      @ OPERATION (SetSourceQueryHealth (source_id source) Healthy) # succeeded source elapsed trunc"
    using t t1 R(5) by simp
  moreover have "list_all (\<lambda>st. \<exists>ev. st = OPERATION ev)
      (OPERATION (SetSourceQueryHealth (source_id source) Healthy) # succeeded source elapsed trunc)"
    by (simp add: succeeded_def)
  moreover note R(1,2,3,4,6,7)
  ultimately show ?thesis using limits q db R(8) unfolding rows_bytes_def
    by (intro conjI) (fast | simp)+
qed

text \<open>What remains of a failed transaction.\<close>

lemma abort_transaction_run:
  "abort_transaction db e tr =
     (if e \<noteq> CancelledError then
        (Inl (if reply db tr ROLLBACK = Inl CancelledError then CancelledError else e), tr @ [ROLLBACK])
      else (case reply db tr CANCEL of
              Inl e' \<Rightarrow> (Inl e', tr @ [CANCEL])
            | Inr a \<Rightarrow> (Inl CancelledError, tr @ [CANCEL, ROLLBACK])))"
  by (cases "reply db tr ROLLBACK"; cases "reply db (tr @ [CANCEL]) ROLLBACK")
    (auto simp: abort_transaction_def bindS_def quietly_def catchS_def split: sum.splits elim: is_exception.elims)

lemma execute_connection_run:
  "execute_connection db source sql mrev validated queue query_id elapsed tr =
     (case query_transaction db source sql validated query_id tr of
        (Inl e, t) \<Rightarrow> abort_transaction db e t
      | (Inr (plan, names, rows, n, trunc), t) \<Rightarrow>
          (Inr \<lparr>result_query_id = query_id, result_metadata_revision = mrev,
             result_fingerprint = fingerprint validated, result_column_names = names, result_rows = rows,
             row_count = length rows, result_bytes = n, truncated = trunc, queue_ms = queue,
             elapsed_ms = elapsed, plan_summary_of = plan\<rparr>, t @ succeeded source elapsed trunc))"
proof (cases "query_transaction db source sql validated query_id tr")
  case (Pair r t)
  show ?thesis
  proof (cases r)
    case (Inl e)
    with Pair show ?thesis
      by (auto simp: execute_connection_def bindS_def catchS_def abort_transaction_run split: sum.splits)
  next
    case (Inr x)
    with Pair show ?thesis
      by (cases x) (simp add: execute_connection_def bindS_def catchS_def succeeded_def)
  qed
qed

text \<open>
  C30: a transaction never stays open. Whatever fails, an execution on a connection begins a
  read-only transaction and either returns a result after one acknowledged commit and no
  rollback, with nothing sent to the server after it; or raises, and then the last statement
  sent is the rollback, or the cancel request that itself could not be delivered.
\<close>
theorem transaction_closed:
  "case execute_connection db source sql mrev validated queue query_id elapsed tr of
     (Inr q, t) \<Rightarrow> (\<exists>body a evs. t = tr @ BEGIN_READ_ONLY # body @ COMMIT # evs \<and>
        reply db (tr @ BEGIN_READ_ONLY # body) COMMIT = Inr a \<and>
        list_all (\<lambda>st. st \<noteq> ROLLBACK \<and> st \<noteq> COMMIT) body \<and> list_all (\<lambda>st. \<exists>ev. st = OPERATION ev) evs)
   | (Inl e, t) \<Rightarrow> (\<exists>body. t = tr @ BEGIN_READ_ONLY # body) \<and>
        (last t = ROLLBACK \<or> last t = CANCEL \<and> reply db (butlast t) CANCEL = Inl e)"
proof -
  obtain r t where run: "query_transaction db source sql validated query_id tr = (r, t)" by fastforce
  have begins: "\<exists>body. t = tr @ BEGIN_READ_ONLY # body"
  proof -
    let ?rest = "\<lambda>_. bindS (execute db SET_TIMEZONE_UTC) (\<lambda>_.
     bindS (execute db (SET_QUERY_SESSION (query_session_values source query_id))) (\<lambda>_.
     bindS (require_reader_session_policy db source '''') (\<lambda>_.
     bindS (validate_resolved_objects db validated) (\<lambda>_. user_part db source sql))))"
    have rest: "sends (\<lambda>_. True) (?rest x)" for x
      by (intro sends_intros user_part_sends TrueI)
    show ?thesis
    proof (cases "reply db tr BEGIN_READ_ONLY")
      case Inl
      with run show ?thesis by (auto simp: query_transaction_parts bindS_def)
    next
      case (Inr a)
      with run have "?rest a (tr @ [BEGIN_READ_ONLY]) = (r, t)"
        by (simp add: query_transaction_parts bindS_def)
      with rest show ?thesis by (rule sendsE) auto
    qed
  qed
  show ?thesis
  proof (cases r)
    case (Inl e)
    with run begins show ?thesis
      unfolding execute_connection_run by (auto simp: abort_transaction_run split: sum.splits)
  next
    case (Inr x)
    then obtain plan names rows n trunc where x: "r = Inr (plan, names, rows, n, trunc)" by (cases x) auto
    from run [unfolded x query_transaction_Inr] obtain t1 t2 a where
      gated: "session_gated db source validated query_id tr t1" and
      fetch: "fetch_result db (budget source) sql (t1 @ [EXPLAIN_JSON sql]) = (Inr (names, rows, n, trunc), t2)" and
      commit: "reply db (t2 @ [CURSOR_CLOSE]) COMMIT = Inr a" and
      t: "t = t2 @ [CURSOR_CLOSE, COMMIT, OPERATION (SetSourceQueryHealth (source_id source) Healthy)]"
      by blast
    let ?inner = "\<lambda>st. st \<noteq> ROLLBACK \<and> st \<noteq> COMMIT"
    from gated obtain b1 where b1: "t1 = tr @ BEGIN_READ_ONLY # b1" "list_all ?inner b1"
      by (auto simp: session_gated_def session_statements_def resolved_statements_def Let_def)
    have "sends ?inner (fetch_result db (budget source) sql)" by (auto intro!: sends_intros)
    then obtain b2 where b2: "t2 = (t1 @ [EXPLAIN_JSON sql]) @ b2" "list_all ?inner b2"
      using fetch by (rule sendsE)
    let ?body = "b1 @ EXPLAIN_JSON sql # b2 @ [CURSOR_CLOSE]"
    let ?evs = "OPERATION (SetSourceQueryHealth (source_id source) Healthy) # succeeded source elapsed trunc"
    have "t @ succeeded source elapsed trunc = tr @ BEGIN_READ_ONLY # ?body @ COMMIT # ?evs"
      using t b1 b2 by simp
    moreover have "list_all ?inner ?body" using b1 b2 by simp
    moreover have "list_all (\<lambda>st. \<exists>ev. st = OPERATION ev) ?evs" by (simp add: succeeded_def)
    moreover have "reply db (tr @ BEGIN_READ_ONLY # ?body) COMMIT = Inr a" using commit b1 b2 by simp
    ultimately show ?thesis unfolding execute_connection_run run x prod.case sum.case by blast
  qed
qed

section \<open>Failures\<close>

abbreviation counted_success :: "source_profile \<Rightarrow> statement" where
  "counted_success source \<equiv> OPERATION (Increment ''query_execution_succeeded'' (Some (source_id source)) 1)"

fun query_error :: "app_error \<Rightarrow> bool" where
  "query_error (QueryRejectedError reason c) = True"
| "query_error (QueryInvalidError reason m) = True"
| "query_error QueryOverloadedError = True"
| "query_error QueryTimeoutError = True"
| "query_error QueryUnavailableError = True"
| "query_error a = False"

lemma public_failure_cases:
  obtains "public_failure e = CancelledError" "e = CancelledError"
    | a where "public_failure e = AppErr a" "query_error a"
proof (cases e)
  case (AppErr a)
  then show thesis using that by (cases a) auto
next
  case (DbErr k state)
  then show thesis using that by (cases k) auto
qed (use that in auto)

lemma failure_not_success: "counted_success source \<notin> set (failure_events sid shutdown e)"
proof -
  have "failure_counter shutdown e \<noteq> Some ''query_execution_succeeded''"
    by (cases "(shutdown, e)" rule: failure_counter.cases) auto
  then show ?thesis by (auto simp: failure_events_def split: option.splits)
qed

lemma transaction_not_success: "sends (\<lambda>st. st \<noteq> counted_success source) (query_transaction db source sql validated query_id)"
  unfolding query_transaction_def raise_query_invalid_for_user_sql_def
  by (auto intro!: sends_intros split: option.splits)

lemma connection_success:
  assumes "execute_connection db source sql mrev validated queue query_id elapsed tr = (r, t)"
    and "counted_success source \<notin> set tr"
  shows "count_list t (counted_success source) = (case r of Inr q \<Rightarrow> 1 | Inl e \<Rightarrow> 0)"
proof -
  obtain r1 t1 where run: "query_transaction db source sql validated query_id tr = (r1, t1)" by fastforce
  with transaction_not_success obtain sts where "t1 = tr @ sts"
    "list_all (\<lambda>st. st \<noteq> counted_success source) sts" by (rule sendsE)
  with assms(2) have none: "count_list t1 (counted_success source) = 0"
    by (auto simp: count_list_0_iff list_all_iff)
  show ?thesis
  proof (cases r1)
    case (Inl e)
    with assms(1) run none show ?thesis
      unfolding execute_connection_run by (auto simp: abort_transaction_run split: sum.splits if_splits)
  next
    case (Inr x)
    with assms(1) run none show ?thesis
      unfolding execute_connection_run by (cases x) (auto simp: succeeded_def)
  qed
qed

lemma admitted_outcome:
  assumes "execute_admitted acquired expired shutting source sql mrev validated queue query_id elapsed [] = (r, t)"
  shows "count_list t (counted_success source) = (case r of Inr q \<Rightarrow> 1 | Inl e \<Rightarrow> 0) \<and>
    (\<forall>e. r = Inl e \<longrightarrow> e = CancelledError \<or> (\<exists>a. e = AppErr a \<and> query_error a))"
proof -
  let ?S = "counted_success source"
  let ?body = "bindS (liftS acquired) (\<lambda>db. bindS (require_query_connection_policy db source) (\<lambda>_.
          execute_connection db source sql mrev validated queue query_id elapsed))"
  obtain r1 t1 where body: "?body (started source queue) = (r1, t1)" by fastforce
  have start: "?S \<notin> set (started source queue)" by (simp add: started_def)
  have c: "count_list t1 ?S = (case r1 of Inr q \<Rightarrow> 1 | Inl e \<Rightarrow> 0)"
  proof (cases acquired)
    case Inl
    with body start show ?thesis by (auto simp: bindS_def count_list_0_iff)
  next
    case (Inr db)
    obtain r2 t2 where pol: "require_query_connection_policy db source (started source queue) = (r2, t2)" by fastforce
    have "sends (\<lambda>st. st \<noteq> ?S) (require_query_connection_policy db source)" by (auto intro!: sends_intros)
    from this pol obtain sts where "t2 = started source queue @ sts" "list_all (\<lambda>st. st \<noteq> ?S) sts" by (rule sendsE)
    with start have free: "?S \<notin> set t2" by (auto simp: list_all_iff)
    show ?thesis
    proof (cases r2)
      case Inl
      with body Inr pol free show ?thesis by (auto simp: bindS_def count_list_0_iff)
    next
      case (Inr u)
      with body \<open>acquired = Inr db\<close> pol
      have "execute_connection db source sql mrev validated queue query_id elapsed t2 = (r1, t1)"
        by (simp add: bindS_def)
      from connection_success [OF this free] show ?thesis .
    qed
  qed
  show ?thesis
  proof (cases r1)
    case (Inr q)
    with assms body c show ?thesis by (auto simp: execute_admitted_run catchS_def)
  next
    case (Inl e)
    then obtain e' where "map_query_failure (source_id source) shutting e' t1 = (r, t)"
      using assms body unfolding execute_admitted_run catchS_def by (cases "e = CancelledError \<and> expired t1") auto
    then have rt: "r = Inl (public_failure e')" "t = t1 @ failure_events (source_id source) (shutting t1) e'"
      by (simp_all add: map_query_failure_run)
    have "count_list (failure_events (source_id source) (shutting t1) e') ?S = 0"
      using failure_not_success by (simp add: count_list_0_iff)
    then show ?thesis using rt c Inl by (cases e' rule: public_failure_cases) auto
  qed
qed

text \<open>
  C31: the outcome of a query. Whatever the database raises, a query that does not return fails
  with one of the five public query errors, or is cancelled, and a cancellation while the
  executor accepts queries is counted as an interruption; a success is counted exactly once when
  a result is returned and never otherwise.
\<close>
theorem query_outcome_public:
  "case execute_query adm accepts acquired expired shutting source sql mrev validated queue query_id elapsed [] of
     (Inr q, t) \<Rightarrow> count_list t (counted_success source) = 1
   | (Inl e, t) \<Rightarrow> count_list t (counted_success source) = 0 \<and>
       (e = CancelledError \<and> t \<noteq> [] \<and> accepts (butlast t) \<and>
          last t = OPERATION (Increment ''query_interrupted'' (Some (source_id source)) 1)
        \<or> (\<exists>a. e = AppErr a \<and> query_error a))"
proof (cases "adm = Admitted")
  case False
  then show ?thesis
    by (cases adm) (auto simp: execute_query_def catchS_def count_failure_def bindS_def split: if_splits)
next
  case True
  obtain r t where run: "execute_admitted acquired expired shutting source sql mrev validated queue query_id elapsed [] = (r, t)"
    by fastforce
  note out = admitted_outcome [OF run]
  show ?thesis
  proof (cases r)
    case (Inr q)
    with run out True show ?thesis by (simp add: execute_query_def catchS_def)
  next
    case (Inl e)
    with run out True show ?thesis
      by (auto simp: execute_query_def catchS_def count_failure_def bindS_def)
  qed
qed

section \<open>A concrete query\<close>

text \<open>A server that finds everything safe and delivers three rows, one more than the budget has.\<close>

fun example_query_reply :: "statement list \<Rightarrow> statement \<Rightarrow> exc + answer" where
  "example_query_reply tr (CHECK_SESSION_POLICY args) =
     Inr (PolicyRow (Some [(''read_only'', BoolV True)]))"
| "example_query_reply tr (FUNCTION_POLICY fs) = Inr (ObjectRows (map (\<lambda>f. (f, BoolV True)) fs))"
| "example_query_reply tr (OPERATOR_POLICY fs) = Inr (ObjectRows (map (\<lambda>f. (f, BoolV True)) fs))"
| "example_query_reply tr (EXPLAIN_JSON sql) =
     Inr (PlanRow (Some [(''QUERY PLAN'', PList [PDict [(''Plan'', PDict example_plan)]])]))"
| "example_query_reply tr (CURSOR_EXECUTE sql) =
     Inr (Description (Inr [\<lparr>result_name = Some ''n'', type_code = IntV 23\<rparr>]))"
| "example_query_reply tr (CURSOR_FETCH n) =
     Inr (Batch (map (\<lambda>i. [(StrKey ''n'', CellInt i)]) [7, 8, 9]))"
| "example_query_reply tr st = Inr Done"

definition example_query_db :: database where
  "example_query_db = \<lparr>conn_info = Inr example_info, reply = example_query_reply\<rparr>"

definition example_execution :: "string \<Rightarrow> string \<Rightarrow> validated_sql \<Rightarrow> query_result session" where
  "example_execution sql mrev v = execute_query Admitted (\<lambda>_. True) (Inr example_query_db) (\<lambda>_. False)
     (\<lambda>_. False) example_source sql mrev v 3 ''q1'' 12"

lemma all_safe: "safe_objects (map (\<lambda>f. (f, BoolV True)) fs) = set fs"
  by (induction fs) (simp_all add: safe_objects_def)

lemma example_fetch:
  "\<exists>res t. fetch_result example_query_db example_budget sql tr = (Inr res, t)"
proof -
  have "require_supported_result_oids (Inr [IntV 23] :: exc + pyval list) = Inr ()"
    by (simp add: require_supported_result_oids_def ALLOWED_RESULT_OIDS_def RESULT_OID_PAIRS_def raise_if_def)
  then show ?thesis
    by (auto simp: fetch_result_def bindS_def query_def description_of_def example_query_db_def result_columns_def
        raise_if_def fetch_rows_more batch_of_def example_budget_def is_str_key_def)
qed

lemma example_execution_succeeds:
  "\<exists>q t. example_execution sql mrev v [] = (Inr q, t) \<and> CURSOR_EXECUTE sql \<in> set t"
proof -
  have policy: "require_reader_connection_policy example_query_db (sslmode (connection example_source)) = Inr ()"
    by (simp add: require_reader_connection_policy_def example_query_db_def example_info_def raise_if_def
        READER_CLIENT_ENCODING_def example_source_def)
  have ready: "\<exists>a. reply example_query_db tr BEGIN_READ_ONLY = Inr a"
    "\<exists>a. reply example_query_db tr SET_TIMEZONE_UTC = Inr a"
    "\<exists>a. reply example_query_db tr (SET_QUERY_SESSION vs) = Inr a"
    "reply example_query_db tr CURSOR_CLOSE \<noteq> Inl CancelledError"
    "\<exists>a. reply example_query_db tr COMMIT = Inr a" for tr vs
    by (simp_all add: example_query_db_def)
  have gated: "\<exists>t. session_gated example_query_db example_source v query_id tr t" for query_id tr
    by (simp add: session_gated_def example_query_db_def objects_safe_def all_safe Let_def
        resolved_functions_def resolved_operators_def)
  have plan: "\<exists>plan. plan_admitted example_query_db example_source sql t plan" for t
    using example_summary
    by (auto simp: plan_admitted_def example_query_db_def extract_plan_def admit_plan_Inr example_source_def
        example_budget_def)
  have budget_of: "budget example_source = example_budget" by (simp add: example_source_def)
  obtain t1 where g: "session_gated example_query_db example_source v ''q1'' (started example_source 3) t1"
    using gated by blast
  obtain plan0 where p: "plan_admitted example_query_db example_source sql t1 plan0" using plan by blast
  obtain res t2 where f: "fetch_result example_query_db (budget example_source) sql (t1 @ [EXPLAIN_JSON sql]) = (Inr res, t2)"
    unfolding budget_of using example_fetch by blast
  obtain names rows n trunc where res: "res = (names, rows, n, trunc)" by (cases res)
  obtain t where tx: "query_transaction example_query_db example_source sql v ''q1'' (started example_source 3)
      = (Inr (plan0, names, rows, n, trunc), t)" and t: "set t2 \<subseteq> set t"
    unfolding query_transaction_Inr using g p f [unfolded res] ready by fastforce
  have "CURSOR_EXECUTE sql \<in> set t" using fetch_result_Inr [OF f [unfolded res]] t by auto
  with tx policy show ?thesis
    unfolding example_execution_def execute_query_Inr execute_admitted_Inr execute_connection_Inr by auto
qed

definition example_validated :: validated_sql where
  "example_validated = \<lparr>fingerprint = ''pg_query:f'', validated_relations = [''api.orders''],
     validated_functions = [''pg_catalog.count'', ''count''], validated_operators = [''='']\<rparr>"

theorem result_bounded_and_exact_witness:
  "\<exists>q t. example_execution ''SELECT n FROM api.orders'' ''r1'' example_validated [] = (Inr q, t) \<and>
     row_count q \<le> 2 \<and> result_bytes q \<le> 1000"
proof -
  obtain q t where run: "example_execution ''SELECT n FROM api.orders'' ''r1'' example_validated [] = (Inr q, t)"
    using example_execution_succeeds by blast
  from result_bounded_and_exact [OF run [unfolded example_execution_def]] run show ?thesis
    by (auto simp: example_source_def example_budget_def)
qed

theorem user_sql_gated_witness:
  "\<exists>t plan. session_gated example_query_db example_source example_validated ''q1'' (started example_source 3) t \<and>
     plan_admitted example_query_db example_source ''SELECT n FROM api.orders'' t plan"
proof -
  have "CURSOR_EXECUTE ''SELECT n FROM api.orders'' \<in>
      set (snd (example_execution ''SELECT n FROM api.orders'' ''r1'' example_validated []))"
    using example_execution_succeeds [of "''SELECT n FROM api.orders''" "''r1''" example_validated] by auto
  from user_sql_gated [OF this [unfolded example_execution_def] disjI2 [OF refl]] show ?thesis by auto
qed

end
