(* ===== verification/Catalog.thy ===== *)
theory Catalog
  imports ReaderPolicy
begin

text \<open>
  \<open>src/query_man/metadata/catalog.py\<close>: reading the published views of a source from the
  PostgreSQL catalog. The comment of a view carries its contract marker; rows of the catalog
  query are grouped into relations; the load runs in one read-only transaction behind the
  connection and session policies and is bounded by the budget of the source.
\<close>

section \<open>Identifiers and comments\<close>

definition quote_identifier :: "string \<Rightarrow> string" where
  "quote_identifier s =
     CHR 0x22 # concat (map (\<lambda>c. if c = CHR 0x22 then [CHR 0x22, CHR 0x22] else [c]) s) @ [CHR 0x22]"

definition control_char :: "char \<Rightarrow> bool" where
  "control_char c \<longleftrightarrow> (let n = (of_char c :: nat) in n < 32 \<and> n \<notin> {9, 10, 13} \<or> n = 127)"

definition sanitize_comment :: "string option \<Rightarrow> string option" where
  "sanitize_comment comment =
     (case comment of
        None \<Rightarrow> None
      | Some s \<Rightarrow>
          (let sanitized = py_strip (map (\<lambda>c. if control_char c then CHR '' '' else c) s);
               short = py_take 2000 sanitized
           in if short = [] then None else Some short))"

text \<open>The contract marker, \<open>query-man:source=<slug>;view-contract=<version>\<close>, as a whole line.\<close>

definition version_digits :: "string \<Rightarrow> bool" where
  "version_digits v \<longleftrightarrow> v \<noteq> [] \<and> hd v \<noteq> CHR ''0'' \<and> list_all is_digit v"

definition match_marker :: "string \<Rightarrow> (string \<times> string) option" where
  "match_marker line =
     (case strip_prefix ''query-man:source='' line of
        None \<Rightarrow> None
      | Some rest \<Rightarrow>
          (let source = takeWhile (\<lambda>c. c \<noteq> CHR '';'') rest in
           case strip_prefix '';view-contract='' (dropWhile (\<lambda>c. c \<noteq> CHR '';'') rest) of
             None \<Rightarrow> None
           | Some version \<Rightarrow>
               if is_slug source \<and> version_digits version then Some (source, version) else None))"

text \<open>\<open>int(text)\<close> refuses more than 4300 digits.\<close>

definition py_int_digits :: "string \<Rightarrow> exc + int" where
  "py_int_digits v =
     (if length v > 4300 then Inl (OtherException ''ValueError'') else Inr (int (digits_value v)))"

definition parse_view_comment ::
  "string option \<Rightarrow> exc + (string option \<times> int option \<times> string option)" where
  "parse_view_comment comment =
     (case comment of
        None \<Rightarrow> Inr (None, None, None)
      | Some s \<Rightarrow>
          (let first = takeWhile (\<lambda>c. c \<noteq> CHR 0x0A) s;
               rest = dropWhile (\<lambda>c. c \<noteq> CHR 0x0A) s;
               first_line = (if py_ends [CHR 0x0D] first then butlast first else first)
           in case match_marker first_line of
                None \<Rightarrow> Inl (CatalogValidationError ''View comment has an invalid contract marker'')
              | Some (source, version) \<Rightarrow>
                  (case sanitize_comment (if rest = [] then None else Some (tl rest)) of
                     None \<Rightarrow> Inl (CatalogValidationError ''View comment requires a human description'')
                   | Some human_description \<Rightarrow>
                       bindE (py_int_digits version) (\<lambda>v.
                         Inr (Some source, Some v, Some human_description)))))"

section \<open>From rows to relations\<close>

definition row_name :: "catalog_row \<Rightarrow> string" where
  "row_name row = row_schema row @ ''.'' @ row_relation row"

definition column_of_row :: "catalog_row \<Rightarrow> catalog_column" where
  "column_of_row row =
     \<lparr>column_name = row_column row, column_sql_name = quote_identifier (row_column row),
      ordinal = row_ordinal row, data_type = row_data_type row, nullable = NullableUnknown,
      column_comment = sanitize_comment (row_column_comment row)\<rparr>"

definition new_relation :: "catalog_row \<Rightarrow> exc + catalog_relation" where
  "new_relation row =
     (if row_kind row \<noteq> ''v'' then Inl (CatalogValidationError ''Catalog returned a non-view relation'')
      else bindE (parse_view_comment (row_relation_comment row))
        (\<lambda>(contract_source, contract_version, comment).
          Inr \<lparr>schema = row_schema row, relation_name = row_relation row,
               qualified_name = row_name row,
               relation_sql_name =
                 quote_identifier (row_schema row) @ ''.'' @ quote_identifier (row_relation row),
               relation_kind = ''view'', columns = [], relation_comment = comment,
               definition_hash = row_definition_hash row, view_contract_source = contract_source,
               relation_contract_version = contract_version,
               security_invoker = row_security_invoker row,
               security_barrier = row_security_barrier row\<rparr>))"

definition add_row ::
  "(string, catalog_relation) dict \<Rightarrow> catalog_row \<Rightarrow> exc + (string, catalog_relation) dict" where
  "add_row rels row =
     bindE (case map_of rels (row_name row) of Some relation \<Rightarrow> Inr relation | None \<Rightarrow> new_relation row)
       (\<lambda>relation. Inr (AList.update (row_name row)
          (relation\<lparr>columns := columns relation @ [column_of_row row]\<rparr>) rels))"

definition rows_to_relations :: "catalog_row list \<Rightarrow> exc + catalog_relation list" where
  "rows_to_relations rows =
     bindE (foldE add_row [] rows) (\<lambda>rels. Inr (sort_key qualified_name (map snd rels)))"

definition require_supported_catalog_types :: "catalog_row list \<Rightarrow> exc + unit" where
  "require_supported_catalog_types rows =
     raise_if (list_ex (\<lambda>row. row_type_kind row = ''d'') rows)
       (CatalogValidationError ''Catalog contains an unsupported domain column'')"

section \<open>Loading a catalog\<close>

definition ms_text :: "int \<Rightarrow> string" where
  "ms_text n = int_str n @ ''ms''"

definition catalog_session_values :: "source_profile \<Rightarrow> string list" where
  "catalog_session_values source =
     [ms_text (metadata_statement_timeout_ms (budget source)), ms_text (lock_timeout_ms (budget source))]
     @ reader_session_budget_values source"

definition begin_catalog_transaction :: "database \<Rightarrow> source_profile \<Rightarrow> unit session" where
  "begin_catalog_transaction db source =
     bindS (execute db BEGIN_READ_ONLY) (\<lambda>_.
     bindS (catchS
         (bindS (execute db SET_TIMEZONE_UTC) (\<lambda>_.
          bindS (execute db (SET_CATALOG_SESSION (catalog_session_values source))) (\<lambda>_. returnS ())))
         (\<lambda>e. raiseS (if is_exception e then ReaderSessionPolicyError else e))) (\<lambda>_.
     require_reader_session_policy db source ''''))"

definition require_catalog_connection_policy :: "database \<Rightarrow> source_profile \<Rightarrow> unit session" where
  "require_catalog_connection_policy db source =
     catchS (liftS (require_reader_connection_policy db (sslmode (connection source))))
       (\<lambda>e. if e = ReaderSessionPolicyError
             then bindS (quietly db CLOSE_CONNECTION) (\<lambda>_. raiseS e) else raiseS e)"

definition catalog_transaction :: "database \<Rightarrow> source_profile \<Rightarrow> catalog_row list session" where
  "catalog_transaction db source =
     catchS
       (bindS (begin_catalog_transaction db source) (\<lambda>_.
        bindS (query db (CATALOG_ROWS (allowed_schemas source) [''v'']
                           (max_metadata_columns (budget source) + 1)) catalog_of) (\<lambda>rows.
        bindS (liftS (raise_if (int (length rows) > max_metadata_columns (budget source))
                 (CatalogValidationError ''Catalog column limit exceeded''))) (\<lambda>_.
        bindS (liftS (require_supported_catalog_types rows)) (\<lambda>_.
        bindS (execute db COMMIT) (\<lambda>_. returnS rows))))))
       (\<lambda>e. if is_exception e then bindS (quietly db ROLLBACK) (\<lambda>_. raiseS e) else raiseS e)"

definition catalog_snapshot_of_rows :: "source_profile \<Rightarrow> catalog_row list \<Rightarrow> exc + catalog_snapshot" where
  "catalog_snapshot_of_rows source rows =
     bindE (rows_to_relations rows) (\<lambda>rels.
     bindE (raise_if (int (length rels) > max_metadata_relations (budget source))
              (CatalogValidationError ''Catalog relation limit exceeded'')) (\<lambda>_.
     bindE (raise_if (list_ex (\<lambda>r. int (length (columns r)) > max_columns_per_relation (budget source)) rels)
              (CatalogValidationError ''Catalog per-relation column limit exceeded'')) (\<lambda>_.
     Inr \<lparr>relations = rels\<rparr>)))"

text \<open>The connection is what the pool gives, or the exception it raises.\<close>

definition catalog_load :: "exc + database \<Rightarrow> source_profile \<Rightarrow> catalog_snapshot session" where
  "catalog_load acquired source =
     bindS (liftS acquired) (\<lambda>db.
     bindS (require_catalog_connection_policy db source) (\<lambda>_.
     bindS (catalog_transaction db source) (\<lambda>rows.
     liftS (catalog_snapshot_of_rows source rows))))"

end
