(* ===== verification/MetadataService.thy ===== *)
theory MetadataService
  imports Catalog Revision Registry SqlValidation Operations
begin

text \<open>
  \<open>src/query_man/metadata/service.py\<close>: the validation of a loaded catalog, the public context
  response with its byte limit, and the cache of validated metadata with refresh, retry and
  bounded staleness. A request for a source holds the refresh lock of that source from its
  look at the cache to its answer; while it waits for the catalog, requests for other sources
  run. It is therefore modelled in two steps, \<open>start_get\<close> up to the \<open>await\<close> and
  \<open>finish_get\<close> after it, and the service as a state machine over such steps.
\<close>

section \<open>Validation of a snapshot\<close>

definition relation_issues :: "source_profile \<Rightarrow> catalog_relation \<Rightarrow> string list" where
  "relation_issues source r =
     (if schema r \<notin> set (allowed_schemas source) \<or> relation_kind r \<notin> set (allowed_relation_kinds source)
      then [''Catalog relation is outside the source allowlist: '' @ qualified_name r] else [])
     @ (if view_contract_source r \<noteq> Some (source_id source)
        then [''View contract source does not match the source: '' @ qualified_name r] else [])
     @ (if relation_contract_version r \<noteq> Some (view_contract_version source)
        then [''View contract version does not match the source: '' @ qualified_name r] else [])
     @ (if relation_comment r = None \<or> relation_comment r = Some []
        then [''Missing view description: '' @ qualified_name r] else [])"

definition validate_snapshot :: "source_profile \<Rightarrow> catalog_snapshot \<Rightarrow> string list" where
  "validate_snapshot source snap =
     (if relations snap = [] then [''No selectable relations were discovered in the allowed schemas.'']
      else (if \<not> distinct (map qualified_name (relations snap))
            then [''Catalog contains duplicate relations.''] else [])
           @ concat (map (relation_issues source) (relations snap)))"

section \<open>The context response\<close>

text \<open>\<open>xs[:n]\<close>; a negative bound counts from the end.\<close>

definition py_slice :: "int \<Rightarrow> 'a list \<Rightarrow> 'a list" where
  "py_slice n xs = (if 0 \<le> n then take (nat n) xs else take (length xs - nat (- n)) xs)"

definition column_response :: "catalog_column \<Rightarrow> pyval" where
  "column_response c = MapV
     [(''name'', StrV (column_name c)), (''sql_name'', StrV (column_sql_name c)),
      (''ordinal'', IntV (ordinal c)), (''data_type'', StrV (data_type c)),
      (''nullable'', nullability_value (nullable c)), (''description'', opt_str (column_comment c))]"

definition ordered_columns :: "catalog_relation \<Rightarrow> catalog_column list" where
  "ordered_columns r = sort_key (\<lambda>c. (ordinal c, column_name c)) (columns r)"

definition columns_truncated :: "int \<Rightarrow> catalog_relation \<Rightarrow> bool" where
  "columns_truncated max_columns r \<longleftrightarrow>
     length (py_slice max_columns (ordered_columns r)) < length (ordered_columns r)"

definition relation_response :: "int \<Rightarrow> catalog_relation \<Rightarrow> pyval" where
  "relation_response max_columns r =
     (let shown = py_slice max_columns (ordered_columns r) in MapV
     [(''name'', StrV (qualified_name r)), (''sql_name'', StrV (relation_sql_name r)),
      (''kind'', StrV (relation_kind r)), (''description'', opt_str (relation_comment r)),
      (''column_count'', IntV (int (length (ordered_columns r)))),
      (''returned_column_count'', IntV (int (length shown))),
      (''columns_truncated'', BoolV (columns_truncated max_columns r)),
      (''columns'', SeqV (map column_response shown))])"

definition sql_capabilities :: pyval where
  "sql_capabilities = MapV
     [(''functions'', SeqV (map StrV (sort DEFAULT_ALLOWED_FUNCTIONS))),
      (''cast_types'', SeqV (map StrV (sort DEFAULT_ALLOWED_TYPES))),
      (''unqualified_cast_types'', SeqV (map StrV (sort DEFAULT_ALLOWED_UNQUALIFIED_TYPES)))]"

definition context_body ::
  "(string \<Rightarrow> string) \<Rightarrow> source_profile \<Rightarrow> prepared_metadata \<Rightarrow> bool \<Rightarrow> (string \<times> pyval) list" where
  "context_body sha256_hex source prepared stale =
     (let shown = sort_key qualified_name (relations (snapshot prepared));
          max_columns = max_context_columns_per_relation (budget source) in
     [(''source_id'', StrV (source_id source)), (''source_name'', StrV (source_name source)),
      (''source_description'', StrV (source_description source)),
      (''metadata_revision'', StrV (revision prepared)),
      (''sql_policy_revision'', StrV (create_sql_policy_revision sha256_hex)),
      (''snapshot_status'', StrV (if stale then ''stale'' else ''fresh'')),
      (''sql_capabilities'', sql_capabilities),
      (''relations'', SeqV (map (relation_response max_columns) shown)),
      (''truncated'', BoolV (list_ex (columns_truncated max_columns) shown))])"

definition contract_violations :: "string list \<Rightarrow> exc" where
  "contract_violations issues =
     AppErr (MetadataUnavailableError (MapV [(''contract_violations'', SeqV (map StrV issues))]) NoCause)"

definition context_response ::
  "(string \<Rightarrow> string) \<Rightarrow> source_profile \<Rightarrow> prepared_metadata \<Rightarrow> bool \<Rightarrow> exc + (string \<times> pyval) list" where
  "context_response sha256_hex source prepared stale =
     (let response = context_body sha256_hex source prepared stale in
      bindE (raise_if (int (length (json_dumps (MapV response))) >
                         max_metadata_response_bytes (budget source))
               (contract_violations [''Metadata response exceeds its byte limit.'']))
        (\<lambda>_. Inr response))"

section \<open>The cache\<close>

record cache_entry =
  entry_value :: prepared_metadata
  loaded_at :: int
  expires_at :: int
  next_refresh_at :: int

record cache_settings =
  cache_ttl_ms :: int
  max_stale_ms :: int
  refresh_retry_ms :: int

text \<open>
  \<open>held\<close> maps a source whose refresh lock is held by a request waiting for the catalog to the
  cache entry that request saw.
\<close>

record metadata_state =
  cache :: "(string, cache_entry) dict"
  signatures :: "(string \<times> int, string) dict"
  held :: "(string, cache_entry option) dict"
  ops :: operational_state

abbreviation with_ops :: "(operational_state \<Rightarrow> operational_state) \<Rightarrow> metadata_state \<Rightarrow> metadata_state" where
  "with_ops f st \<equiv> st\<lparr>ops := f (ops st)\<rparr>"

type_synonym prepared_result = "exc + (prepared_metadata \<times> bool)"

definition metadata_unavailable :: "cause \<Rightarrow> exc" where
  "metadata_unavailable c = AppErr (MetadataUnavailableError NoneV c)"

text \<open>
  Up to the \<open>await\<close>: the answer, or \<open>None\<close> when the catalog is asked.
\<close>

definition start_get ::
  "cache_settings \<Rightarrow> source_profile \<Rightarrow> int \<Rightarrow> metadata_state \<Rightarrow> prepared_result option \<times> metadata_state" where
  "start_get cfg source now st =
     (let sid = source_id source; cached = map_of (cache st) sid;
          refresh = (None, with_ops (increment ''metadata_refresh_started'' sid)
                             (st\<lparr>held := AList.update sid cached (held st)\<rparr>)) in
      case cached of
        None \<Rightarrow> refresh
      | Some e \<Rightarrow>
          if expires_at e > now
          then (Some (Inr (entry_value e, False)), with_ops (set_source_health sid Healthy) st)
          else if next_refresh_at e > now
          then (if now - loaded_at e \<le> max_stale_ms cfg
                then (Some (Inr (entry_value e, True)),
                      with_ops (set_source_health sid Stale \<circ> increment ''metadata_stale_served'' sid) st)
                else (Some (Inl (metadata_unavailable NoCause)),
                      with_ops (set_source_health sid Unavailable) st))
          else refresh)"

text \<open>\<open>_load_and_validate\<close> after the load: the issues, the accepted signature, the response limit.\<close>

definition snapshot_issues ::
  "(string \<Rightarrow> string) \<Rightarrow> source_profile \<Rightarrow> catalog_snapshot \<Rightarrow> metadata_state \<Rightarrow> string list" where
  "snapshot_issues sha256_hex source snap st =
     validate_snapshot source snap
     @ (case map_of (signatures st) (source_id source, view_contract_version source) of
          None \<Rightarrow> []
        | Some accepted \<Rightarrow>
            if accepted \<noteq> create_view_structure_signature sha256_hex snap
            then [''View structure changed without a view contract version change.''] else [])"

definition cache_value ::
  "cache_settings \<Rightarrow> string \<Rightarrow> prepared_metadata \<Rightarrow> int \<Rightarrow> metadata_state \<Rightarrow> metadata_state" where
  "cache_value cfg sid v now st =
     st\<lparr>cache := AList.update sid
          \<lparr>entry_value = v, loaded_at = now, expires_at = now + cache_ttl_ms cfg,
           next_refresh_at = now + cache_ttl_ms cfg\<rparr> (cache st)\<rparr>"

definition publish ::
  "(string \<Rightarrow> string) \<Rightarrow> cache_settings \<Rightarrow> source_profile \<Rightarrow> catalog_snapshot \<Rightarrow> int \<Rightarrow> metadata_state
     \<Rightarrow> (exc + prepared_metadata) \<times> metadata_state" where
  "publish sha256_hex cfg source snap now st =
     (let sid = source_id source; issues = snapshot_issues sha256_hex source snap st in
      if issues \<noteq> []
      then (Inl (contract_violations issues),
            with_ops (set_source_health sid Unavailable \<circ> increment ''metadata_validation_rejected'' sid) st)
      else
        (let candidate = \<lparr>snapshot = snap, revision = create_metadata_revision sha256_hex source snap\<rparr> in
         case context_response sha256_hex source candidate False of
           Inl e \<Rightarrow> (Inl e, st)
         | Inr response \<Rightarrow>
             (Inr candidate,
              with_ops (set_source_health sid Healthy \<circ> increment ''metadata_refresh_succeeded'' sid)
                (cache_value cfg sid candidate now
                   (st\<lparr>signatures := AList.update (sid, view_contract_version source)
                          (create_view_structure_signature sha256_hex snap) (signatures st)\<rparr>)))))"

definition is_metadata_unavailable :: "exc \<Rightarrow> bool" where
  "is_metadata_unavailable e \<longleftrightarrow> (case e of AppErr (MetadataUnavailableError d c) \<Rightarrow> True | _ \<Rightarrow> False)"

definition cause_of :: "exc \<Rightarrow> cause" where
  "cause_of e = (case e of ReaderSessionPolicyError \<Rightarrow> ReaderSessionPolicyCause
     | CatalogValidationError m \<Rightarrow> CatalogValidationCause | _ \<Rightarrow> OtherCause)"

text \<open>The \<open>except\<close> clauses of \<open>_get_prepared\<close>; a cancellation passes all of them.\<close>

definition refresh_failed ::
  "cache_settings \<Rightarrow> source_profile \<Rightarrow> cache_entry option \<Rightarrow> exc \<Rightarrow> int \<Rightarrow> metadata_state
     \<Rightarrow> prepared_result \<times> metadata_state" where
  "refresh_failed cfg source cached e failed_at st =
     (let sid = source_id source;
          dropped = st\<lparr>cache := AList.delete sid (cache st)\<rparr> in
      if is_metadata_unavailable e
      then (Inl e, with_ops (set_source_health sid Unavailable) dropped)
      else if cause_of e \<noteq> OtherCause
      then (Inl (metadata_unavailable (cause_of e)),
            with_ops (set_source_health sid Unavailable \<circ> increment ''metadata_refresh_failed'' sid) dropped)
      else if \<not> is_exception e then (Inl e, st)
      else (case cached of
              Some c \<Rightarrow>
                if failed_at - loaded_at c \<le> max_stale_ms cfg
                then (Inr (entry_value c, True),
                      with_ops (set_source_health sid Stale \<circ> increment ''metadata_stale_served'' sid
                                \<circ> increment ''metadata_refresh_failed'' sid)
                        (st\<lparr>cache := AList.update sid
                              (c\<lparr>next_refresh_at := failed_at + refresh_retry_ms cfg\<rparr>) (cache st)\<rparr>))
                else (Inl (metadata_unavailable OtherCause),
                      with_ops (set_source_health sid Unavailable \<circ> increment ''metadata_refresh_failed'' sid) st)
            | None \<Rightarrow>
                (Inl (metadata_unavailable OtherCause),
                 with_ops (set_source_health sid Unavailable \<circ> increment ''metadata_refresh_failed'' sid) st)))"

text \<open>After the \<open>await\<close>: \<open>loaded\<close> is what the catalog gave or raised; the lock is released.\<close>

definition finish_get ::
  "(string \<Rightarrow> string) \<Rightarrow> cache_settings \<Rightarrow> source_profile \<Rightarrow> cache_entry option \<Rightarrow> exc + catalog_snapshot
     \<Rightarrow> int \<Rightarrow> metadata_state \<Rightarrow> prepared_result \<times> metadata_state" where
  "finish_get sha256_hex cfg source cached loaded now st =
     (let st' = st\<lparr>held := AList.delete (source_id source) (held st)\<rparr> in
      case loaded of
        Inl e \<Rightarrow> refresh_failed cfg source cached e now st'
      | Inr snap \<Rightarrow>
          (case publish sha256_hex cfg source snap now st' of
             (Inr candidate, st'') \<Rightarrow> (Inr (candidate, False), st'')
           | (Inl e, st'') \<Rightarrow> refresh_failed cfg source cached e now st''))"

section \<open>The service as a state machine\<close>

definition initial_metadata :: "operational_state \<Rightarrow> metadata_state" where
  "initial_metadata o0 = \<lparr>cache = [], signatures = [], held = [], ops = o0\<rparr>"

text \<open>
  \<open>Start\<close> waits while the lock of its source is held; \<open>Finish\<close> is the return of the pending
  load of its source; between them, operations of other components change the shared health.
\<close>

datatype metadata_event =
    Start string int
  | Finish string "exc + catalog_snapshot" int
  | Elsewhere op_event

definition metadata_step ::
  "(string \<Rightarrow> string) \<Rightarrow> cache_settings \<Rightarrow> registry \<Rightarrow> metadata_state
     \<Rightarrow> metadata_event \<Rightarrow> prepared_result option \<times> metadata_state" where
  "metadata_step sha256_hex cfg reg st ev =
     (case ev of
        Start sid now \<Rightarrow>
          (case registry_get reg sid of
             None \<Rightarrow> (Some (Inl (AppErr SourceNotFoundError)), st)
           | Some source \<Rightarrow>
               if map_of (held st) sid = None then start_get cfg source now st else (None, st))
      | Finish sid loaded now \<Rightarrow>
          (case (registry_get reg sid, map_of (held st) sid) of
             (Some source, Some cached) \<Rightarrow>
               (case finish_get sha256_hex cfg source cached loaded now st of
                  (answer, st') \<Rightarrow> (Some answer, st'))
           | _ \<Rightarrow> (None, st))
      | Elsewhere e \<Rightarrow> (None, with_ops (\<lambda>o1. operate o1 e) st))"

definition get_context_answer ::
  "(string \<Rightarrow> string) \<Rightarrow> source_profile \<Rightarrow> prepared_result \<Rightarrow> exc + (string \<times> pyval) list" where
  "get_context_answer sha256_hex source answer =
     bindE answer (\<lambda>(prepared, stale). context_response sha256_hex source prepared stale)"

definition get_published_answer :: "prepared_result \<Rightarrow> exc + prepared_metadata" where
  "get_published_answer answer = bindE answer (\<lambda>(prepared, stale). Inr prepared)"

end
