(* ===== verification/MetadataServiceSpec.thy ===== *)
theory MetadataServiceSpec
  imports MetadataService
begin

text \<open>
  What the metadata service guarantees over every interleaving of requests: only validated
  snapshots are cached and answered, the structure of a contract version never changes once it
  was published, staleness is bounded, and a policy or validation failure drops the cache.
\<close>

section \<open>The invariant of the service\<close>

text \<open>An entry is a validated publication of its source under the pinned structure.\<close>

definition published ::
  "(string \<Rightarrow> string) \<Rightarrow> source_profile \<Rightarrow> prepared_metadata \<Rightarrow> metadata_state \<Rightarrow> bool" where
  "published sha256_hex source prepared st \<longleftrightarrow>
     validate_snapshot source (snapshot prepared) = [] \<and>
     revision prepared = create_metadata_revision sha256_hex source (snapshot prepared) \<and>
     context_response sha256_hex source prepared False =
       Inr (context_body sha256_hex source prepared False) \<and>
     map_of (signatures st) (source_id source, view_contract_version source) =
       Some (create_view_structure_signature sha256_hex (snapshot prepared))"

definition service_inv ::
  "(string \<Rightarrow> string) \<Rightarrow> source_profile list \<Rightarrow> metadata_state \<Rightarrow> bool" where
  "service_inv sha256_hex sources st \<longleftrightarrow>
     (\<forall>sid e. map_of (cache st) sid = Some e \<longrightarrow>
        (\<exists>source. registry_get (source_registry sources) sid = Some source \<and>
           published sha256_hex source (entry_value e) st)) \<and>
     (\<forall>sid c. map_of (held st) sid = Some c \<longrightarrow> c = map_of (cache st) sid)"

text \<open>A pinned structure signature stays, and the cache of other sources is untouched.\<close>

definition keeps_signatures :: "metadata_state \<Rightarrow> metadata_state \<Rightarrow> bool" where
  "keeps_signatures st st' \<longleftrightarrow>
     (\<forall>k g. map_of (signatures st) k = Some g \<longrightarrow> map_of (signatures st') k = Some g)"

lemma keeps_signatures_refl [simp]: "keeps_signatures st st"
  by (simp add: keeps_signatures_def)

lemma keeps_signatures_trans:
  "keeps_signatures a b \<Longrightarrow> keeps_signatures b c \<Longrightarrow> keeps_signatures a c"
  by (auto simp: keeps_signatures_def)

lemma published_mono:
  "published sha256_hex source p st \<Longrightarrow> keeps_signatures st st' \<Longrightarrow> published sha256_hex source p st'"
  by (auto simp: published_def keeps_signatures_def)

lemma context_response_Inr:
  "context_response sha256_hex source p stale = Inr r \<longleftrightarrow>
     r = context_body sha256_hex source p stale \<and>
     int (length (json_dumps (MapV r))) \<le> max_metadata_response_bytes (budget source)"
  by (auto simp: context_response_def Let_def err_simps)

lemma publish_Inr:
  assumes "publish sha256_hex cfg source snap now st = (Inr p, st')"
  shows "published sha256_hex source p st' \<and> keeps_signatures st st' \<and> held st' = held st \<and>
    snapshot p = snap \<and>
    cache st' = AList.update (source_id source)
      \<lparr>entry_value = p, loaded_at = now, expires_at = now + cache_ttl_ms cfg,
       next_refresh_at = now + cache_ttl_ms cfg\<rparr> (cache st)"
proof -
  let ?k = "(source_id source, view_contract_version source)"
  have issues: "snapshot_issues sha256_hex source snap st = []"
    using assms by (auto simp: publish_def Let_def split: if_splits)
  then have valid: "validate_snapshot source snap = []"
    and old: "\<forall>g. map_of (signatures st) ?k = Some g \<longrightarrow> g = create_view_structure_signature sha256_hex snap"
    by (auto simp: snapshot_issues_def split: option.splits if_splits)
  from assms issues obtain r where
    p: "p = \<lparr>snapshot = snap, revision = create_metadata_revision sha256_hex source snap\<rparr>"
    and r: "context_response sha256_hex source p False = Inr r"
    and st': "cache st' = AList.update (source_id source)
      \<lparr>entry_value = p, loaded_at = now, expires_at = now + cache_ttl_ms cfg,
       next_refresh_at = now + cache_ttl_ms cfg\<rparr> (cache st)" "held st' = held st"
      "signatures st' = AList.update ?k (create_view_structure_signature sha256_hex snap) (signatures st)"
    by (auto simp: publish_def Let_def cache_value_def split: sum.splits)
  have "published sha256_hex source p st'"
    using valid r r [unfolded context_response_Inr] p st' by (simp add: published_def dict_simps)
  moreover have "keeps_signatures st st'"
    using old st'(3) by (auto simp: keeps_signatures_def dict_simps)
  ultimately show ?thesis using st' p by simp
qed

lemma publish_Inl:
  "publish sha256_hex cfg source snap now st = (Inl e, st') \<Longrightarrow>
     is_metadata_unavailable e \<and> cache st' = cache st \<and> signatures st' = signatures st \<and> held st' = held st"
  by (auto simp: publish_def Let_def context_response_def contract_violations_def
      is_metadata_unavailable_def err_simps split: if_splits sum.splits)

text \<open>Where a failed refresh leaves the cache.\<close>

lemma refresh_failed_state:
  assumes "refresh_failed cfg source cached e now st = (answer, st')"
  shows "signatures st' = signatures st \<and> held st' = held st \<and>
    (cache st' = cache st \<or> cache st' = AList.delete (source_id source) (cache st) \<or>
     (\<exists>c n. cached = Some c \<and>
        cache st' = AList.update (source_id source) (c\<lparr>next_refresh_at := n\<rparr>) (cache st)))"
  using assms by (auto simp: refresh_failed_def Let_def split: if_splits option.splits)

lemma finish_get_state:
  assumes "finish_get sha256_hex cfg source cached loaded now st = (answer, st')"
  shows "keeps_signatures st st' \<and> held st' = AList.delete (source_id source) (held st) \<and>
    (cache st' = cache st \<or> cache st' = AList.delete (source_id source) (cache st) \<or>
     (\<exists>e. cache st' = AList.update (source_id source) e (cache st) \<and>
        (published sha256_hex source (entry_value e) st' \<or>
         (\<exists>c. cached = Some c \<and> entry_value e = entry_value c))))"
proof -
  let ?st = "st\<lparr>held := AList.delete (source_id source) (held st)\<rparr>"
  have failed: ?thesis if "refresh_failed cfg source cached e now s = (answer, st')"
    "cache s = cache st" "signatures s = signatures st" "held s = held ?st" for e s
    using refresh_failed_state [OF that(1)] that(2-4)
    by (auto simp: keeps_signatures_def)
  show ?thesis
  proof (cases loaded)
    case (Inl e)
    with assms failed [of e ?st] show ?thesis by (simp add: finish_get_def)
  next
    case (Inr snap)
    obtain r s where pub: "publish sha256_hex cfg source snap now ?st = (r, s)" by fastforce
    show ?thesis
    proof (cases r)
      case (Inl e)
      with assms Inr pub publish_Inl [of sha256_hex cfg source snap now ?st e s] failed [of e s]
      show ?thesis by (simp add: finish_get_def)
    next
      case r: (Inr p)
      note ok = publish_Inr [OF pub [unfolded r]]
      have "st' = s" using assms Inr pub r by (simp add: finish_get_def)
      with ok show ?thesis by (auto simp: keeps_signatures_def)
    qed
  qed
qed

lemma start_get_state:
  assumes "start_get cfg source now st = (answer, st')"
  shows "cache st' = cache st \<and> signatures st' = signatures st \<and>
    (held st' = held st \<or>
     held st' = AList.update (source_id source) (map_of (cache st) (source_id source)) (held st))"
  using assms by (auto simp: start_get_def Let_def split: option.splits if_splits)

lemma service_inv_cong:
  assumes "service_inv sha256_hex sources st" and "cache st' = cache st"
    and "signatures st' = signatures st"
    and "\<And>sid c. map_of (held st') sid = Some c \<Longrightarrow> map_of (held st) sid = Some c \<or> c = map_of (cache st) sid"
  shows "service_inv sha256_hex sources st'"
  using assms unfolding service_inv_def published_def by metis

lemma finish_keeps_inv:
  assumes inv: "service_inv sha256_hex sources st"
    and source: "registry_get (source_registry sources) sid = Some source"
    and held: "map_of (held st) sid = Some cached"
    and fin: "finish_get sha256_hex cfg source cached loaded now st = (answer, st')"
  shows "service_inv sha256_hex sources st'"
proof -
  have sid: "source_id source = sid" using registry_get_id [OF source] by simp
  note st' = finish_get_state [OF fin, unfolded sid]
  have cached: "cached = map_of (cache st) sid" using inv held by (auto simp: service_inv_def)
  have old: "\<exists>s. registry_get (source_registry sources) k = Some s \<and> published sha256_hex s (entry_value e) st'"
    if "map_of (cache st) k = Some e" for k e
    using that inv st' published_mono unfolding service_inv_def by meson
  have entries: "\<exists>s. registry_get (source_registry sources) k = Some s \<and> published sha256_hex s (entry_value e) st'"
    if e: "map_of (cache st') k = Some e" for k e
  proof (cases "k = sid")
    case True
    from st' consider "cache st' = cache st" | "cache st' = AList.delete sid (cache st)"
      | e' where "cache st' = AList.update sid e' (cache st)" "published sha256_hex source (entry_value e') st'"
      | e' c where "cache st' = AList.update sid e' (cache st)" "cached = Some c" "entry_value e' = entry_value c"
      by blast
    then show ?thesis
      using e True old [of sid] source cached by cases (auto simp: dict_simps)
  next
    case False
    then have "map_of (cache st) k = Some e" using e st' by (auto simp: dict_simps)
    then show ?thesis by (rule old)
  qed
  have "c = map_of (cache st') k" if "map_of (held st') k = Some c" for k c
  proof -
    have "k \<noteq> sid" "map_of (held st) k = Some c" using that st' by (auto simp: dict_simps split: if_splits)
    then show ?thesis using inv st' by (auto simp: service_inv_def dict_simps)
  qed
  with entries show ?thesis unfolding service_inv_def by blast
qed

lemma metadata_step_keeps_inv:
  assumes inv: "service_inv sha256_hex sources st"
  shows "service_inv sha256_hex sources
    (snd (metadata_step sha256_hex cfg (source_registry sources) st ev))"
proof (cases ev)
  case (Start sid now)
  show ?thesis
  proof (cases "registry_get (source_registry sources) sid")
    case (Some source)
    obtain answer st' where st': "start_get cfg source now st = (answer, st')" by fastforce
    have "map_of (held st) k = Some c \<or> c = map_of (cache st) k" if "map_of (held st') k = Some c" for k c
      using start_get_state [OF st'] that by (auto simp: dict_simps split: if_splits)
    with inv start_get_state [OF st'] have "service_inv sha256_hex sources st'"
      by (intro service_inv_cong [OF inv]) auto
    with inv Some Start st' show ?thesis by (auto simp: metadata_step_def)
  qed (use inv Start in \<open>simp add: metadata_step_def\<close>)
next
  case (Finish sid loaded now)
  then show ?thesis
    using inv finish_keeps_inv [OF inv]
    by (auto simp: metadata_step_def split: option.splits prod.splits)
next
  case (Elsewhere e)
  then show ?thesis using inv by (auto simp: metadata_step_def service_inv_def published_def)
qed

interpretation metadata_service: invariant_system
  "\<lambda>st ev. snd (metadata_step sha256_hex cfg (source_registry sources) st ev)"
  "service_inv sha256_hex sources"
  for sha256_hex cfg sources
  by unfold_locales (rule metadata_step_keeps_inv)

definition reachable_metadata ::
  "(string \<Rightarrow> string) \<Rightarrow> cache_settings \<Rightarrow> source_profile list \<Rightarrow> metadata_event list \<Rightarrow> metadata_state" where
  "reachable_metadata sha256_hex cfg sources evs =
     foldl (\<lambda>st ev. snd (metadata_step sha256_hex cfg (source_registry sources) st ev))
       (initial_metadata initial_operations) evs"

lemma reachable_inv: "service_inv sha256_hex sources (reachable_metadata sha256_hex cfg sources evs)"
proof -
  have "service_inv sha256_hex sources (initial_metadata initial_operations)"
    by (simp add: service_inv_def initial_metadata_def)
  then show ?thesis unfolding reachable_metadata_def by (rule metadata_service.run_keeps)
qed

section \<open>What is answered\<close>

fun event_source :: "metadata_event \<Rightarrow> string option" where
  "event_source (Start sid now) = Some sid"
| "event_source (Finish sid loaded now) = Some sid"
| "event_source (Elsewhere e) = None"

fun event_time :: "metadata_event \<Rightarrow> int" where
  "event_time (Start sid now) = now"
| "event_time (Finish sid loaded now) = now"
| "event_time (Elsewhere e) = 0"

text \<open>An answer is the value of an entry that is in the cache afterwards, and fresh enough.\<close>

lemma start_get_answer:
  assumes "start_get cfg source now st = (Some (Inr (p, stale)), st')"
  shows "\<exists>e. map_of (cache st) (source_id source) = Some e \<and> cache st' = cache st \<and>
    signatures st' = signatures st \<and> entry_value e = p \<and>
    (if stale then now - loaded_at e \<le> max_stale_ms cfg else now < expires_at e)"
  using assms by (auto simp: start_get_def Let_def split: option.splits if_splits)

lemma refresh_failed_answer:
  assumes "refresh_failed cfg source cached err now st = (Inr (p, stale), st')"
  shows "stale \<and> (\<exists>c n. cached = Some c \<and> p = entry_value c \<and> now - loaded_at c \<le> max_stale_ms cfg \<and>
    cache st' = AList.update (source_id source) (c\<lparr>next_refresh_at := n\<rparr>) (cache st))"
  using assms by (auto simp: refresh_failed_def Let_def split: if_splits option.splits)

lemma finish_get_answer:
  assumes "finish_get sha256_hex cfg source cached loaded now st = (Inr (p, stale), st')"
  shows "\<exists>e. map_of (cache st') (source_id source) = Some e \<and> entry_value e = p \<and>
    (if stale then now - loaded_at e \<le> max_stale_ms cfg else loaded_at e = now)"
proof -
  let ?st = "st\<lparr>held := AList.delete (source_id source) (held st)\<rparr>"
  have failed: ?thesis if "refresh_failed cfg source cached err now s = (Inr (p, stale), st')" for err s
  proof -
    from refresh_failed_answer [OF that] obtain c n where
      "stale" "p = entry_value c" "now - loaded_at c \<le> max_stale_ms cfg"
      "cache st' = AList.update (source_id source) (c\<lparr>next_refresh_at := n\<rparr>) (cache s)" by blast
    then show ?thesis by (simp add: dict_simps)
  qed
  show ?thesis
  proof (cases loaded)
    case (Inl err)
    with assms failed show ?thesis by (simp add: finish_get_def)
  next
    case (Inr snap)
    obtain r s where pub: "publish sha256_hex cfg source snap now ?st = (r, s)" by fastforce
    show ?thesis
    proof (cases r)
      case Inl
      with assms Inr pub failed show ?thesis by (simp add: finish_get_def)
    next
      case r: (Inr q)
      with assms Inr pub have "st' = s" "p = q" "\<not> stale" by (auto simp: finish_get_def)
      with publish_Inr [OF pub [unfolded r]] show ?thesis by (simp add: dict_simps)
    qed
  qed
qed

lemma metadata_step_answer:
  assumes "metadata_step sha256_hex cfg reg st ev = (Some (Inr (p, stale)), st')"
  shows "\<exists>sid source e. event_source ev = Some sid \<and> registry_get reg sid = Some source \<and>
    map_of (cache st') (source_id source) = Some e \<and> entry_value e = p \<and>
    (if stale then event_time ev - loaded_at e \<le> max_stale_ms cfg
     else event_time ev < expires_at e \<or> loaded_at e = event_time ev)"
proof (cases ev)
  case (Start sid now)
  with assms obtain source where "registry_get reg sid = Some source"
    "start_get cfg source now st = (Some (Inr (p, stale)), st')"
    by (auto simp: metadata_step_def split: option.splits if_splits)
  with start_get_answer [OF this(2)] Start show ?thesis by fastforce
next
  case (Finish sid loaded now)
  with assms obtain source cached where "registry_get reg sid = Some source"
    "finish_get sha256_hex cfg source cached loaded now st = (Inr (p, stale), st')"
    by (auto simp: metadata_step_def split: option.splits prod.splits)
  with finish_get_answer [OF this(2)] Finish show ?thesis by fastforce
qed (use assms in \<open>simp add: metadata_step_def\<close>)

lemma reachable_snoc:
  "reachable_metadata sha256_hex cfg sources (evs @ [ev]) =
     snd (metadata_step sha256_hex cfg (source_registry sources)
       (reachable_metadata sha256_hex cfg sources evs) ev)"
  by (simp add: reachable_metadata_def)

lemma reachable_answer:
  assumes "metadata_step sha256_hex cfg (source_registry sources)
      (reachable_metadata sha256_hex cfg sources evs) ev = (Some (Inr (p, stale)), st')"
  shows "\<exists>sid source e. event_source ev = Some sid \<and>
    registry_get (source_registry sources) sid = Some source \<and>
    map_of (cache st') sid = Some e \<and> entry_value e = p \<and>
    published sha256_hex source p st' \<and>
    (if stale then event_time ev - loaded_at e \<le> max_stale_ms cfg
     else event_time ev < expires_at e \<or> loaded_at e = event_time ev)"
proof -
  from metadata_step_answer [OF assms] obtain sid source e where
    e: "event_source ev = Some sid" "registry_get (source_registry sources) sid = Some source"
      "map_of (cache st') (source_id source) = Some e" "entry_value e = p"
      "if stale then event_time ev - loaded_at e \<le> max_stale_ms cfg
       else event_time ev < expires_at e \<or> loaded_at e = event_time ev" by blast
  have sid: "source_id source = sid" using registry_get_id [OF e(2)] by simp
  have "st' = reachable_metadata sha256_hex cfg sources (evs @ [ev])"
    using assms by (simp add: reachable_snoc)
  then have "service_inv sha256_hex sources st'" by (simp add: reachable_inv)
  then have "\<exists>s. registry_get (source_registry sources) sid = Some s \<and> published sha256_hex s p st'"
    using e(3,4) sid unfolding service_inv_def by blast
  then have "published sha256_hex source p st'" using e(2) by simp
  with e sid show ?thesis by blast
qed

lemma metadata_step_keeps_signatures:
  "keeps_signatures st (snd (metadata_step sha256_hex cfg reg st ev))"
proof (cases ev)
  case (Start sid now)
  then show ?thesis
    using start_get_state
    by (auto simp: metadata_step_def keeps_signatures_def split: option.splits prod.splits)
      (metis prod.collapse)+
next
  case (Finish sid loaded now)
  then show ?thesis
    using finish_get_state by (fastforce simp: metadata_step_def split: option.splits prod.splits)
qed (simp add: metadata_step_def keeps_signatures_def)

lemma reachable_keeps_signatures:
  "keeps_signatures (reachable_metadata sha256_hex cfg sources evs)
     (reachable_metadata sha256_hex cfg sources (evs @ later))"
proof (induction later rule: rev_induct)
  case (snoc ev later)
  have "reachable_metadata sha256_hex cfg sources (evs @ later @ [ev]) =
      snd (metadata_step sha256_hex cfg (source_registry sources)
        (reachable_metadata sha256_hex cfg sources (evs @ later)) ev)"
    using reachable_snoc [of _ _ _ "evs @ later"] by simp
  with snoc metadata_step_keeps_signatures keeps_signatures_trans show ?case by metis
qed simp

section \<open>Properties\<close>

text \<open>
  C13: only validated metadata is answered. In every interleaving, whatever a request is
  answered with, fresh or stale, is a snapshot that passed the validation of its source, under
  the revision of exactly that source and snapshot, whose public response fits its byte limit.
\<close>
theorem metadata_answers_validated:
  assumes "fst (metadata_step sha256_hex cfg (source_registry sources)
      (reachable_metadata sha256_hex cfg sources evs) ev) = Some (Inr (p, stale))"
  shows "\<exists>sid source. event_source ev = Some sid \<and>
    registry_get (source_registry sources) sid = Some source \<and> source_id source = sid \<and>
    validate_snapshot source (snapshot p) = [] \<and>
    revision p = create_metadata_revision sha256_hex source (snapshot p) \<and>
    context_response sha256_hex source p False = Inr (context_body sha256_hex source p False)"
proof -
  obtain st' where step: "metadata_step sha256_hex cfg (source_registry sources)
      (reachable_metadata sha256_hex cfg sources evs) ev = (Some (Inr (p, stale)), st')"
    using assms by (metis prod.collapse)
  from reachable_answer [OF step] registry_get_id show ?thesis
    unfolding published_def by blast
qed

text \<open>
  C25: staleness is bounded. A stale answer is the value of a cache entry that was loaded at most
  \<open>max_stale_ms\<close> before the time of the answer; an answer that is not stale was loaded at
  that time or has not expired at it. In both cases the entry is in the cache afterwards.
\<close>
theorem metadata_staleness_bounded:
  assumes "metadata_step sha256_hex cfg (source_registry sources)
      (reachable_metadata sha256_hex cfg sources evs) ev = (Some (Inr (p, stale)), st')"
  shows "\<exists>sid e. event_source ev = Some sid \<and> map_of (cache st') sid = Some e \<and> entry_value e = p \<and>
    (if stale then event_time ev - loaded_at e \<le> max_stale_ms cfg
     else event_time ev < expires_at e \<or> loaded_at e = event_time ev)"
  using reachable_answer [OF assms] by blast


text \<open>
  C24: policy and validation failures fail closed. When the load of a source fails the reader
  policy or the limits of the catalog, or gives a snapshot with issues, the request is answered
  with an error, the source has no cache entry any more, however fresh the old one was, and an
  active source is reported unavailable.
\<close>
theorem metadata_fails_closed:
  assumes "registry_get (source_registry sources) sid = Some source"
    and "map_of (held st) sid = Some cached"
    and "loaded = Inl ReaderSessionPolicyError \<or> loaded = Inl (CatalogValidationError m) \<or>
      loaded = Inr snap \<and> snapshot_issues sha256_hex source snap st \<noteq> []"
    and "metadata_step sha256_hex cfg (source_registry sources) st (Finish sid loaded now) = (answer, st')"
  shows "(\<exists>e. answer = Some (Inl e) \<and> is_metadata_unavailable e) \<and> map_of (cache st') sid = None \<and>
    (inactive (ops st) sid \<or> map_of (source_metadata_health (ops st')) sid = Some Unavailable)"
proof -
  have sid: "source_id source = sid" using registry_get_id [OF assms(1)] by simp
  have issues: "snapshot_issues sha256_hex source snap (st\<lparr>held := h\<rparr>) = snapshot_issues sha256_hex source snap st" for h
    by (simp add: snapshot_issues_def)
  show ?thesis
    using assms(1-4) sid
    by (elim disjE)
      (auto simp: metadata_step_def finish_get_def refresh_failed_def cause_of_def issues publish_def
        is_metadata_unavailable_def metadata_unavailable_def contract_violations_def Let_def
        dict_simps split: prod.splits)
qed

section \<open>A bound on the size of a response\<close>

fun json_bound :: "pyval \<Rightarrow> nat" and json_bounds :: "pyval list \<Rightarrow> nat"
  and json_bound_members :: "(string \<times> pyval) list \<Rightarrow> nat" where
  "json_bound NoneV = 4"
| "json_bound (BoolV b) = 5"
| "json_bound (IntV i) = length (int_str i)"
| "json_bound (StrV s) = 6 * length s + 2"
| "json_bound (SeqV vs) = 2 + json_bounds vs"
| "json_bound (MapV kvs) = 2 + json_bound_members kvs"
| "json_bounds [] = 0"
| "json_bounds (v # vs) = 1 + json_bound v + json_bounds vs"
| "json_bound_members [] = 0"
| "json_bound_members ((k, v) # kvs) = 4 + 6 * length k + json_bound v + json_bound_members kvs"

lemma length_json_quote: "length (json_quote s) \<le> 6 * length s + 2"
proof -
  have "length (esc c) \<le> 6" for c by (simp add: esc_def)
  then have "sum_list (map (\<lambda>c. length (esc c)) s) \<le> sum_list (map (\<lambda>c. 6) s)"
    by (intro sum_list_mono)
  then show ?thesis by (simp add: json_quote_def length_concat comp_def sum_list_triv)
qed

lemma length_json_dumps:
  "length (json_dumps v) \<le> json_bound v"
  "length (json_rest vs) \<le> json_bounds vs"
  "length (json_members kvs) \<le> json_bound_members kvs"
proof (induction v and vs and kvs rule: json_dumps_json_rest_json_members.induct)
  case (4 s)
  then show ?case using length_json_quote by simp
next
  case (8 k v kvs)
  then show ?case using length_json_quote [of k] by simp
next
  case (12 k v kvs)
  then show ?case using length_json_quote [of k] by simp
qed simp_all

lemma json_bounds_map: "json_bounds (map f xs) = sum_list (map (\<lambda>x. 1 + json_bound (f x)) xs)"
  by (induction xs) simp_all

lemma json_bounds_sorted: "json_bounds (map f (sort xs)) = json_bounds (map f xs)"
  unfolding json_bounds_map by (simp only: sum_mset_sum_list [symmetric] mset_map mset_sort)

lemma json_bounds_strings:
  "list_all (\<lambda>s. length s \<le> m) xs \<Longrightarrow> json_bounds (map StrV xs) \<le> length xs * (6 * m + 3)"
  by (induction xs) auto
section \<open>A concrete run\<close>

definition example_digest :: "string \<Rightarrow> string" where
  "example_digest s = ''d1''"

definition example_settings :: cache_settings where
  "example_settings = \<lparr>cache_ttl_ms = 30000, max_stale_ms = 300000, refresh_retry_ms = 5000\<rparr>"

lemma example_settings_simps [simp]:
  "cache_ttl_ms example_settings = 30000" "max_stale_ms example_settings = 300000"
  "refresh_retry_ms example_settings = 5000"
  by (simp_all add: example_settings_def)

definition example_prepared :: prepared_metadata where
  "example_prepared = \<lparr>snapshot = example_catalog,
     revision = create_metadata_revision example_digest example_source example_catalog\<rparr>"

lemma sql_capabilities_bound: "json_bound sql_capabilities \<le> 70000"
proof -
  have "list_all (\<lambda>s. length s \<le> 40) xs \<and> length xs \<le> 80 \<longrightarrow> json_bounds (map StrV xs) \<le> 20000" for xs
  proof
    assume "list_all (\<lambda>s. length s \<le> 40) xs \<and> length xs \<le> 80"
    with json_bounds_strings [of 40 xs] show "json_bounds (map StrV xs) \<le> 20000" by simp
  qed
  moreover have "list_all (\<lambda>s. length s \<le> 40) DEFAULT_ALLOWED_FUNCTIONS \<and> length DEFAULT_ALLOWED_FUNCTIONS \<le> 80"
    "list_all (\<lambda>s. length s \<le> 40) DEFAULT_ALLOWED_TYPES \<and> length DEFAULT_ALLOWED_TYPES \<le> 80"
    "list_all (\<lambda>s. length s \<le> 40) DEFAULT_ALLOWED_UNQUALIFIED_TYPES \<and> length DEFAULT_ALLOWED_UNQUALIFIED_TYPES \<le> 80"
    by code_simp+
  ultimately have "json_bounds (map StrV DEFAULT_ALLOWED_FUNCTIONS) \<le> 20000"
    "json_bounds (map StrV DEFAULT_ALLOWED_TYPES) \<le> 20000"
    "json_bounds (map StrV DEFAULT_ALLOWED_UNQUALIFIED_TYPES) \<le> 20000" by blast+
  then show ?thesis by (simp add: sql_capabilities_def json_bounds_sorted)
qed

lemma example_context:
  "context_response example_digest example_source example_prepared False =
     Inr (context_body example_digest example_source example_prepared False)"
proof -
  have "json_bound (MapV (context_body example_digest example_source example_prepared False)) < 100000"
    using sql_capabilities_bound
    by (simp add: context_body_def Let_def create_sql_policy_revision_def example_digest_def
        create_metadata_revision_def canonical_digest_def example_prepared_def example_catalog_def
        example_relation_def example_source_def example_budget_def relation_response_def
        ordered_columns_def columns_truncated_def py_slice_def example_column_def column_response_def
        nullability_value_def opt_str_def int_str_def nat_str.simps)
  then have "length (json_dumps (MapV (context_body example_digest example_source example_prepared False))) < 100000"
    using length_json_dumps(1) le_less_trans by blast
  moreover have "max_metadata_response_bytes (budget example_source) = 100000"
    by (simp add: example_source_def example_budget_def)
  ultimately show ?thesis by (simp add: context_response_Inr)
qed

definition example_published :: metadata_state where
  "example_published =
     reachable_metadata example_digest example_settings [example_source]
       [Start ''shop'' 0, Finish ''shop'' (Inr example_catalog) 10]"

lemma example_registry: "registry_get (source_registry [example_source]) ''shop'' = Some example_source"
  by (simp add: source_registry_def registry_get_def example_source_def)

lemma example_valid: "validate_snapshot example_source example_catalog = []"
  by (simp add: validate_snapshot_def relation_issues_def example_catalog_def example_relation_def
      example_source_def)

lemma example_source_id [simp]: "source_id example_source = ''shop''"
  by (simp add: example_source_def)

lemma example_waiting:
  "reachable_metadata example_digest example_settings [example_source] [Start ''shop'' 0] =
     \<lparr>cache = [], signatures = [], held = [(''shop'', None)],
      ops = increment ''metadata_refresh_started'' ''shop'' initial_operations\<rparr>"
  by (simp add: reachable_metadata_def metadata_step_def example_registry start_get_def
      initial_metadata_def Let_def)

lemma example_step:
  "fst (metadata_step example_digest example_settings (source_registry [example_source])
     (reachable_metadata example_digest example_settings [example_source] [Start ''shop'' 0])
     (Finish ''shop'' (Inr example_catalog) 10)) = Some (Inr (example_prepared, False))"
  by (simp add: example_waiting metadata_step_def example_registry finish_get_def publish_def
      snapshot_issues_def example_valid example_context [unfolded example_prepared_def]
      example_prepared_def Let_def split: prod.split)

lemma example_published_cache:
  "map_of (cache example_published) ''shop'' = Some \<lparr>entry_value = example_prepared, loaded_at = 10,
     expires_at = 30010, next_refresh_at = 30010\<rparr> \<and> held example_published = []"
proof -
  have eq: "example_published = snd (metadata_step example_digest example_settings
      (source_registry [example_source])
      (reachable_metadata example_digest example_settings [example_source] [Start ''shop'' 0])
      (Finish ''shop'' (Inr example_catalog) 10))"
    unfolding example_published_def by (subst reachable_snoc [symmetric]) simp
  show ?thesis unfolding eq
    by (simp add: example_waiting metadata_step_def example_registry finish_get_def publish_def
      snapshot_issues_def example_valid example_context [unfolded example_prepared_def]
      example_prepared_def Let_def cache_value_def)
qed

text \<open>Twenty milliseconds later the cached value is answered.\<close>

lemma example_cached:
  "fst (metadata_step example_digest example_settings (source_registry [example_source])
     (reachable_metadata example_digest example_settings [example_source]
        ([Start ''shop'' 0] @ Finish ''shop'' (Inr example_catalog) 10 # [])) (Start ''shop'' 30))
   = Some (Inr (example_prepared, False))"
  using example_published_cache unfolding example_published_def
  by (simp add: metadata_step_def example_registry start_get_def Let_def)

text \<open>After it expired, a load that times out is answered with the stale value.\<close>

lemma example_stale:
  "\<exists>st. metadata_step example_digest example_settings (source_registry [example_source])
     (reachable_metadata example_digest example_settings [example_source]
        [Start ''shop'' 0, Finish ''shop'' (Inr example_catalog) 10, Start ''shop'' 40000])
     (Finish ''shop'' (Inl TimeoutError) 40005) = (Some (Inr (example_prepared, True)), st)"
proof -
  have "reachable_metadata example_digest example_settings [example_source]
      [Start ''shop'' 0, Finish ''shop'' (Inr example_catalog) 10, Start ''shop'' 40000] =
    snd (metadata_step example_digest example_settings (source_registry [example_source])
      example_published (Start ''shop'' 40000))"
    unfolding example_published_def by (subst reachable_snoc [symmetric]) simp
  then show ?thesis
    using example_published_cache
    by (simp add: metadata_step_def example_registry start_get_def finish_get_def Let_def
        refresh_failed_def is_metadata_unavailable_def cause_of_def dict_simps)
qed

theorem metadata_answers_validated_witness:
  "validate_snapshot example_source (snapshot example_prepared) = []"
  using metadata_answers_validated [OF example_step] example_registry by auto

theorem metadata_staleness_bounded_witness:
  "\<exists>e :: cache_entry. entry_value e = example_prepared \<and> 40005 - loaded_at e \<le> 300000"
proof -
  obtain st where "metadata_step example_digest example_settings (source_registry [example_source])
     (reachable_metadata example_digest example_settings [example_source]
        [Start ''shop'' 0, Finish ''shop'' (Inr example_catalog) 10, Start ''shop'' 40000])
     (Finish ''shop'' (Inl TimeoutError) 40005) = (Some (Inr (example_prepared, True)), st)"
    using example_stale by blast
  from metadata_staleness_bounded [OF this] obtain e :: cache_entry where "entry_value e = example_prepared \<and>
      event_time (Finish ''shop'' (Inl TimeoutError) 40005) - loaded_at e \<le> max_stale_ms example_settings"
    unfolding if_True by blast
  then show ?thesis by (intro exI [of _ e]) simp
qed


theorem metadata_fails_closed_witness:
  "map_of (cache (snd (metadata_step example_digest example_settings (source_registry [example_source])
      (snd (metadata_step example_digest example_settings (source_registry [example_source])
        example_published (Start ''shop'' 40000)))
      (Finish ''shop'' (Inl ReaderSessionPolicyError) 40005)))) ''shop'' = None"
proof -
  let ?st = "snd (metadata_step example_digest example_settings (source_registry [example_source])
        example_published (Start ''shop'' 40000))"
  have "\<exists>c. map_of (held ?st) ''shop'' = Some c"
    using example_published_cache
    by (simp add: metadata_step_def example_registry start_get_def Let_def)
  then obtain c where held: "map_of (held ?st) ''shop'' = Some c" ..
  obtain answer st where step: "metadata_step example_digest example_settings
      (source_registry [example_source]) ?st (Finish ''shop'' (Inl ReaderSessionPolicyError) 40005) = (answer, st)"
    by fastforce
  from metadata_fails_closed [OF example_registry held _ step] show ?thesis by (simp add: step)
qed

text \<open>
  C26: a transient failure is survived and retried later. When a load fails otherwise than by
  policy or validation while the old entry is recent enough, the request is answered with the
  old value, marked stale; and until the retry time every request that comes while the value is
  still recent enough is answered with it at once, without asking the catalog again.
\<close>
theorem metadata_transient_failure_retried:
  assumes "registry_get (source_registry sources) sid = Some source"
    and "map_of (held st) sid = Some (Some c)"
    and "\<not> is_metadata_unavailable e" and "cause_of e = OtherCause" and "is_exception e"
    and "failed_at - loaded_at c \<le> max_stale_ms cfg"
    and "metadata_step sha256_hex cfg (source_registry sources) st (Finish sid (Inl e) failed_at) = (answer, st')"
    and "expires_at c \<le> t" and "t < failed_at + refresh_retry_ms cfg"
    and "t - loaded_at c \<le> max_stale_ms cfg"
  shows "answer = Some (Inr (entry_value c, True)) \<and>
    fst (metadata_step sha256_hex cfg (source_registry sources) st' (Start sid t)) =
      Some (Inr (entry_value c, True)) \<and>
    held (snd (metadata_step sha256_hex cfg (source_registry sources) st' (Start sid t))) = held st'"
proof -
  have sid: "source_id source = sid" using registry_get_id [OF assms(1)] by simp
  have "answer = Some (Inr (entry_value c, True))"
    and st': "map_of (cache st') sid = Some (c\<lparr>next_refresh_at := failed_at + refresh_retry_ms cfg\<rparr>)"
      "map_of (held st') sid = None"
    using assms(1-7) sid
    by (auto simp: metadata_step_def finish_get_def refresh_failed_def Let_def dict_simps)
  with assms(1,8-10) sid show ?thesis
    by (simp add: metadata_step_def start_get_def Let_def)
qed

theorem metadata_transient_failure_retried_witness:
  "\<exists>st. fst (metadata_step example_digest example_settings (source_registry [example_source]) st
     (Start ''shop'' 41000)) = Some (Inr (example_prepared, True))"
proof -
  let ?c = "\<lparr>entry_value = example_prepared, loaded_at = 10, expires_at = 30010, next_refresh_at = 30010\<rparr>"
  let ?st = "snd (metadata_step example_digest example_settings (source_registry [example_source])
        example_published (Start ''shop'' 40000))"
  have held: "map_of (held ?st) ''shop'' = Some (Some ?c)"
    using example_published_cache
    by (simp add: metadata_step_def example_registry start_get_def Let_def)
  obtain answer st where step: "metadata_step example_digest example_settings
      (source_registry [example_source]) ?st (Finish ''shop'' (Inl TimeoutError) 40005) = (answer, st)"
    by fastforce
  from metadata_transient_failure_retried [OF example_registry held _ _ _ _ step, of 41000]
  show ?thesis by (auto simp: is_metadata_unavailable_def cause_of_def)
qed

text \<open>
  The context response. It is given only when its JSON text is within the byte limit of the
  source; it lists every relation of the snapshot once, by qualified name, each with the first
  columns by position up to the limit; and it is marked truncated exactly when some relation
  has more columns than that limit.
\<close>
theorem context_response_bounded:
  assumes "context_response sha256_hex source p stale = Inr r"
    and "0 \<le> max_context_columns_per_relation (budget source)"
  shows "int (length (json_dumps (MapV r))) \<le> max_metadata_response_bytes (budget source) \<and>
    (\<exists>rels. map_of r ''relations'' =
        Some (SeqV (map (relation_response (max_context_columns_per_relation (budget source))) rels)) \<and>
       mset rels = mset (relations (snapshot p)) \<and> sorted (map qualified_name rels) \<and>
       map_of r ''truncated'' = Some (BoolV (list_ex (\<lambda>rel.
         int (length (columns rel)) > max_context_columns_per_relation (budget source)) rels)))"
proof -
  let ?m = "max_context_columns_per_relation (budget source)"
  let ?rels = "sort_key qualified_name (relations (snapshot p))"
  have "columns_truncated ?m rel \<longleftrightarrow> int (length (columns rel)) > ?m" for rel
    using assms(2) by (auto simp: columns_truncated_def py_slice_def ordered_columns_def)
  then have trunc: "columns_truncated ?m = (\<lambda>rel. int (length (columns rel)) > ?m)" by blast
  from assms(1) have r: "r = context_body sha256_hex source p stale"
    "int (length (json_dumps (MapV r))) \<le> max_metadata_response_bytes (budget source)"
    unfolding context_response_Inr by blast+
  have "map_of r ''relations'' = Some (SeqV (map (relation_response ?m) ?rels))"
    "map_of r ''truncated'' = Some (BoolV (list_ex (columns_truncated ?m) ?rels))"
    unfolding r(1) by (simp_all add: context_body_def Let_def)
  with r(2) trunc show ?thesis by (intro conjI exI [of _ ?rels]) simp_all
qed

theorem context_response_bounded_witness:
  "map_of (context_body example_digest example_source example_prepared False) ''truncated'' = Some (BoolV True)"
proof -
  have "max_context_columns_per_relation (budget example_source) = 1"
    by (simp add: example_source_def example_budget_def)
  then obtain rels where rels: "mset rels = mset (relations example_catalog)"
    "map_of (context_body example_digest example_source example_prepared False) ''truncated'' =
       Some (BoolV (list_ex (\<lambda>rel. int (length (columns rel)) > 1) rels))"
    using context_response_bounded [OF example_context] by (auto simp: example_prepared_def)
  have "example_relation ''orders'' \<in> set rels"
    using mset_eq_setD [OF rels(1)] by (simp add: example_catalog_def)
  moreover have "int (length (columns (example_relation ''orders''))) > 1"
    by (simp add: example_relation_def)
  ultimately have "list_ex (\<lambda>rel. int (length (columns rel)) > 1) rels"
    unfolding list_ex_iff by blast
  with rels(2) show ?thesis by simp
qed

end
