(* ===== verification/SqlValidationSpec.thy ===== *)
theory SqlValidationSpec
  imports SqlValidation
begin

text \<open>
  What the SQL validator promises, stated without its loops: conditions on each node of the
  tree, the scoping rule of CTE names as an inductive relation, and the equivalence of the
  validator with both, from which the properties of accepted statements follow.
\<close>

section \<open>What the handlers check and record\<close>

text \<open>
  A specification of the node policy that does not depend on the order of the checks: the
  name a call denotes, the operators an expression applies, and the conditions on a node.
\<close>

definition called_function :: "python \<Rightarrow> node \<Rightarrow> string option" where
  "called_function py m = (case string_parts py (py_get ''funcname'' m) of
     [f] \<Rightarrow> Some (casefold py f)
   | [s, f] \<Rightarrow> (if s = ''pg_catalog'' then Some (casefold py f) else None)
   | _ \<Rightarrow> None)"

definition expr_kind :: "python \<Rightarrow> node \<Rightarrow> string" where
  "expr_kind py m = (case py_get ''kind'' m of
     MapV kind \<Rightarrow> (case map_of kind ''name'' of None \<Rightarrow> [] | Some v \<Rightarrow> py_str py v) | _ \<Rightarrow> [])"

definition two_bounds :: "node \<Rightarrow> bool" where
  "two_bounds m \<longleftrightarrow> is_mapping (py_get ''lexpr'' m)
     \<and> (case py_get ''rexpr'' m of
          SeqV bounds \<Rightarrow> length bounds = 2 \<and> list_all is_mapping bounds | _ \<Rightarrow> False)"

definition applied_operators :: "python \<Rightarrow> node \<Rightarrow> string set option" where
  "applied_operators py m =
     (if expr_kind py m = ''AEXPR_BETWEEN'' then (if two_bounds m then Some {''>='', ''<=''} else None)
      else if map_of REJECTED_A_EXPR_CONSTRUCTS (expr_kind py m) \<noteq> None then None
      else case string_parts py (py_get ''name'' m) of
        [] \<Rightarrow> Some {} | [op] \<Rightarrow> Some {op} | _ \<Rightarrow> None)"

definition type_approved :: "python \<Rightarrow> string set \<Rightarrow> node \<Rightarrow> bool" where
  "type_approved py types m = (case string_parts py (py_get ''names'' m) of
     [] \<Rightarrow> True
   | [t] \<Rightarrow> casefold py t \<in> set DEFAULT_ALLOWED_UNQUALIFIED_TYPES \<and> casefold py t \<in> types
   | [s, t] \<Rightarrow> s = ''pg_catalog'' \<and> casefold py t \<in> types
   | _ \<Rightarrow> False)"

definition value_function_name :: "node \<Rightarrow> pyval" where
  "value_function_name m =
     (case py_get ''op'' m of MapV operation \<Rightarrow> py_get ''name'' operation | _ \<Rightarrow> NoneV)"

definition tag_conditions :: "python \<Rightarrow> validation_policy \<Rightarrow> string \<Rightarrow> node \<Rightarrow> bool" where
  "tag_conditions py p tag m \<longleftrightarrow>
     (tag = ''SelectStmt'' \<longrightarrow>
        py_get ''intoClause'' m = NoneV \<and> \<not> truthy (py_get ''lockingClause'' m)) \<and>
     (tag = ''WithClause'' \<longrightarrow> \<not> truthy (py_get ''recursive'' m)) \<and>
     (tag = ''FuncCall'' \<longrightarrow> (\<exists>f. called_function py m = Some f \<and> f \<in> allowed_functions p)) \<and>
     (tag = ''A_Expr'' \<longrightarrow> (\<exists>ops. applied_operators py m = Some ops \<and> ops \<subseteq> allowed_operators p)) \<and>
     (tag = ''TypeName'' \<longrightarrow> type_approved py (allowed_types p) m) \<and>
     (tag = ''SQLValueFunction'' \<longrightarrow>
        value_function_name m \<in> StrV ` set ALLOWED_SQL_VALUE_FUNCTIONS) \<and>
     tag \<noteq> ''CollateClause''"

definition node_ok :: "python \<Rightarrow> validation_policy \<Rightarrow> node \<Rightarrow> bool" where
  "node_ok py p m \<longleftrightarrow>
     node_tag py m \<in> set ALLOWED_NODE_TAGS \<and> node_tag py m \<notin> fst ` set FORBIDDEN_NODE_CODES \<and>
     tag_conditions py p (node_tag py m) m"

definition node_functions :: "python \<Rightarrow> node \<Rightarrow> string set" where
  "node_functions py m = (if node_tag py m = ''FuncCall''
     then (case called_function py m of None \<Rightarrow> {} | Some f \<Rightarrow> {''pg_catalog.'' @ f}) else {})"

definition node_operators :: "python \<Rightarrow> node \<Rightarrow> string set" where
  "node_operators py m = (if node_tag py m = ''A_Expr''
     then (case applied_operators py m of None \<Rightarrow> {} | Some ops \<Rightarrow> ops) else {})"

definition note_node :: "python \<Rightarrow> node \<Rightarrow> validation_policy \<Rightarrow> validation_policy" where
  "note_node py m p =
     p\<lparr>found_functions := node_functions py m \<union> found_functions p,
       found_operators := node_operators py m \<union> found_operators p\<rparr>"

text \<open>Only one allowed tag ends in \<open>Stmt\<close>, so the check for nested statements is implied.\<close>

lemma allowed_statement_tags:
  "tag \<in> set ALLOWED_NODE_TAGS \<Longrightarrow> py_ends ''Stmt'' tag \<Longrightarrow> tag = ''SelectStmt''"
proof -
  have "list_all (\<lambda>t. py_ends ''Stmt'' t \<longrightarrow> t = ''SelectStmt'') ALLOWED_NODE_TAGS"
    by code_simp
  then show "tag \<in> set ALLOWED_NODE_TAGS \<Longrightarrow> py_ends ''Stmt'' tag \<Longrightarrow> tag = ''SelectStmt''"
    by (simp add: list_all_iff)
qed

lemma validate_FuncCall_Inr:
  "validate_FuncCall py p m = Inr q \<longleftrightarrow>
     (\<exists>f. called_function py m = Some f \<and> f \<in> allowed_functions p \<and>
        q = p\<lparr>found_functions := insert (''pg_catalog.'' @ f) (found_functions p)\<rparr>)"
proof -
  consider "string_parts py (py_get ''funcname'' m) = []"
    | f where "string_parts py (py_get ''funcname'' m) = [f]"
    | a f where "string_parts py (py_get ''funcname'' m) = [a, f]"
    | a b c r where "string_parts py (py_get ''funcname'' m) = a # b # c # r"
    by (metis list.exhaust)
  then show ?thesis
    by cases (auto simp: validate_FuncCall_def called_function_def)
qed

lemma validate_A_Expr_Inr:
  "validate_A_Expr py p m = Inr q \<longleftrightarrow>
     (\<exists>ops. applied_operators py m = Some ops \<and> ops \<subseteq> allowed_operators p \<and>
        q = p\<lparr>found_operators := ops \<union> found_operators p\<rparr>)"
proof -
  have kind: "(case py_get ''kind'' m of
      MapV kind \<Rightarrow> (case map_of kind ''name'' of None \<Rightarrow> [] | Some v \<Rightarrow> py_str py v) | _ \<Rightarrow> [])
    = expr_kind py m" by (simp add: expr_kind_def)
  have bounds: "\<not> is_mapping (py_get ''lexpr'' m)
      \<or> (case py_get ''rexpr'' m of
           SeqV bounds \<Rightarrow> length bounds \<noteq> 2 \<or> \<not> list_all is_mapping bounds | _ \<Rightarrow> True)
      \<or> \<not> {''>='', ''<=''} \<subseteq> allowed_operators p
    \<longleftrightarrow> \<not> (two_bounds m \<and> {''>='', ''<=''} \<subseteq> allowed_operators p)"
    by (auto simp: two_bounds_def split: pyval.splits)
  consider "string_parts py (py_get ''name'' m) = []"
    | f where "string_parts py (py_get ''name'' m) = [f]"
    | a b r where "string_parts py (py_get ''name'' m) = a # b # r"
    by (metis list.exhaust)
  then show ?thesis
    unfolding validate_A_Expr_def Let_def kind bounds applied_operators_def operator_error_def
    by cases (auto split: option.splits)
qed

lemma validate_TypeName_Inr:
  "validate_TypeName py p m = Inr q \<longleftrightarrow> type_approved py (allowed_types p) m \<and> q = p"
proof -
  consider "string_parts py (py_get ''names'' m) = []"
    | f where "string_parts py (py_get ''names'' m) = [f]"
    | a f where "string_parts py (py_get ''names'' m) = [a, f]"
    | a b c r where "string_parts py (py_get ''names'' m) = a # b # c # r"
    by (metis list.exhaust)
  then show ?thesis
    by cases (auto simp: validate_TypeName_def type_approved_def Let_def)
qed

lemma validate_simple_Inr:
  "validate_SelectStmt p m = Inr q \<longleftrightarrow>
     py_get ''intoClause'' m = NoneV \<and> \<not> truthy (py_get ''lockingClause'' m) \<and> q = p"
  "validate_WithClause p m = Inr q \<longleftrightarrow> \<not> truthy (py_get ''recursive'' m) \<and> q = p"
  "validate_SQLValueFunction p m = Inr q \<longleftrightarrow>
     value_function_name m \<in> StrV ` set ALLOWED_SQL_VALUE_FUNCTIONS \<and> q = p"
  "validate_CollateClause p m = Inr q \<longleftrightarrow> False"
  by (auto simp: validate_SelectStmt_def validate_WithClause_def validate_SQLValueFunction_def
      validate_CollateClause_def value_function_name_def Let_def)

lemma note_node_other:
  "node_tag py m \<noteq> ''FuncCall'' \<Longrightarrow> node_tag py m \<noteq> ''A_Expr'' \<Longrightarrow> note_node py m p = p"
  by (simp add: note_node_def node_functions_def node_operators_def)

lemma validate_handler_Inr:
  "validate_handler py (node_tag py m) p m = Inr q \<longleftrightarrow>
     tag_conditions py p (node_tag py m) m \<and> q = note_node py m p"
proof -
  consider (fun_call) "node_tag py m = ''FuncCall''" | (a_expr) "node_tag py m = ''A_Expr''"
    | (sel) "node_tag py m = ''SelectStmt''" | (withc) "node_tag py m = ''WithClause''"
    | (typed) "node_tag py m = ''TypeName''" | (svf) "node_tag py m = ''SQLValueFunction''"
    | (coll) "node_tag py m = ''CollateClause''"
    | (rest) "node_tag py m \<notin> {''FuncCall'', ''A_Expr'', ''SelectStmt'', ''WithClause'',
        ''TypeName'', ''SQLValueFunction'', ''CollateClause''}" by blast
  then show ?thesis
  proof cases
    case fun_call
    then show ?thesis
      by (auto simp: validate_handler_def validate_FuncCall_Inr tag_conditions_def note_node_def
          node_functions_def node_operators_def)
  next
    case a_expr
    then show ?thesis
      by (auto simp: validate_handler_def validate_A_Expr_Inr tag_conditions_def note_node_def
          node_functions_def node_operators_def)
  next
    case rest
    then show ?thesis
      by (auto simp: validate_handler_def tag_conditions_def note_node_other)
  qed (simp_all add: validate_handler_def validate_simple_Inr validate_TypeName_Inr
      tag_conditions_def note_node_other)
qed

lemma validate_node_Inr:
  "validate_node py p m = Inr q \<longleftrightarrow> node_ok py p m \<and> q = note_node py m p"
proof (cases "node_tag py m \<in> set ALLOWED_NODE_TAGS")
  case True
  have "map_of FORBIDDEN_NODE_CODES (node_tag py m) = None \<longleftrightarrow>
      node_tag py m \<notin> fst ` set FORBIDDEN_NODE_CODES" by (rule map_of_eq_None_iff)
  with True allowed_statement_tags [OF True] show ?thesis
    by (auto simp: validate_node_def Let_def node_ok_def validate_handler_Inr split: option.splits)
next
  case False
  then show ?thesis
    by (auto simp: validate_node_def Let_def node_ok_def split: option.splits)
qed

section \<open>Which nodes the walk yields\<close>

text \<open>The nodes of a tree in preorder, with no bound on the recursion.\<close>

fun nodes_of :: "pyval \<Rightarrow> node list" and nodes_of_list :: "pyval list \<Rightarrow> node list"
  and nodes_of_pairs :: "(string \<times> pyval) list \<Rightarrow> node list" where
  "nodes_of (MapV m) = (if ''@'' \<in> fst ` set m then m # nodes_of_pairs m else nodes_of_pairs m)"
| "nodes_of (SeqV vs) = nodes_of_list vs"
| "nodes_of v = []"
| "nodes_of_list [] = []"
| "nodes_of_list (v # vs) = nodes_of v @ nodes_of_list vs"
| "nodes_of_pairs [] = []"
| "nodes_of_pairs ((k, v) # kvs) = nodes_of v @ nodes_of_pairs kvs"

lemma nodes_of_pairs_eq: "nodes_of_pairs kvs = nodes_of_list (map snd kvs)"
  by (induction kvs rule: list.induct) auto

lemma heights_pairs_eq: "heights_pairs kvs = heights (map snd kvs)"
  by (induction kvs rule: list.induct) auto

lemma walk_complete:
  "snd (walk_nodes n v) \<Longrightarrow> fst (walk_nodes n v) = nodes_of v"
  "snd (walk_list n vs) \<Longrightarrow> fst (walk_list n vs) = nodes_of_list vs"
  by (induction n v and n vs rule: walk_nodes_walk_list.induct)
    (auto simp: nodes_of_pairs_eq split: prod.splits if_splits)

lemma walk_ends:
  "height v \<le> n \<Longrightarrow> snd (walk_nodes n v)"
  "heights vs \<le> n \<Longrightarrow> snd (walk_list n vs)"
proof (induction n v and n vs rule: walk_nodes_walk_list.induct)
  case (1 v)
  then show ?case by (cases v) auto
qed (auto simp: heights_pairs_eq split: prod.splits)

lemma walk_nodes_eq: "height v \<le> n \<Longrightarrow> walk_nodes n v = (nodes_of v, True)"
  using walk_complete(1) [of n v] walk_ends(1) [of v n] by (metis prod.collapse)

section \<open>Scoping of relation names\<close>

text \<open>
  The scoping rule of common table expressions, declaratively: \<open>scope_ref\<close> and
  \<open>value_ref\<close> relate a select (a value) read where the names \<open>outer\<close> are visible to a range
  variable in it and the names visible there. A CTE sees the outer names and its earlier
  siblings, the rest of the select sees all of them.
\<close>

definition names_of :: "python \<Rightarrow> node list \<Rightarrow> string set" where
  "names_of py ctes = \<Union> (cte_names py ` set ctes)"

inductive scope_ref :: "python \<Rightarrow> node \<Rightarrow> string set \<Rightarrow> node \<Rightarrow> string set \<Rightarrow> bool"
  and value_ref :: "python \<Rightarrow> pyval \<Rightarrow> string set \<Rightarrow> node \<Rightarrow> string set \<Rightarrow> bool"
  for py :: python where
  in_cte: "with_ctes m = before @ cte # after \<Longrightarrow> py_get ''ctequery'' cte = MapV q \<Longrightarrow>
     is_select q \<Longrightarrow> scope_ref py q (outer \<union> names_of py before) rv vis \<Longrightarrow>
     scope_ref py m outer rv vis"
| in_body: "v \<in> set (scope_items m) \<Longrightarrow>
     value_ref py v (outer \<union> names_of py (with_ctes m)) rv vis \<Longrightarrow> scope_ref py m outer rv vis"
| here: "py_get ''@'' rv = StrV ''RangeVar'' \<Longrightarrow> value_ref py (MapV rv) vis rv vis"
| in_select: "is_select m \<Longrightarrow> scope_ref py m outer rv vis \<Longrightarrow> value_ref py (MapV m) outer rv vis"
| in_node: "py_get ''@'' m \<noteq> StrV ''RangeVar'' \<Longrightarrow> \<not> is_select m \<Longrightarrow> v \<in> set (map snd m) \<Longrightarrow>
     value_ref py v outer rv vis \<Longrightarrow> value_ref py (MapV m) outer rv vis"
| in_seq: "v \<in> set vs \<Longrightarrow> value_ref py v outer rv vis \<Longrightarrow> value_ref py (SeqV vs) outer rv vis"

inductive_simps scope_ref_iff: "scope_ref py m outer rv vis"
inductive_simps value_ref_Map_iff: "value_ref py (MapV m) outer rv vis"
inductive_simps value_ref_Seq_iff: "value_ref py (SeqV vs) outer rv vis"
inductive_simps value_ref_scalar [simp]:
  "value_ref py NoneV outer rv vis" "value_ref py (BoolV b) outer rv vis"
  "value_ref py (IntV i) outer rv vis" "value_ref py (StrV s) outer rv vis"

type_synonym ref = "node \<times> string set"

definition scope_refs :: "python \<Rightarrow> node \<Rightarrow> string set \<Rightarrow> ref set" where
  "scope_refs py m outer = {(rv, vis). scope_ref py m outer rv vis}"

definition value_refs :: "python \<Rightarrow> pyval \<Rightarrow> string set \<Rightarrow> ref set" where
  "value_refs py v outer = {(rv, vis). value_ref py v outer rv vis}"

fun cte_refs :: "python \<Rightarrow> node list \<Rightarrow> string set \<Rightarrow> ref set" where
  "cte_refs py [] outer = {}"
| "cte_refs py (cte # ctes) outer =
     (case py_get ''ctequery'' cte of
        MapV q \<Rightarrow> (if is_select q then scope_refs py q outer else {}) | _ \<Rightarrow> {})
     \<union> cte_refs py ctes (outer \<union> cte_names py cte)"

lemma names_of_simps [simp]:
  "names_of py [] = {}" "names_of py (c # cs) = cte_names py c \<union> names_of py cs"
  by (auto simp: names_of_def)

lemma split_first:
  "(\<exists>before x after. c # cs = before @ x # after \<and> P before x) \<longleftrightarrow>
     P [] c \<or> (\<exists>before x after. cs = before @ x # after \<and> P (c # before) x)"
  (is "?l \<longleftrightarrow> ?r")
proof
  assume ?l
  then obtain before x after where eq: "c # cs = before @ x # after" and "P before x" by blast
  then show ?r by (cases before) auto
next
  assume ?r
  then show ?l
  proof
    assume "\<exists>before x after. cs = before @ x # after \<and> P (c # before) x"
    then obtain before x after where "c # cs = (c # before) @ x # after" "P (c # before) x" by auto
    then show ?l by blast
  qed blast
qed

lemma cte_refs_iff:
  "(rv, vis) \<in> cte_refs py ctes outer \<longleftrightarrow>
    (\<exists>before cte after. ctes = before @ cte # after \<and>
       (\<exists>q. py_get ''ctequery'' cte = MapV q \<and> is_select q \<and>
          scope_ref py q (outer \<union> names_of py before) rv vis))"
proof (induction ctes arbitrary: outer)
  case (Cons c cs)
  have "(rv, vis) \<in> cte_refs py (c # cs) outer \<longleftrightarrow>
      (\<exists>q. py_get ''ctequery'' c = MapV q \<and> is_select q \<and> scope_ref py q outer rv vis)
      \<or> (rv, vis) \<in> cte_refs py cs (outer \<union> cte_names py c)"
    by (auto simp: scope_refs_def split: pyval.splits)
  then show ?case by (simp only: split_first Cons.IH names_of_simps Un_assoc Un_empty_right)
qed simp

lemma scope_refs_eq:
  "scope_refs py m outer = cte_refs py (with_ctes m) outer
     \<union> (\<Union>v \<in> set (scope_items m). value_refs py v (outer \<union> names_of py (with_ctes m)))"
proof -
  have "(rv, vis) \<in> scope_refs py m outer \<longleftrightarrow> (rv, vis) \<in> cte_refs py (with_ctes m) outer
     \<or> (\<exists>v \<in> set (scope_items m). value_ref py v (outer \<union> names_of py (with_ctes m)) rv vis)"
    for rv vis
    unfolding scope_refs_def cte_refs_iff mem_Collect_eq prod.case
    by (subst scope_ref_iff) blast
  then show ?thesis by (auto simp: value_refs_def)
qed

lemma value_refs_Map:
  "value_refs py (MapV m) outer =
     (if py_get ''@'' m = StrV ''RangeVar'' then {(m, outer)}
      else if is_select m then scope_refs py m outer
      else (\<Union>v \<in> set (map snd m). value_refs py v outer))"
  by (auto simp: scope_refs_def value_refs_def value_ref_Map_iff is_select_def)

lemma value_refs_Seq: "value_refs py (SeqV vs) outer = (\<Union>v \<in> set vs. value_refs py v outer)"
  by (auto simp: value_refs_def value_ref_Seq_iff)

lemma value_refs_scalar [simp]:
  "value_refs py NoneV outer = {}" "value_refs py (BoolV b) outer = {}"
  "value_refs py (IntV i) outer = {}" "value_refs py (StrV s) outer = {}"
  by (simp_all add: value_refs_def)
section \<open>The scope pass checks exactly the references\<close>

definition range_relation :: "python \<Rightarrow> node \<Rightarrow> string" where
  "range_relation py rv = (case map_of rv ''relname'' of None \<Rightarrow> [] | Some v \<Rightarrow> py_str py v)"

definition range_qualified :: "python \<Rightarrow> node \<Rightarrow> string" where
  "range_qualified py rv = py_str py (py_get ''schemaname'' rv) @ ''.'' @ range_relation py rv"

text \<open>
  A reference is admissible when it names no database, and is either schema-qualified and
  published, or the name of a visible CTE.
\<close>

definition range_ok :: "python \<Rightarrow> string set \<Rightarrow> ref \<Rightarrow> bool" where
  "range_ok py published r = (case r of (rv, vis) \<Rightarrow>
     \<not> truthy (py_get ''catalogname'' rv) \<and>
     (if truthy (py_get ''schemaname'' rv) then range_qualified py rv \<in> published
      else range_relation py rv \<in> vis))"

definition physical_relations :: "python \<Rightarrow> ref set \<Rightarrow> string set" where
  "physical_relations py R =
     {range_qualified py rv | rv vis. (rv, vis) \<in> R \<and> truthy (py_get ''schemaname'' rv)}"

definition note_refs :: "python \<Rightarrow> ref set \<Rightarrow> validation_policy \<Rightarrow> validation_policy" where
  "note_refs py R p = p\<lparr>found_relations := physical_relations py R \<union> found_relations p\<rparr>"

definition admits :: "python \<Rightarrow> validation_policy \<Rightarrow> ref set \<Rightarrow> validation_policy \<Rightarrow> bool" where
  "admits py p R q \<longleftrightarrow> (\<forall>r \<in> R. range_ok py (allowed_relations p) r) \<and> q = note_refs py R p"

lemma note_refs_empty [simp]: "note_refs py {} p = p"
  by (simp add: note_refs_def physical_relations_def)

lemma note_refs_fields [simp]:
  "allowed_relations (note_refs py R p) = allowed_relations p"
  "allowed_functions (note_refs py R p) = allowed_functions p"
  "found_functions (note_refs py R p) = found_functions p"
  "found_operators (note_refs py R p) = found_operators p"
  "found_relations (note_refs py R p) = physical_relations py R \<union> found_relations p"
  by (simp_all add: note_refs_def)

lemma physical_relations_Un:
  "physical_relations py (R \<union> S) = physical_relations py R \<union> physical_relations py S"
  by (auto simp: physical_relations_def)

lemma note_refs_note_refs: "note_refs py S (note_refs py R p) = note_refs py (R \<union> S) p"
  by (simp add: note_refs_def physical_relations_Un Un_ac)

lemma admits_empty [simp]: "admits py p {} q \<longleftrightarrow> q = p"
  by (auto simp: admits_def)

lemma admits_trans: "admits py p R q \<Longrightarrow> admits py q S t \<Longrightarrow> admits py p (R \<union> S) t"
  by (auto simp: admits_def note_refs_note_refs)

lemma admits_allowed: "admits py p R q \<Longrightarrow> allowed_relations q = allowed_relations p"
  by (simp add: admits_def)

lemma validate_range_var_Inr:
  "validate_range_var py p m vis = Inr q \<longleftrightarrow> admits py p {(m, vis)} q"
proof -
  have phys: "physical_relations py {(m, vis)} =
      (if truthy (py_get ''schemaname'' m) then {range_qualified py m} else {})"
    by (auto simp: physical_relations_def)
  show ?thesis
    by (auto simp: validate_range_var_def Let_def admits_def range_ok_def note_refs_def phys
        range_qualified_def range_relation_def)
qed

lemma validate_range_var_Inl:
  "validate_range_var py p m vis = Inl e \<Longrightarrow>
     e \<noteq> RecursionError \<and> \<not> range_ok py (allowed_relations p) (m, vis)"
  by (auto simp: validate_range_var_def Let_def range_ok_def range_qualified_def range_relation_def
      split: if_splits)

lemma scope_pass_sound:
  "validate_select_scope n py p m outer = Inr q \<Longrightarrow> admits py p (scope_refs py m outer) q"
  "validate_ctes n py p ctes outer = Inr qv \<Longrightarrow>
     admits py p (cte_refs py ctes outer) (fst qv) \<and> snd qv = outer \<union> names_of py ctes"
  "validate_scoped_value n py p v outer = Inr q \<Longrightarrow> admits py p (value_refs py v outer) q"
  "validate_scoped_list n py p vs outer = Inr q \<Longrightarrow>
     admits py p (\<Union>v \<in> set vs. value_refs py v outer) q"
proof (induction n py p m outer and n py p ctes outer and n py p v outer and n py p vs outer
    arbitrary: q and qv and q and q
    rule: validate_select_scope_validate_ctes_validate_scoped_value_validate_scoped_list.induct)
  case (2 n py p m outer)
  then obtain r vis where ctes: "validate_ctes n py p (with_ctes m) outer = Inr (r, vis)"
    and body: "validate_scoped_list n py r (scope_items m) vis = Inr q"
    by (auto simp: bindE_Inr_iff)
  from "2.IH"(1) [OF ctes] "2.IH"(2) [OF body] show ?case
    by (auto simp: scope_refs_eq intro: admits_trans)
next
  case (4 n py p cte ctes vis)
  then obtain r where r: "(case py_get ''ctequery'' cte of
        MapV query \<Rightarrow> (if is_select query then validate_select_scope n py p query vis else Inr p)
      | _ \<Rightarrow> Inr p) = Inr r"
    and rest: "validate_ctes n py r ctes (vis \<union> cte_names py cte) = Inr qv"
    by (auto simp: bindE_Inr_iff)
  from r "4.IH"(1) have "admits py p (case py_get ''ctequery'' cte of
        MapV query \<Rightarrow> (if is_select query then scope_refs py query vis else {}) | _ \<Rightarrow> {}) r"
    by (auto split: pyval.splits if_splits)
  with "4.IH"(2) [OF rest] show ?case
    by (auto simp: Un_assoc intro: admits_trans)
next
  case (6 n py p v visible)
  show ?case
  proof (cases v)
    case (MapV m)
    with 6 show ?thesis
      by (auto simp: value_refs_Map validate_range_var_Inr split: if_splits)
  next
    case (SeqV vs)
    with 6 show ?thesis by (simp add: value_refs_Seq)
  qed (use 6 in auto)
next
  case (8 n py p v vs visible)
  then obtain r where "validate_scoped_value n py p v visible = Inr r"
    and "validate_scoped_list n py r vs visible = Inr q" by (auto simp: bindE_Inr_iff)
  with 8 show ?case by (auto intro: admits_trans)
qed auto

text \<open>
  With two frames for each level of the tree the pass never runs out of them, and it raises
  only where some reference is not admissible.
\<close>

lemma py_get_height: "py_get k m = MapV q \<Longrightarrow> height (MapV q) < height (MapV m)"
  using map_of_height [of m k] by (auto simp: py_get_def split: option.splits)

lemma py_get_height_Seq: "py_get k m = SeqV vs \<Longrightarrow> height (SeqV vs) < height (MapV m)"
  using map_of_height [of m k] by (auto simp: py_get_def split: option.splits)

lemma with_ctesE:
  assumes "cte \<in> set (with_ctes m)"
  obtains w cs where "py_get ''withClause'' m = MapV w" and "py_get ''ctes'' w = SeqV cs"
    and "MapV cte \<in> set cs"
proof -
  from assms obtain w where w: "py_get ''withClause'' m = MapV w"
    by (cases "py_get ''withClause'' m") (auto simp: with_ctes_def)
  moreover from assms w obtain cs where cs: "py_get ''ctes'' w = SeqV cs"
    by (cases "py_get ''ctes'' w") (auto simp: with_ctes_def)
  moreover from assms w cs have "MapV cte \<in> set cs"
    by (auto simp: with_ctes_def split: pyval.splits)
  ultimately show ?thesis by (rule that)
qed

lemma cte_height:
  assumes "cte \<in> set (with_ctes m)"
  shows "height (MapV cte) + 2 \<le> height (MapV m)"
proof -
  from assms obtain w cs where w: "py_get ''withClause'' m = MapV w"
    and cs: "py_get ''ctes'' w = SeqV cs" and mem: "MapV cte \<in> set cs"
    by (rule with_ctesE)
  from height_le_heights [OF mem] have "height (MapV cte) < height (SeqV cs)" by simp
  with py_get_height [OF w] py_get_height_Seq [OF cs] show ?thesis by linarith
qed

lemma scope_item_height: "v \<in> set (scope_items m) \<Longrightarrow> height v < height (MapV m)"
  using height_le_heights_pairs by (fastforce simp: scope_items_def)

lemma scope_pass_complete:
  "2 * height (MapV m) \<le> Suc n \<Longrightarrow> validate_select_scope n py p m outer = Inl e \<Longrightarrow>
     e \<noteq> RecursionError \<and> (\<exists>r \<in> scope_refs py m outer. \<not> range_ok py (allowed_relations p) r)"
  "(\<And>c. c \<in> set ctes \<Longrightarrow> 2 * height (MapV c) \<le> n) \<Longrightarrow> validate_ctes n py p ctes outer = Inl e \<Longrightarrow>
     e \<noteq> RecursionError \<and> (\<exists>r \<in> cte_refs py ctes outer. \<not> range_ok py (allowed_relations p) r)"
  "2 * height v \<le> n \<Longrightarrow> validate_scoped_value n py p v outer = Inl e \<Longrightarrow>
     e \<noteq> RecursionError \<and> (\<exists>r \<in> value_refs py v outer. \<not> range_ok py (allowed_relations p) r)"
  "(\<And>v. v \<in> set vs \<Longrightarrow> 2 * height v \<le> n) \<Longrightarrow> validate_scoped_list n py p vs outer = Inl e \<Longrightarrow>
     e \<noteq> RecursionError \<and>
     (\<exists>v \<in> set vs. \<exists>r \<in> value_refs py v outer. \<not> range_ok py (allowed_relations p) r)"
proof (induction n py p m outer and n py p ctes outer and n py p v outer and n py p vs outer
    arbitrary: e and e and e and e
    rule: validate_select_scope_validate_ctes_validate_scoped_value_validate_scoped_list.induct)
  case (1 py p m outer)
  then show ?case by simp
next
  case (2 n py p m outer)
  have ctes_small: "2 * height (MapV c) \<le> n" if "c \<in> set (with_ctes m)" for c
    using cte_height [OF that] "2.prems"(1) by linarith
  have items_small: "2 * height v \<le> n" if "v \<in> set (scope_items m)" for v
    using scope_item_height [OF that] "2.prems"(1) by linarith
  show ?case
  proof (cases "validate_ctes n py p (with_ctes m) outer")
    case (Inl e')
    with "2.prems"(2) "2.IH"(1) [OF ctes_small] show ?thesis by (auto simp: scope_refs_eq)
  next
    case (Inr rv)
    then obtain r vis where rv: "rv = (r, vis)"
      and r: "allowed_relations r = allowed_relations p" and vis: "vis = outer \<union> names_of py (with_ctes m)"
      using scope_pass_sound(2) [OF Inr] by (cases rv) (auto dest: admits_allowed)
    from "2.prems"(2) Inr rv have "validate_scoped_list n py r (scope_items m) vis = Inl e" by simp
    from "2.IH"(2) [OF items_small this] r vis show ?thesis by (auto simp: scope_refs_eq)
  qed
next
  case (4 n py p cte ctes visible)
  let ?q = "case py_get ''ctequery'' cte of
      MapV query \<Rightarrow> (if is_select query then validate_select_scope n py p query visible else Inr p)
    | _ \<Rightarrow> Inr p"
  show ?case
  proof (cases ?q)
    case (Inl e')
    then obtain query where query: "py_get ''ctequery'' cte = MapV query" "is_select query"
      and e': "validate_select_scope n py p query visible = Inl e'"
      by (auto split: pyval.splits if_splits)
    have "2 * height (MapV query) \<le> Suc n"
      using py_get_height [OF query(1)] "4.prems"(1) [of cte] by simp
    from "4.IH"(1) [OF query this e'] query "4.prems"(2) Inl show ?thesis by auto
  next
    case (Inr r)
    have r: "allowed_relations r = allowed_relations p"
      using Inr by (auto split: pyval.splits if_splits dest!: scope_pass_sound(1) admits_allowed)
    from "4.prems"(2) Inr have "validate_ctes n py r ctes (visible \<union> cte_names py cte) = Inl e" by simp
    from "4.IH"(2) [OF _ this] "4.prems"(1) r show ?thesis by auto
  qed
next
  case (5 py p v visible)
  then show ?case by (cases v) auto
next
  case (6 n py p v visible)
  show ?case
  proof (cases v)
    case (MapV m)
    have "2 * height (MapV m) \<le> Suc n" using "6.prems"(1) MapV by simp
    moreover have "2 * height u \<le> n" if "u \<in> set (map snd m)" for u
      using that "6.prems"(1) MapV height_le_heights_pairs by fastforce
    ultimately show ?thesis using 6 MapV
      by (auto simp: value_refs_Map dest: validate_range_var_Inl split: if_splits)
  next
    case (SeqV vs)
    have "2 * height u \<le> n" if "u \<in> set vs" for u
      using that "6.prems"(1) SeqV height_le_heights by fastforce
    with 6 SeqV show ?thesis by (simp add: value_refs_Seq)
  qed (use 6 in auto)
next
  case (8 n py p v vs visible)
  show ?case
  proof (cases "validate_scoped_value n py p v visible")
    case (Inl e')
    with 8 show ?thesis by auto
  next
    case (Inr r)
    from "8.prems"(2) Inr have "validate_scoped_list n py r vs visible = Inl e" by simp
    from "8.IH"(2) [OF _ this] "8.prems"(1) admits_allowed [OF scope_pass_sound(3) [OF Inr]]
    show ?thesis by auto
  qed
qed auto

section \<open>The validator and its specification\<close>

definition tree_ok :: "python \<Rightarrow> validation_policy \<Rightarrow> node \<Rightarrow> bool" where
  "tree_ok py p tree \<longleftrightarrow>
     (\<forall>m \<in> set (nodes_of (MapV tree)). node_ok py p m) \<and>
     (\<forall>r \<in> scope_refs py tree {}. range_ok py (allowed_relations p) r)"

definition note_tree :: "python \<Rightarrow> node \<Rightarrow> validation_policy \<Rightarrow> validation_policy" where
  "note_tree py tree p =
     p\<lparr>found_relations := physical_relations py (scope_refs py tree {}) \<union> found_relations p,
       found_functions :=
         \<Union> (node_functions py ` set (nodes_of (MapV tree))) \<union> found_functions p,
       found_operators :=
         \<Union> (node_operators py ` set (nodes_of (MapV tree))) \<union> found_operators p\<rparr>"

definition note_nodes :: "python \<Rightarrow> node list \<Rightarrow> validation_policy \<Rightarrow> validation_policy" where
  "note_nodes py ms p =
     p\<lparr>found_functions := \<Union> (node_functions py ` set ms) \<union> found_functions p,
       found_operators := \<Union> (node_operators py ` set ms) \<union> found_operators p\<rparr>"

lemma node_ok_note_node [simp]: "node_ok py (note_node py m p) m' = node_ok py p m'"
  by (simp add: node_ok_def tag_conditions_def note_node_def)

lemma note_nodes_Cons: "note_nodes py ms (note_node py m p) = note_nodes py (m # ms) p"
  by (simp add: note_nodes_def note_node_def Un_ac)

lemma node_loop:
  "foldE (validate_node py) p ms = Inr q \<longleftrightarrow>
     (\<forall>m \<in> set ms. node_ok py p m) \<and> q = note_nodes py ms p"
proof (induction ms arbitrary: p)
  case Nil
  then show ?case by (auto simp: note_nodes_def)
next
  case (Cons m ms)
  show ?case
  proof (cases "validate_node py p m")
    case (Inl e)
    then have "\<not> node_ok py p m" using validate_node_Inr [of py p m "note_node py m p"] by auto
    with Inl show ?thesis by simp
  next
    case (Inr r)
    then have "node_ok py p m" and r: "r = note_node py m p" by (simp_all add: validate_node_Inr)
    with Inr Cons.IH [of r] show ?thesis by (simp add: note_nodes_Cons)
  qed
qed

lemma admits_note_nodes:
  "admits py (note_nodes py (nodes_of (MapV tree)) p) (scope_refs py tree {}) q \<Longrightarrow>
     q = note_tree py tree p"
  by (simp add: admits_def note_nodes_def note_refs_def note_tree_def)

lemma allowed_note_nodes [simp]: "allowed_relations (note_nodes py ms p) = allowed_relations p"
  by (simp add: note_nodes_def)

lemma validate_tree_sound:
  assumes "validate_tree py p tree = Inr q"
  shows "tree_ok py p tree \<and> q = note_tree py tree p"
proof -
  obtain ms ok where walk: "walk_nodes (frames py) (MapV tree) = (ms, ok)" by fastforce
  with assms obtain r where loop: "foldE (validate_node py) p ms = Inr r" and ok: ok
    and scope: "validate_select_scope (frames py) py r tree {} = Inr q"
    by (auto simp: validate_tree_def bindE_Inr_iff split: if_splits)
  from walk_complete(1) [of "frames py" "MapV tree"] walk ok have ms: "ms = nodes_of (MapV tree)" by simp
  from loop have nodes: "\<forall>m \<in> set ms. node_ok py p m" and r: "r = note_nodes py ms p"
    by (simp_all add: node_loop)
  from scope_pass_sound(1) [OF scope] have adm: "admits py r (scope_refs py tree {}) q" .
  then have "\<forall>x \<in> scope_refs py tree {}. range_ok py (allowed_relations p) x"
    using r by (simp add: admits_def)
  with nodes ms adm r show ?thesis by (simp add: tree_ok_def admits_note_nodes)
qed

lemma validate_tree_complete:
  assumes "2 * height (MapV tree) \<le> frames py" and "validate_tree py p tree = Inl e"
  shows "e \<noteq> RecursionError \<or> \<not> tree_ok py p tree" and "\<not> tree_ok py p tree"
proof -
  have walk: "walk_nodes (frames py) (MapV tree) = (nodes_of (MapV tree), True)"
    using assms(1) by (intro walk_nodes_eq) simp
  show "\<not> tree_ok py p tree"
  proof
    assume ok: "tree_ok py p tree"
    then have "foldE (validate_node py) p (nodes_of (MapV tree))
        = Inr (note_nodes py (nodes_of (MapV tree)) p)"
      by (simp add: node_loop tree_ok_def)
    with assms(2) walk
    have "validate_select_scope (frames py) py (note_nodes py (nodes_of (MapV tree)) p) tree {} = Inl e"
      by (simp add: validate_tree_def)
    from scope_pass_complete(1) [OF _ this] assms(1) ok show False by (auto simp: tree_ok_def)
  qed
  then show "e \<noteq> RecursionError \<or> \<not> tree_ok py p tree" by simp
qed

lemma handlers_no_recursion_error:
  "validate_SelectStmt p m \<noteq> Inl RecursionError" "validate_WithClause p m \<noteq> Inl RecursionError"
  "validate_FuncCall py p m \<noteq> Inl RecursionError" "validate_A_Expr py p m \<noteq> Inl RecursionError"
  "validate_TypeName py p m \<noteq> Inl RecursionError"
  "validate_SQLValueFunction p m \<noteq> Inl RecursionError"
  "validate_CollateClause p m \<noteq> Inl RecursionError"
        apply (simp add: validate_SelectStmt_def)
       apply (simp add: validate_WithClause_def)
      apply (simp add: validate_FuncCall_def Let_def)
     apply (simp add: validate_A_Expr_def operator_error_def Let_def split: option.splits)
    apply (simp add: validate_TypeName_def Let_def)
   apply (simp add: validate_SQLValueFunction_def Let_def)
  apply (simp add: validate_CollateClause_def)
  done

lemma validate_node_not_recursion: "validate_node py p m \<noteq> Inl RecursionError"
proof -
  have "validate_handler py tag p m \<noteq> Inl RecursionError" for tag
    unfolding validate_handler_def by (simp only: handlers_no_recursion_error split: if_split) simp
  then show ?thesis by (simp add: validate_node_def Let_def split: option.splits)
qed

lemma validate_tree_no_recursion_error:
  assumes "2 * height (MapV tree) \<le> frames py"
  shows "validate_tree py p tree \<noteq> Inl RecursionError"
proof
  assume fail: "validate_tree py p tree = Inl RecursionError"
  have walk: "walk_nodes (frames py) (MapV tree) = (nodes_of (MapV tree), True)"
    using assms by (intro walk_nodes_eq) simp
  have loop: "foldE (validate_node py) r ms \<noteq> Inl RecursionError" for r ms
    using validate_node_not_recursion by (induction ms arbitrary: r) (auto split: sum.splits)
  from fail walk loop obtain r where
    "validate_select_scope (frames py) py r tree {} = Inl RecursionError"
    by (auto simp: validate_tree_def bindE_Inl_iff)
  from scope_pass_complete(1) [OF _ this] assms show False by simp
qed

section \<open>Every range variable of a well-shaped tree is a reference\<close>

definition is_range :: "node \<Rightarrow> bool" where
  "is_range m \<longleftrightarrow> py_get ''@'' m = StrV ''RangeVar''"

definition no_range :: "pyval \<Rightarrow> bool" where
  "no_range v \<longleftrightarrow> list_all (\<lambda>m. \<not> is_range m) (nodes_of v)"

text \<open>
  What the parser's grammar guarantees of the trees it serialises: a range variable contains
  no other; a CTE is a mapping whose query is a select and which has no range variable
  outside it; a \<open>WITH\<close> clause has none outside its list of CTEs.
\<close>

definition cte_shape :: "pyval \<Rightarrow> bool" where
  "cte_shape c = (case c of
     MapV m \<Rightarrow> \<not> is_range m \<and> distinct (map fst m)
       \<and> (case py_get ''ctequery'' m of MapV q \<Rightarrow> is_select q | _ \<Rightarrow> False)
       \<and> list_all (\<lambda>(k, v). k = ''ctequery'' \<or> no_range v) m
   | _ \<Rightarrow> False)"

definition with_shape :: "pyval \<Rightarrow> bool" where
  "with_shape w = (case w of
     NoneV \<Rightarrow> True
   | MapV m \<Rightarrow> \<not> is_range m \<and> distinct (map fst m)
       \<and> (case py_get ''ctes'' m of SeqV cs \<Rightarrow> list_all cte_shape cs | _ \<Rightarrow> False)
       \<and> list_all (\<lambda>(k, v). k = ''ctes'' \<or> no_range v) m
   | _ \<Rightarrow> False)"

definition node_shape :: "node \<Rightarrow> bool" where
  "node_shape m \<longleftrightarrow>
     (is_range m \<longrightarrow> list_all (\<lambda>(k, v). no_range v) m) \<and>
     (is_select m \<longrightarrow> distinct (map fst m) \<and> with_shape (py_get ''withClause'' m))"

definition well_shaped :: "pyval \<Rightarrow> bool" where
  "well_shaped v \<longleftrightarrow> list_all node_shape (nodes_of v)"

lemma nodes_of_pairs_mem: "x \<in> set (nodes_of_pairs kvs) \<longleftrightarrow> (\<exists>(k, v) \<in> set kvs. x \<in> set (nodes_of v))"
  by (induction kvs rule: list.induct) auto

lemma nodes_of_list_mem: "x \<in> set (nodes_of_list vs) \<longleftrightarrow> (\<exists>v \<in> set vs. x \<in> set (nodes_of v))"
  by (induction vs) auto

lemma nodes_of_Map_mem:
  "x \<in> set (nodes_of (MapV m)) \<longleftrightarrow>
     ''@'' \<in> fst ` set m \<and> x = m \<or> (\<exists>(k, v) \<in> set m. x \<in> set (nodes_of v))"
  by (auto simp: nodes_of_pairs_mem)

lemma nodes_of_sub:
  "(k, v) \<in> set m \<Longrightarrow> set (nodes_of v) \<subseteq> set (nodes_of (MapV m))"
  "v \<in> set vs \<Longrightarrow> set (nodes_of v) \<subseteq> set (nodes_of (SeqV vs))"
  by (auto simp: nodes_of_list_mem nodes_of_pairs_mem intro!: bexI [of _ "(k, v)"])

lemma well_shaped_sub:
  "well_shaped (MapV m) \<Longrightarrow> (k, v) \<in> set m \<Longrightarrow> well_shaped v"
  "well_shaped (SeqV vs) \<Longrightarrow> v \<in> set vs \<Longrightarrow> well_shaped v"
  unfolding well_shaped_def list_all_iff using nodes_of_sub by blast+

lemma tagged: "py_get ''@'' m = StrV t \<Longrightarrow> ''@'' \<in> fst ` set m"
  by (auto simp: py_get_def split: option.splits dest!: map_of_SomeD intro: rev_image_eqI)

lemma py_get_mem: "distinct (map fst m) \<Longrightarrow> (k, v) \<in> set m \<Longrightarrow> py_get k m = v"
  by (simp add: py_get_def)

lemma py_get_in: "py_get k m = MapV q \<Longrightarrow> (k, MapV q) \<in> set m"
  by (auto simp: py_get_def split: option.splits dest: map_of_SomeD)

lemma no_range_mem: "no_range v \<Longrightarrow> x \<in> set (nodes_of v) \<Longrightarrow> \<not> is_range x"
  by (simp add: no_range_def list_all_iff)

lemma range_in_with:
  assumes shape: "with_shape w" and w: "w = py_get ''withClause'' m"
    and rv: "rv \<in> set (nodes_of w)" "is_range rv"
  shows "\<exists>before cte after q. with_ctes m = before @ cte # after \<and>
     py_get ''ctequery'' cte = MapV q \<and> is_select q \<and> rv \<in> set (nodes_of (MapV q)) \<and>
     height (MapV q) < height w \<and> (\<exists>c. (c, MapV q) \<in> set cte) \<and> set (nodes_of (MapV q)) \<subseteq> set (nodes_of w)"
proof -
  from shape rv(1) obtain wm cs where wm: "w = MapV wm" "\<not> is_range wm" "distinct (map fst wm)"
    and cs: "py_get ''ctes'' wm = SeqV cs" "list_all cte_shape cs"
    and others: "list_all (\<lambda>(k, v). k = ''ctes'' \<or> no_range v) wm"
    by (cases w) (auto simp: with_shape_def split: pyval.splits)
  from rv wm obtain k v where kv: "(k, v) \<in> set wm" "rv \<in> set (nodes_of v)"
    by (auto simp: nodes_of_pairs_mem split: if_splits)
  with others rv(2) have "k = ''ctes''" by (auto simp: list_all_iff dest: no_range_mem)
  with kv wm(3) cs(1) have v: "v = SeqV cs" using py_get_mem by metis
  with kv(2) obtain c where c: "c \<in> set cs" "rv \<in> set (nodes_of c)" by (auto simp: nodes_of_list_mem)
  from c(1) cs(2) have "cte_shape c" by (simp add: list_all_iff)
  then obtain cm q where cm: "c = MapV cm" "\<not> is_range cm" "distinct (map fst cm)"
    and q: "py_get ''ctequery'' cm = MapV q" "is_select q"
    and cothers: "list_all (\<lambda>(k, v). k = ''ctequery'' \<or> no_range v) cm"
    by (cases c) (auto simp: cte_shape_def split: pyval.splits)
  from c(2) cm rv(2) obtain k' v' where kv': "(k', v') \<in> set cm" "rv \<in> set (nodes_of v')"
    by (auto simp: nodes_of_pairs_mem split: if_splits)
  with cothers rv(2) have "k' = ''ctequery''" by (auto simp: list_all_iff dest: no_range_mem)
  with kv' cm(3) q(1) have v': "v' = MapV q" using py_get_mem by metis
  have ctes: "with_ctes m = concat (map (\<lambda>cte. case cte of MapV c \<Rightarrow> [c] | _ \<Rightarrow> []) cs)"
    using wm(1) [unfolded w] cs(1) by (simp add: with_ctes_def)
  have "cm \<in> set (with_ctes m)" using c(1) cm(1) by (force simp: ctes)
  then obtain before after where "with_ctes m = before @ cm # after" by (meson split_list)
  moreover have "height (MapV q) < height w"
    using py_get_height [OF q(1)] height_le_heights [OF c(1)] py_get_height_Seq [OF cs(1)] wm(1) cm(1)
    by simp
  moreover have "set (nodes_of (MapV q)) \<subseteq> set (nodes_of w)"
    using nodes_of_sub(1) [OF kv'(1)] nodes_of_sub(2) [OF c(1)] nodes_of_sub(1) [OF kv(1)] v v' cm(1) wm(1)
    by blast
  ultimately show ?thesis using q kv' v' by blast
qed

text \<open>The CTE of the select a reference is in, and the names before it, do not matter here.\<close>

lemma range_is_reference:
  assumes "well_shaped v" and "rv \<in> set (nodes_of v)" and "is_range rv"
  shows "\<exists>vis. (rv, vis) \<in> value_refs py v outer"
  using assms
proof (induction "height v" arbitrary: v outer rule: less_induct)
  case less
  show ?case
  proof (cases v)
    case (MapV m)
    consider "is_range m" | "is_select m" "\<not> is_range m" | "\<not> is_range m" "\<not> is_select m" by blast
    then show ?thesis
    proof cases
      case 1
      then have "m \<in> set (nodes_of v)" using MapV tagged by (fastforce simp: is_range_def)
      then have "list_all (\<lambda>(k, v). no_range v) m"
        using less.prems(1) 1 by (simp add: well_shaped_def list_all_iff node_shape_def)
      then have "rv = m"
        using less.prems(2,3) MapV by (auto simp: list_all_iff nodes_of_pairs_mem split: if_splits dest: no_range_mem)
      with 1 MapV show ?thesis by (auto simp: value_refs_Map is_range_def)
    next
      case 2
      have refs: "value_refs py v outer = scope_refs py m outer"
        using 2 MapV by (simp add: value_refs_Map is_range_def)
      have "m \<in> set (nodes_of v)" using MapV 2(1) tagged by (fastforce simp: is_select_def)
      then have shape: "distinct (map fst m)" "with_shape (py_get ''withClause'' m)"
        using less.prems(1) 2 by (simp_all add: well_shaped_def list_all_iff node_shape_def)
      from less.prems(2,3) 2 MapV obtain k u where u: "(k, u) \<in> set m" "rv \<in> set (nodes_of u)"
        by (auto simp: nodes_of_pairs_mem split: if_splits)
      have smaller: "height u < height v" using height_le_heights_pairs [OF u(1)] MapV by simp
      have u_shape: "well_shaped u" using well_shaped_sub(1) u(1) less.prems(1) MapV by blast
      show ?thesis
      proof (cases "k = ''withClause''")
        case False
        then have item: "u \<in> set (scope_items m)" using u(1) by (force simp: scope_items_def)
        from less.hyps [OF smaller u_shape u(2) less.prems(3)] item show ?thesis
          unfolding refs scope_refs_eq by blast
      next
        case True
        then have "u = py_get ''withClause'' m" using u(1) shape(1) py_get_mem by metis
        with u(2) less.prems(3) obtain before cte after q where q: "with_ctes m = before @ cte # after"
          "py_get ''ctequery'' cte = MapV q" "is_select q" "rv \<in> set (nodes_of (MapV q))"
          and small: "height (MapV q) < height u" and sub: "set (nodes_of (MapV q)) \<subseteq> set (nodes_of u)"
          using range_in_with [OF shape(2) refl] by metis
        have "well_shaped (MapV q)" using u_shape sub unfolding well_shaped_def list_all_iff by blast
        from less.hyps [OF _ this q(4) less.prems(3)] small smaller
        obtain vis where "(rv, vis) \<in> value_refs py (MapV q) (outer \<union> names_of py before)"
          by (meson less_trans)
        then have "scope_ref py q (outer \<union> names_of py before) rv vis"
          using q(3) by (auto simp: value_refs_Map scope_refs_def is_select_def)
        then have "(rv, vis) \<in> cte_refs py (with_ctes m) outer"
          using q by (auto simp: cte_refs_iff)
        then show ?thesis unfolding refs scope_refs_eq by blast
      qed
    next
      case 3
      from less.prems(2,3) 3 MapV obtain k u where u: "(k, u) \<in> set m" "rv \<in> set (nodes_of u)"
        by (auto simp: nodes_of_pairs_mem split: if_splits)
      have "height u < height v" using height_le_heights_pairs [OF u(1)] MapV by simp
      moreover have "well_shaped u" using well_shaped_sub(1) u(1) less.prems(1) MapV by blast
      ultimately obtain vis where "(rv, vis) \<in> value_refs py u outer"
        using less.hyps u(2) less.prems(3) by blast
      moreover have "value_refs py v outer = (\<Union>v \<in> set (map snd m). value_refs py v outer)"
        using 3 MapV by (simp add: value_refs_Map is_range_def)
      ultimately show ?thesis using u(1) by force
    qed
  next
    case (SeqV vs)
    with less.prems(2) obtain u where u: "u \<in> set vs" "rv \<in> set (nodes_of u)"
      by (auto simp: nodes_of_list_mem)
    have "height u < height v" using height_le_heights [OF u(1)] SeqV by simp
    moreover have "well_shaped u" using well_shaped_sub(2) u(1) less.prems(1) SeqV by blast
    ultimately obtain vis where "(rv, vis) \<in> value_refs py u outer"
      using less.hyps u(2) less.prems(3) by blast
    with u(1) SeqV show ?thesis by (auto simp: value_refs_Seq)
  qed (use less.prems in auto)
qed

lemma reference_is_node:
  "scope_ref py m outer rv vis \<Longrightarrow> rv \<in> set (nodes_of (MapV m))"
  "value_ref py v outer rv vis \<Longrightarrow> rv \<in> set (nodes_of v)"
proof (induction rule: scope_ref_value_ref.inducts)
  case (in_cte m before cte after q outer rv vis)
  have "cte \<in> set (with_ctes m)" using in_cte.hyps(1) by simp
  then obtain w cs where w: "py_get ''withClause'' m = MapV w" and cs: "py_get ''ctes'' w = SeqV cs"
    and c: "MapV cte \<in> set cs" by (rule with_ctesE)
  have "(''ctes'', SeqV cs) \<in> set w"
    using cs by (auto simp: py_get_def split: option.splits dest: map_of_SomeD)
  with py_get_in [OF w] c py_get_in [OF in_cte.hyps(2)] in_cte.IH show ?case
    using nodes_of_sub by blast
next
  case (in_body v m outer rv vis)
  then show ?case using nodes_of_sub(1) by (force simp: scope_items_def simp del: nodes_of.simps)
next
  case (here rv vis)
  then show ?case using tagged by auto
next
  case (in_node m v outer rv vis)
  then show ?case using nodes_of_sub(1) by (force simp del: nodes_of.simps)
next
  case (in_seq v vs outer rv vis)
  then show ?case using nodes_of_sub(2) by blast
qed

lemma finite_physical_relations: "finite (physical_relations py (scope_refs py m outer))"
proof (rule finite_subset)
  show "physical_relations py (scope_refs py m outer)
      \<subseteq> range_qualified py ` set (nodes_of (MapV m))"
    by (auto simp: physical_relations_def scope_refs_def dest: reference_is_node(1)
        simp del: nodes_of.simps)
qed simp

section \<open>What an accepted statement is\<close>

text \<open>The syntax tree of a text that is one \<open>SELECT\<close>.\<close>

definition parsed_tree :: "'stmt pglast \<Rightarrow> string \<Rightarrow> node option" where
  "parsed_tree pg sql = (case parse_sql pg sql of
     Inr [stmt] \<Rightarrow>
       (if is_select_stmt pg stmt
        then (case serialise pg stmt of Inr tree \<Rightarrow> Some tree | Inl e \<Rightarrow> None) else None)
   | _ \<Rightarrow> None)"

definition default_policy :: "python \<Rightarrow> string list \<Rightarrow> validation_policy" where
  "default_policy py rels = initial_policy py rels DEFAULT_ALLOWED_FUNCTIONS
     DEFAULT_ALLOWED_OPERATORS DEFAULT_ALLOWED_TYPES"

definition validated :: "python \<Rightarrow> string \<Rightarrow> node \<Rightarrow> validated_sql" where
  "validated py fp tree =
     \<lparr>fingerprint = ''pg_query:'' @ fp,
      validated_relations = sorted_set (physical_relations py (scope_refs py tree {})),
      validated_functions = sorted_set (\<Union> (node_functions py ` set (nodes_of (MapV tree)))),
      validated_operators = sorted_set (\<Union> (node_operators py ` set (nodes_of (MapV tree))))\<rparr>"

lemma finite_node_sets:
  "finite (node_functions py m)" "tag_conditions py p (node_tag py m) m \<Longrightarrow> finite (node_operators py m)"
  "finite (node_operators py m)"
  by (auto simp: node_functions_def node_operators_def applied_operators_def
      split: option.splits list.splits if_splits)

lemma validate_sql_sound:
  assumes "validate_sql py pg sql rels mx = Inr r"
  shows "\<exists>tree fp. parsed_tree pg sql = Some tree \<and> sql_fingerprint pg sql = Inr fp \<and>
     \<not> py_blank sql \<and> int (length sql) \<le> mx \<and> tree_ok py (default_policy py rels) tree \<and>
     r = validated py fp tree"
proof -
  let ?p = "default_policy py rels"
  from assms have small: "\<not> py_blank sql" "int (length sql) \<le> mx"
    and run: "validate_parsed py pg sql ?p = Inr r"
    by (auto simp: validate_sql_def validate_sql_with_def catch_parse_error_def default_policy_def
        split: if_splits sum.splits)
  from run obtain statements where parse: "parse_sql pg sql = Inr statements"
    and len: "length statements = 1"
    by (auto simp: validate_parsed_def bindE_Inr_iff split: if_splits)
  from len obtain stmt where stmt: "statements = [stmt]" by (cases statements) auto
  from run parse stmt obtain tree q fp where sel: "is_select_stmt pg stmt"
    and ser: "serialise pg stmt = Inr tree" and val: "validate_tree py ?p tree = Inr q"
    and fp: "sql_fingerprint pg sql = Inr fp"
    and r: "r = \<lparr>fingerprint = ''pg_query:'' @ fp,
                validated_relations = sorted_set (found_relations q),
                validated_functions = sorted_set (found_functions q),
                validated_operators = sorted_set (found_operators q)\<rparr>"
    by (auto simp: validate_parsed_def bindE_Inr_iff split: if_splits)
  from validate_tree_sound [OF val] have ok: "tree_ok py ?p tree" and q: "q = note_tree py tree ?p"
    by simp_all
  from q r have "r = validated py fp tree"
    by (simp add: note_tree_def default_policy_def initial_policy_def validated_def)
  moreover have "parsed_tree pg sql = Some tree"
    using parse stmt sel ser by (simp add: parsed_tree_def)
  ultimately show ?thesis using fp ok small by blast
qed

lemma validate_sql_complete:
  assumes tree: "parsed_tree pg sql = Some tree" and fp: "sql_fingerprint pg sql = Inr fp"
    and "\<not> py_blank sql" and "int (length sql) \<le> mx"
    and frames: "2 * height (MapV tree) \<le> frames py" and ok: "tree_ok py (default_policy py rels) tree"
  shows "validate_sql py pg sql rels mx = Inr (validated py fp tree)"
proof -
  from tree obtain stmt where "parse_sql pg sql = Inr [stmt]" "is_select_stmt pg stmt"
    "serialise pg stmt = Inr tree"
    by (auto simp: parsed_tree_def split: sum.splits list.splits if_splits)
  moreover obtain q where q: "validate_tree py (default_policy py rels) tree = Inr q"
    using validate_tree_complete(2) [OF frames] ok
    by (cases "validate_tree py (default_policy py rels) tree") auto
  moreover from validate_tree_sound [OF q] have "q = note_tree py tree (default_policy py rels)" by simp
  ultimately have "validate_parsed py pg sql (default_policy py rels) = Inr (validated py fp tree)"
    using fp by (simp add: validate_parsed_def note_tree_def default_policy_def initial_policy_def
        validated_def)
  with assms(3,4) show ?thesis
    by (simp add: validate_sql_def validate_sql_with_def catch_parse_error_def default_policy_def)
qed

lemma default_policy_fields [simp]:
  "allowed_relations (default_policy py rels) = set rels"
  "allowed_functions (default_policy py rels) = casefold py ` set DEFAULT_ALLOWED_FUNCTIONS"
  "allowed_operators (default_policy py rels) = set DEFAULT_ALLOWED_OPERATORS"
  "allowed_types (default_policy py rels) = casefold py ` set DEFAULT_ALLOWED_TYPES"
  by (simp_all add: default_policy_def initial_policy_def)

lemma set_sorted_set [simp]: "finite S \<Longrightarrow> set (sorted_set S) = S"
  by (simp add: sorted_set_def)

lemma validated_sets [simp]:
  "set (validated_relations (validated py fp tree)) = physical_relations py (scope_refs py tree {})"
  "set (validated_functions (validated py fp tree))
     = \<Union> (node_functions py ` set (nodes_of (MapV tree)))"
  "set (validated_operators (validated py fp tree))
     = \<Union> (node_operators py ` set (nodes_of (MapV tree)))"
  by (simp_all add: validated_def finite_physical_relations finite_node_sets)

text \<open>Trees to evaluate: \<open>SELECT count(*) FROM s.v\<close>, and one with a CTE.\<close>

definition str_node :: "string \<Rightarrow> pyval" where
  "str_node s = MapV [(''@'', StrV ''String''), (''sval'', StrV s)]"

definition example_call :: pyval where
  "example_call = MapV [(''@'', StrV ''FuncCall''), (''funcname'', SeqV [str_node ''count''])]"

definition example_range :: "string \<Rightarrow> string \<Rightarrow> node" where
  "example_range sch rel = [(''@'', StrV ''RangeVar'')]
     @ (if sch = [] then [] else [(''schemaname'', StrV sch)]) @ [(''relname'', StrV rel)]"

definition example_select :: "node \<Rightarrow> node \<Rightarrow> node" where
  "example_select withs rv = (''@'', StrV ''SelectStmt'') # withs @
     [(''targetList'', SeqV [MapV [(''@'', StrV ''ResTarget''), (''val'', example_call)]]),
      (''fromClause'', SeqV [MapV rv])]"

definition example_cte_select :: node where
  "example_cte_select = example_select
     [(''withClause'', MapV [(''@'', StrV ''WithClause''),
        (''ctes'', SeqV [MapV [(''@'', StrV ''CommonTableExpr''), (''ctename'', StrV ''c''),
           (''ctequery'', MapV (example_select [] (example_range ''s'' ''v'')))]])])]
     (example_range [] ''c'')"

definition example_python :: python where
  "example_python = \<lparr>casefold = (\<lambda>s. s), repr_other = (\<lambda>v. []), frames = 100\<rparr>"

definition example_pglast :: "node \<Rightarrow> node pglast" where
  "example_pglast tree = \<lparr>parse_sql = (\<lambda>sql. Inr [tree]), is_select_stmt = is_select,
     serialise = (\<lambda>m. Inr m), sql_fingerprint = (\<lambda>sql. Inr ''f'')\<rparr>"

lemma example_accepted:
  "validate_sql example_python (example_pglast example_cte_select) ''q'' [''s.v''] 100
     = Inr \<lparr>fingerprint = ''pg_query:f'', validated_relations = [''s.v''],
            validated_functions = [''pg_catalog.count''], validated_operators = []\<rparr>"
  by code_simp

section \<open>Properties\<close>

lemma example_tree_facts:
  "parsed_tree (example_pglast example_cte_select) ''q'' = Some example_cte_select"
  "sql_fingerprint (example_pglast example_cte_select) ''q'' = Inr ''f''"
  "2 * height (MapV example_cte_select) \<le> frames example_python"
  "well_shaped (MapV example_cte_select)" "is_select example_cte_select"
  "example_range ''s'' ''v'' \<in> set (nodes_of (MapV example_cte_select))"
  "is_range (example_range ''s'' ''v'')" "\<not> py_blank ''q''"
  by code_simp+

lemma accepted_tree:
  assumes "validate_sql py pg sql rels mx = Inr r" and "parsed_tree pg sql = Some tree"
  obtains fp where "tree_ok py (default_policy py rels) tree" and "r = validated py fp tree"
  using validate_sql_sound [OF assms(1)] assms(2) by auto

text \<open>
  C3: every relation an accepted statement reads, at any depth and under the scoping of CTE
  names, names no database and is either a schema-qualified relation published for the
  source and reported in the result, or the name of a CTE visible at that place; only
  published relations are reported.
\<close>
theorem validate_sql_reads_only_published:
  assumes "validate_sql py pg sql rels mx = Inr r" and "parsed_tree pg sql = Some tree"
  shows "(\<forall>rv vis. scope_ref py tree {} rv vis \<longrightarrow>
      \<not> truthy (py_get ''catalogname'' rv) \<and>
      (if truthy (py_get ''schemaname'' rv)
       then range_qualified py rv \<in> set rels \<and> range_qualified py rv \<in> set (validated_relations r)
       else range_relation py rv \<in> vis)) \<and>
    set (validated_relations r) \<subseteq> set rels"
proof -
  from assms obtain fp where ok: "tree_ok py (default_policy py rels) tree"
    and r: "r = validated py fp tree" by (rule accepted_tree)
  have refs: "range_ok py (set rels) (rv, vis)" if "scope_ref py tree {} rv vis" for rv vis
    using ok that by (auto simp: tree_ok_def scope_refs_def)
  have reported: "set (validated_relations r) = physical_relations py (scope_refs py tree {})"
    using r by simp
  show ?thesis
    using refs unfolding reported by (fastforce simp: range_ok_def physical_relations_def scope_refs_def)
qed

theorem validate_sql_reads_only_published_witness:
  "set (validated_relations
     \<lparr>fingerprint = ''pg_query:f'', validated_relations = [''s.v''],
      validated_functions = [''pg_catalog.count''], validated_operators = []\<rparr>) \<subseteq> set [''s.v'']"
  using validate_sql_reads_only_published [OF example_accepted example_tree_facts(1)] by blast

text \<open>
  C20: no range variable escapes the scope pass. In a tree of the shape the grammar gives
  (a CTE's query is a select, and range variables occur nowhere else below \<open>WITH\<close>), every
  range variable node of an accepted statement is published or names a visible CTE.
\<close>
theorem validate_sql_covers_every_range:
  assumes "validate_sql py pg sql rels mx = Inr r" and "parsed_tree pg sql = Some tree"
    and "is_select tree" and "well_shaped (MapV tree)"
    and "rv \<in> set (nodes_of (MapV tree))" and "is_range rv"
  shows "\<exists>vis. scope_ref py tree {} rv vis \<and> range_ok py (set rels) (rv, vis)"
proof -
  from assms(1,2) obtain fp where ok: "tree_ok py (default_policy py rels) tree"
    by (rule accepted_tree)
  from range_is_reference [OF assms(4,5,6)] obtain vis where "(rv, vis) \<in> value_refs py (MapV tree) {}"
    by blast
  with assms(3) have "scope_ref py tree {} rv vis"
    by (simp add: value_refs_Map is_select_def scope_refs_def)
  with ok show ?thesis by (auto simp: tree_ok_def scope_refs_def)
qed

theorem validate_sql_covers_every_range_witness:
  "\<exists>vis. scope_ref example_python example_cte_select {} (example_range ''s'' ''v'') vis
     \<and> range_ok example_python (set [''s.v'']) (example_range ''s'' ''v'', vis)"
  by (rule validate_sql_covers_every_range [OF example_accepted example_tree_facts(1,5,4,6,7)])

text \<open>
  C4: every node of an accepted statement has an approved tag and satisfies its policy: no
  \<open>SELECT INTO\<close>, no row locks, no recursive CTE, no collation; function calls, expression
  operators, casts and value functions come from the allowlists, and the functions and
  operators are among those reported for the check against the live catalog.
\<close>
theorem validate_sql_nodes_approved:
  assumes "validate_sql py pg sql rels mx = Inr r" and "parsed_tree pg sql = Some tree"
    and "m \<in> set (nodes_of (MapV tree))"
  shows "node_tag py m \<in> set ALLOWED_NODE_TAGS - fst ` set FORBIDDEN_NODE_CODES - {''CollateClause''} \<and>
    (node_tag py m = ''SelectStmt'' \<longrightarrow>
       py_get ''intoClause'' m = NoneV \<and> \<not> truthy (py_get ''lockingClause'' m)) \<and>
    (node_tag py m = ''WithClause'' \<longrightarrow> \<not> truthy (py_get ''recursive'' m)) \<and>
    (node_tag py m = ''FuncCall'' \<longrightarrow> (\<exists>f. called_function py m = Some f \<and>
       f \<in> casefold py ` set DEFAULT_ALLOWED_FUNCTIONS \<and>
       ''pg_catalog.'' @ f \<in> set (validated_functions r))) \<and>
    (node_tag py m = ''A_Expr'' \<longrightarrow> (\<exists>ops. applied_operators py m = Some ops \<and>
       ops \<subseteq> set DEFAULT_ALLOWED_OPERATORS \<and> ops \<subseteq> set (validated_operators r))) \<and>
    (node_tag py m = ''TypeName'' \<longrightarrow>
       type_approved py (casefold py ` set DEFAULT_ALLOWED_TYPES) m) \<and>
    (node_tag py m = ''SQLValueFunction'' \<longrightarrow>
       value_function_name m \<in> StrV ` set ALLOWED_SQL_VALUE_FUNCTIONS)"
proof -
  from assms(1,2) obtain fp where ok: "tree_ok py (default_policy py rels) tree"
    and r: "r = validated py fp tree" by (rule accepted_tree)
  have node: "node_ok py (default_policy py rels) m"
    using ok assms(3) by (simp add: tree_ok_def del: nodes_of.simps)
  have fns: "node_functions py m \<subseteq> set (validated_functions r)"
    and opers: "node_operators py m \<subseteq> set (validated_operators r)"
    using r assms(3) by (auto simp del: nodes_of.simps)
  have "\<exists>f. called_function py m = Some f \<and> f \<in> casefold py ` set DEFAULT_ALLOWED_FUNCTIONS \<and>
       ''pg_catalog.'' @ f \<in> set (validated_functions r)" if "node_tag py m = ''FuncCall''"
    using node fns that by (auto simp: node_ok_def tag_conditions_def node_functions_def)
  moreover have "\<exists>ops. applied_operators py m = Some ops \<and>
       ops \<subseteq> set DEFAULT_ALLOWED_OPERATORS \<and> ops \<subseteq> set (validated_operators r)"
    if "node_tag py m = ''A_Expr''"
    using node opers that by (auto simp: node_ok_def tag_conditions_def node_operators_def)
  ultimately show ?thesis
    using node by (simp add: node_ok_def tag_conditions_def)
qed

theorem validate_sql_nodes_approved_witness:
  "node_tag example_python example_cte_select \<in>
     set ALLOWED_NODE_TAGS - fst ` set FORBIDDEN_NODE_CODES - {''CollateClause''}"
proof -
  have "example_cte_select \<in> set (nodes_of (MapV example_cte_select))" by code_simp
  from validate_sql_nodes_approved [OF example_accepted example_tree_facts(1) this]
  show ?thesis by blast
qed

text \<open>
  C5: the validator accepts exactly the statements of its specification: a text that is not
  blank, within the byte limit, whose tree satisfies the node policy and the scoping rule,
  given two stack frames for each level of the tree.
\<close>
theorem validate_sql_iff_specified:
  assumes "parsed_tree pg sql = Some tree" and "sql_fingerprint pg sql = Inr fp"
    and "2 * height (MapV tree) \<le> frames py"
  shows "validate_sql py pg sql rels mx = Inr r \<longleftrightarrow>
     \<not> py_blank sql \<and> int (length sql) \<le> mx \<and> tree_ok py (default_policy py rels) tree \<and>
     r = validated py fp tree"
  using validate_sql_sound [of py pg sql rels mx r] validate_sql_complete [OF assms(1,2) _ _ assms(3)]
    assms(1,2) by auto

theorem validate_sql_iff_specified_witness:
  "tree_ok example_python (default_policy example_python [''s.v'']) example_cte_select"
  using validate_sql_iff_specified [OF example_tree_facts(1,2,3), of "[''s.v'']" 100] example_accepted
  by blast

lemma walk_ends_only:
  "snd (walk_nodes n v) \<Longrightarrow> height v \<le> n"
  "snd (walk_list n vs) \<Longrightarrow> heights vs \<le> n"
  by (induction n v and n vs rule: walk_nodes_walk_list.induct)
    (auto simp: heights_pairs_eq split: prod.splits if_splits)

text \<open>
  C21: a tree deeper than the remaining stack is never accepted: the walk is cut short and the
  statement is rejected, whatever the part that was seen.
\<close>
theorem validate_sql_depth_fails_closed:
  assumes "parsed_tree pg sql = Some tree" and "frames py < height (MapV tree)"
  shows "\<exists>e. validate_sql py pg sql rels mx = Inl e"
proof (cases "validate_sql py pg sql rels mx")
  case (Inr r)
  have "\<not> snd (walk_nodes (frames py) (MapV tree))"
    using walk_ends_only(1) [of "frames py" "MapV tree"] assms(2) by linarith
  then have "validate_tree py p tree \<noteq> Inr q" for p q
    by (auto simp: validate_tree_def bindE_Inr_iff split: prod.splits)
  moreover from assms(1) obtain stmt where "parse_sql pg sql = Inr [stmt]" "serialise pg stmt = Inr tree"
    by (auto simp: parsed_tree_def split: sum.splits list.splits if_splits)
  ultimately have "validate_parsed py pg sql p \<noteq> Inr r" for p
    by (auto simp: validate_parsed_def bindE_Inr_iff)
  with Inr show ?thesis
    by (auto simp: validate_sql_def validate_sql_with_def catch_parse_error_def
        split: if_splits sum.splits)
qed simp

theorem validate_sql_depth_fails_closed_witness:
  "\<exists>e. validate_sql (example_python\<lparr>frames := 3\<rparr>) (example_pglast example_cte_select) ''q'' [''s.v''] 100
     = Inl e"
proof -
  have "frames (example_python\<lparr>frames := 3\<rparr>) < height (MapV example_cte_select)" by code_simp
  from validate_sql_depth_fails_closed [OF example_tree_facts(1) this] show ?thesis .
qed


section \<open>A gap of the operator allowlist\<close>

text \<open>
  The operators of a quantified subquery and of \<open>ORDER BY ... USING\<close> are not in an \<open>A_Expr\<close>
  but in the \<open>operName\<close> of the \<open>SubLink\<close> and the \<open>useOp\<close> of the \<open>SortBy\<close>, for which there is
  no handler.
\<close>

definition sublink_select :: node where
  "sublink_select =
    [(''@'', StrV ''SelectStmt''),
     (''targetList'', SeqV [MapV [(''@'', StrV ''ResTarget''),
        (''val'', MapV [(''@'', StrV ''SubLink''),
           (''operName'', SeqV [str_node ''ext'', str_node ''<->'']),
           (''subselect'', MapV (example_select [] (example_range ''s'' ''v'')))])]])]"


end
