(* ===== verification/QueryService.thy ===== *)
theory QueryService
  imports QueryExecutorSpec MetadataServiceSpec SqlValidationSpec
begin

text \<open>
  \<open>QueryService.query\<close> of \<open>src/query_man/guarded_query/query.py\<close>, the composition of the
  registry, the metadata service, the validator and the executor: what a request must agree on
  before its text is validated, against which catalog it is validated, and that nothing else is
  ever executed.
\<close>

section \<open>The service\<close>

text \<open>\<open>operations.increment\<close>, then \<open>raise\<close>.\<close>

definition reject_request :: "string \<Rightarrow> string \<Rightarrow> app_error \<Rightarrow> 'a session" where
  "reject_request name sid e = bindS (emit (Increment name (Some sid) 1)) (\<lambda>_. raiseS (AppErr e))"

definition published_for_query :: "exc + prepared_metadata \<Rightarrow> prepared_metadata session" where
  "published_for_query answer =
     catchS (liftS answer)
       (\<lambda>e. case e of
          AppErr (MetadataUnavailableError details cause) \<Rightarrow>
            raiseS (if cause = ReaderSessionPolicyCause then AppErr QueryUnavailableError else e)
        | _ \<Rightarrow> raiseS e)"

definition validate_request ::
  "python \<Rightarrow> 'stmt pglast \<Rightarrow> source_profile \<Rightarrow> prepared_metadata \<Rightarrow> string \<Rightarrow> validated_sql session" where
  "validate_request py pg source p sql =
     (case validate_sql py pg sql (map qualified_name (relations (snapshot p)))
             (max_sql_bytes (budget source)) of
        Inr v \<Rightarrow> returnS v
      | Inl (SqlValidationError code m rejected) \<Rightarrow>
          reject_request ''query_rejected'' (source_id source) (QueryRejectedError code rejected)
      | Inl ParseError \<Rightarrow> raiseS (OtherException ''ParseError'')
      | Inl RecursionError \<Rightarrow> raiseS (OtherException ''RecursionError'')
      | Inl (OtherError m) \<Rightarrow> raiseS (OtherException m))"

text \<open>The answer of the metadata service and the executor are the collaborators of the object.\<close>

type_synonym executor = "source_profile \<Rightarrow> string \<Rightarrow> string \<Rightarrow> validated_sql \<Rightarrow> query_result session"

definition service_query ::
  "(string \<Rightarrow> string) \<Rightarrow> python \<Rightarrow> 'stmt pglast \<Rightarrow> registry \<Rightarrow> (string \<Rightarrow> exc + prepared_metadata) \<Rightarrow> executor
     \<Rightarrow> string \<Rightarrow> string \<Rightarrow> string \<Rightarrow> string \<Rightarrow> (query_result \<times> string) session" where
  "service_query sha256_hex py pg reg get_published exec sid sql metadata_revision sql_policy_revision =
     (case registry_get reg sid of
        None \<Rightarrow> raiseS (AppErr SourceNotFoundError)
      | Some source \<Rightarrow>
          bindS (published_for_query (get_published sid)) (\<lambda>p.
          if metadata_revision \<noteq> revision p
             \<or> sql_policy_revision \<noteq> create_sql_policy_revision sha256_hex
          then reject_request ''query_revision_rejected'' (source_id source) MetadataRevisionMismatchError
          else
            bindS (validate_request py pg source p sql) (\<lambda>validated.
            bindS (exec source sql (revision p) validated) (\<lambda>result.
            returnS (result, create_sql_policy_revision sha256_hex)))))"

section \<open>What the collaborators promise\<close>

text \<open>
  A provider of metadata: an answer is a validated snapshot of a registered source under the
  revision of its content, and what the request sees of a refused one is that it is unavailable.
\<close>

locale metadata_provider =
  fixes sha256_hex :: "string \<Rightarrow> string" and reg :: registry
    and answers :: "string \<Rightarrow> exc + prepared_metadata \<Rightarrow> bool"
  assumes registered: "answers sid (Inr p) \<Longrightarrow> \<exists>source. registry_get reg sid = Some source \<and> source_id source = sid \<and>
      validate_snapshot source (snapshot p) = [] \<and>
      revision p = create_metadata_revision sha256_hex source (snapshot p)"
begin

lemma published_relation:
  assumes "answers sid (Inr p)" and "registry_get reg sid = Some source" and "r \<in> set (relations (snapshot p))"
  shows "schema r \<in> set (allowed_schemas source) \<and> relation_kind r \<in> set (allowed_relation_kinds source) \<and>
    view_contract_source r = Some sid \<and> relation_contract_version r = Some (view_contract_version source)"
proof -
  from registered [OF assms(1)] assms(2)
  have v: "validate_snapshot source (snapshot p) = []" "source_id source = sid" by auto
  then have "relation_issues source r = []"
    using assms(3) by (auto simp: validate_snapshot_def split: if_splits)
  with v(2) show ?thesis by (simp add: relation_issues_def split: if_splits)
qed

lemma published_revision:
  "answers sid (Inr p) \<Longrightarrow> registry_get reg sid = Some source \<Longrightarrow>
     revision p = create_metadata_revision sha256_hex source (snapshot p)"
  using registered by fastforce

end

text \<open>A validator: an accepted statement reads published relations only.\<close>

locale request_validator =
  fixes accepts :: "source_profile \<Rightarrow> prepared_metadata \<Rightarrow> string \<Rightarrow> validated_sql \<Rightarrow> bool"
  assumes reads_published: "accepts source p sql v \<Longrightarrow>
      set (validated_relations v) \<subseteq> qualified_name ` set (relations (snapshot p))"

text \<open>Both, as a client that passes a statement on sees them.\<close>

locale published_query = metadata_provider + request_validator
begin

lemma reads_allowed_schemas:
  assumes "answers sid (Inr p)" and "registry_get reg sid = Some source" and "accepts source p sql v"
    and "n \<in> set (validated_relations v)"
  obtains r where "r \<in> set (relations (snapshot p))" and "qualified_name r = n"
    and "schema r \<in> set (allowed_schemas source)" and "view_contract_source r = Some sid"
  using reads_published [OF assms(3)] assms(4) published_relation [OF assms(1,2)] by blast

end

text \<open>The metadata service, at any point of any run of it, and the validator of the code.\<close>

definition service_answers ::
  "(string \<Rightarrow> string) \<Rightarrow> cache_settings \<Rightarrow> source_profile list \<Rightarrow> string \<Rightarrow> exc + prepared_metadata \<Rightarrow> bool" where
  "service_answers sha256_hex cfg sources sid r \<longleftrightarrow>
     (\<exists>evs ev a. fst (metadata_step sha256_hex cfg (source_registry sources)
          (reachable_metadata sha256_hex cfg sources evs) ev) = Some a \<and>
        event_source ev = Some sid \<and> r = get_published_answer a)"

definition request_accepted ::
  "python \<Rightarrow> 'stmt pglast \<Rightarrow> source_profile \<Rightarrow> prepared_metadata \<Rightarrow> string \<Rightarrow> validated_sql \<Rightarrow> bool" where
  "request_accepted py pg source p sql v \<longleftrightarrow>
     validate_sql py pg sql (map qualified_name (relations (snapshot p))) (max_sql_bytes (budget source)) = Inr v"

lemma accepted_relations:
  assumes "validate_sql py pg sql rels mx = Inr r"
  shows "set (validated_relations r) \<subseteq> set rels"
proof -
  from validate_sql_sound [OF assms] obtain tree fp where ok: "tree_ok py (default_policy py rels) tree"
    and r: "r = validated py fp tree" by blast
  have refs: "range_ok py (set rels) (rv, vis)" if "(rv, vis) \<in> scope_refs py tree {}" for rv vis
    using ok that by (auto simp: tree_ok_def)
  have "set (validated_relations r) = physical_relations py (scope_refs py tree {})" using r by simp
  with refs show ?thesis by (fastforce simp: range_ok_def physical_relations_def)
qed

interpretation service: published_query sha256_hex "source_registry sources"
    "service_answers sha256_hex cfg sources" "request_accepted py pg"
  for sha256_hex sources cfg py and pg :: "'stmt pglast"
proof
  fix sid p assume "service_answers sha256_hex cfg sources sid (Inr p)"
  then obtain evs ev a where step: "fst (metadata_step sha256_hex cfg (source_registry sources)
      (reachable_metadata sha256_hex cfg sources evs) ev) = Some a" and ev: "event_source ev = Some sid"
    and a: "Inr p = get_published_answer a" unfolding service_answers_def by blast
  from a obtain stale where "a = Inr (p, stale)"
    by (cases a) (auto simp: get_published_answer_def)
  with step obtain st' where "metadata_step sha256_hex cfg (source_registry sources)
      (reachable_metadata sha256_hex cfg sources evs) ev = (Some (Inr (p, stale)), st')" by (metis prod.collapse)
  from reachable_answer [OF this] ev show "\<exists>source. registry_get (source_registry sources) sid = Some source \<and>
      source_id source = sid \<and> validate_snapshot source (snapshot p) = [] \<and>
      revision p = create_metadata_revision sha256_hex source (snapshot p)"
    using registry_get_id unfolding published_def by fastforce
next
  fix source p sql v assume "request_accepted py pg source p sql v"
  then show "set (validated_relations v) \<subseteq> qualified_name ` set (relations (snapshot p))"
    unfolding request_accepted_def by (auto dest!: accepted_relations)
qed

section \<open>How a request is refused\<close>

lemma published_for_query_run:
  "published_for_query answer tr =
     (case answer of Inr p \<Rightarrow> Inr p
      | Inl e \<Rightarrow> Inl (if \<exists>d. e = AppErr (MetadataUnavailableError d ReaderSessionPolicyCause)
                   then AppErr QueryUnavailableError else e), tr)"
  by (auto simp: published_for_query_def catchS_def split: sum.splits exc.splits app_error.splits)

lemma sends_published [sends_intros]: "sends P (published_for_query answer)"
  by (simp add: sends_def published_for_query_run)

lemma sends_reject [sends_intros]: "P (OPERATION (Increment name (Some sid) 1)) \<Longrightarrow> sends P (reject_request name sid e)"
  unfolding reject_request_def by (auto intro!: sends_intros)

lemma sends_validate_request [sends_intros]:
  "(\<And>ev. P (OPERATION ev)) \<Longrightarrow> sends P (validate_request py pg source p sql)"
  unfolding validate_request_def by (auto intro!: sends_intros split: sum.split sql_error.split)

lemma validate_request_Inr:
  "validate_request py pg source p sql tr = (Inr v, t) \<longleftrightarrow> request_accepted py pg source p sql v \<and> t = tr"
  by (auto simp: validate_request_def request_accepted_def reject_request_def err_simps
      split: sum.splits sql_error.splits)

text \<open>
  Refused requests. A request is refused before anything is executed, with one count of the
  reason: an unknown source is not found; metadata that is unavailable because of the reader
  policy makes the query unavailable; another revision of the catalog or of the SQL policy than
  the current one is a mismatch; and a text the validator does not accept is rejected with its
  code. Only a request that passes all of these is the executor's, whose outcome it then has.
\<close>
theorem requests_refused:
  "service_query sha256_hex py pg reg get_published exec sid sql mrev srev tr =
     (case registry_get reg sid of
        None \<Rightarrow> (Inl (AppErr SourceNotFoundError), tr)
      | Some source \<Rightarrow>
         (let counted = (\<lambda>name. tr @ [OPERATION (Increment name (Some (source_id source)) 1)]) in
          case get_published sid of
            Inl e \<Rightarrow> (Inl (if \<exists>d. e = AppErr (MetadataUnavailableError d ReaderSessionPolicyCause)
                        then AppErr QueryUnavailableError else e), tr)
          | Inr p \<Rightarrow>
              if mrev = revision p \<and> srev = create_sql_policy_revision sha256_hex
              then
                (case validate_sql py pg sql (map qualified_name (relations (snapshot p)))
                        (max_sql_bytes (budget source)) of
                   Inl (SqlValidationError code m rejected) \<Rightarrow>
                     (Inl (AppErr (QueryRejectedError code rejected)), counted ''query_rejected'')
                 | Inl (OtherError m) \<Rightarrow> (Inl (OtherException m), tr)
                 | Inl ParseError \<Rightarrow> (Inl (OtherException ''ParseError''), tr)
                 | Inl RecursionError \<Rightarrow> (Inl (OtherException ''RecursionError''), tr)
                 | Inr v \<Rightarrow>
                     (case exec source sql mrev v tr of
                        (Inl e, t) \<Rightarrow> (Inl e, t)
                      | (Inr q, t) \<Rightarrow> (Inr (q, srev), t)))
              else (Inl (AppErr MetadataRevisionMismatchError), counted ''query_revision_rejected'')))"
proof (cases "registry_get reg sid")
  case None
  then show ?thesis by (simp add: service_query_def)
next
  case (Some source)
  show ?thesis
  proof (cases "get_published sid")
    case (Inl e)
    with Some show ?thesis by (simp add: service_query_def bindS_def published_for_query_run)
  next
    case (Inr p)
    from Inr Some show ?thesis
      by (auto simp: service_query_def bindS_def published_for_query_run validate_request_def reject_request_def Let_def
          split: sum.splits sql_error.splits prod.splits)
  qed
qed

section \<open>From the request to the server\<close>

lemma executor_reached:
  assumes "x \<in> set (snd (service_query sha256_hex py pg reg get_published exec sid sql mrev srev []))"
    and "\<And>ev. x \<noteq> OPERATION ev"
  obtains source p v where "registry_get reg sid = Some source" and "get_published sid = Inr p"
    and "mrev = revision p" and "srev = create_sql_policy_revision sha256_hex"
    and "request_accepted py pg source p sql v" and "x \<in> set (snd (exec source sql mrev v []))"
proof -
  from assms(1) obtain source where source: "registry_get reg sid = Some source"
    by (cases "registry_get reg sid") (auto simp: service_query_def)
  with assms(1) obtain p where p: "get_published sid = Inr p"
    by (cases "get_published sid") (auto simp: service_query_def bindS_def published_for_query_run)
  have revs: "mrev = revision p \<and> srev = create_sql_policy_revision sha256_hex"
    using assms source p
    by (cases "mrev = revision p \<and> srev = create_sql_policy_revision sha256_hex")
      (auto simp: service_query_def bindS_def published_for_query_run reject_request_def)
  with assms(1) source p have run: "x \<in> set (snd (bindS (validate_request py pg source p sql) (\<lambda>validated.
            bindS (exec source sql (revision p) validated) (\<lambda>result.
            returnS (result, create_sql_policy_revision sha256_hex))) []))"
    by (simp add: service_query_def bindS_def published_for_query_run)
  have only: "sends (\<lambda>st. st \<noteq> x) (validate_request py pg source p sql)"
    by (rule sends_validate_request) (use assms(2) in blast)
  have "x \<notin> set []" by simp
  from run this only obtain v t1 where v: "validate_request py pg source p sql [] = (Inr v, t1)"
    and "x \<in> set (snd (bindS (exec source sql (revision p) v) (\<lambda>result.
            returnS (result, create_sql_policy_revision sha256_hex)) t1))"
    by (rule bindS_reach)
  then have v: "request_accepted py pg source p sql v"
    and sent: "x \<in> set (snd (bindS (exec source sql (revision p) v) (\<lambda>result.
            returnS (result, create_sql_policy_revision sha256_hex)) []))"
    by (auto simp: validate_request_Inr)
  from sent have "x \<in> set (snd (exec source sql (revision p) v []))"
    by (rule bindS_reach_first) (rule sends_basic)
  with that source p revs v show thesis by simp
qed

text \<open>
  C1: end to end. When a cursor is opened on a source, whatever the metadata service, the catalog
  and the database did before, the text is the one of the request; the caller knew the current
  revisions of the published catalog and of the SQL policy; the text was validated against that
  catalog and reads only relations of it, all of them views in the allowed schemas whose
  contract names this source; and it passed every gate of the connection, the session, the
  resolved objects and the plan.
\<close>
theorem query_end_to_end:
  assumes "service_answers sha256_hex cfg sources sid answer"
    and "CURSOR_EXECUTE s \<in> set (snd (service_query sha256_hex py pg (source_registry sources) (\<lambda>_. answer)
       (\<lambda>source sql mrev v. execute_query adm accepts acquired expired shutting source sql mrev v queue query_id elapsed)
       sid sql mrev srev []))"
  shows "\<exists>source p v db t plan. registry_get (source_registry sources) sid = Some source \<and> answer = Inr p \<and> s = sql \<and>
    mrev = create_metadata_revision sha256_hex source (snapshot p) \<and> srev = create_sql_policy_revision sha256_hex \<and>
    validate_sql py pg sql (map qualified_name (relations (snapshot p))) (max_sql_bytes (budget source)) = Inr v \<and>
    (\<forall>n \<in> set (validated_relations v). \<exists>r \<in> set (relations (snapshot p)). qualified_name r = n \<and>
       schema r \<in> set (allowed_schemas source) \<and> view_contract_source r = Some sid) \<and>
    acquired = Inr db \<and> require_reader_connection_policy db (sslmode (connection source)) = Inr () \<and>
    session_gated db source v query_id (started source queue) t \<and> plan_admitted db source sql t plan"
proof -
  let ?x = "CURSOR_EXECUTE s"
  let ?exec = "\<lambda>source sql mrev v. execute_query adm accepts acquired expired shutting source sql mrev v queue query_id elapsed"
  from assms(2) obtain source p v where
    source: "registry_get (source_registry sources) sid = Some source" and p: "answer = Inr p" and
    revs: "mrev = revision p" "srev = create_sql_policy_revision sha256_hex" and
    accepted: "request_accepted py pg source p sql v" and sent: "?x \<in> set (snd (?exec source sql mrev v []))"
    by (rule executor_reached) auto
  note answered = assms(1) [unfolded p]
  have "mrev = create_metadata_revision sha256_hex source (snapshot p)"
    using service.published_revision [OF answered source] revs by simp
  moreover have "\<forall>n \<in> set (validated_relations v). \<exists>r \<in> set (relations (snapshot p)). qualified_name r = n \<and>
      schema r \<in> set (allowed_schemas source) \<and> view_contract_source r = Some sid"
    using service.reads_allowed_schemas [OF answered source accepted] by blast
  moreover from sent obtain db t plan where "s = sql" "acquired = Inr db"
    "require_reader_connection_policy db (sslmode (connection source)) = Inr ()"
    "session_gated db source v query_id (started source queue) t" "plan_admitted db source sql t plan"
    by (rule gated_cursor)
  moreover note source p revs(2) accepted [unfolded request_accepted_def]
  ultimately show ?thesis by (intro exI [of _ source] exI [of _ p] exI [of _ v] exI [of _ db] exI [of _ t] exI [of _ plan]) simp
qed

section \<open>A concrete request\<close>

definition example_request_tree :: node where
  "example_request_tree = example_select [] (example_range ''api'' ''orders'')"

lemma example_request_accepted:
  "\<exists>v. validate_sql example_python (example_pglast example_request_tree) ''SELECT'' [''api.orders'', ''api.items''] 1000 = Inr v"
proof -
  have "case validate_sql example_python (example_pglast example_request_tree) ''SELECT'' [''api.orders'', ''api.items''] 1000
      of Inr v \<Rightarrow> True | Inl e \<Rightarrow> False"
    by code_simp
  then show ?thesis by (simp split: sum.splits)
qed

lemma example_service_answers:
  "service_answers example_digest example_settings [example_source] ''shop'' (Inr example_prepared)"
  unfolding service_answers_def
proof (intro exI conjI)
  show "fst (metadata_step example_digest example_settings (source_registry [example_source])
     (reachable_metadata example_digest example_settings [example_source] [Start ''shop'' 0])
     (Finish ''shop'' (Inr example_catalog) 10)) = Some (Inr (example_prepared, False))"
    by (rule example_step)
qed (simp_all add: get_published_answer_def)

theorem query_end_to_end_witness:
  "\<exists>source (p :: prepared_metadata) v. registry_get (source_registry [example_source]) ''shop'' = Some source \<and>
     validate_sql example_python (example_pglast example_request_tree) ''SELECT''
       (map qualified_name (relations (snapshot p))) (max_sql_bytes (budget source)) = Inr v \<and>
     (\<forall>n \<in> set (validated_relations v). \<exists>r \<in> set (relations (snapshot p)). qualified_name r = n \<and>
       schema r \<in> set (allowed_schemas source) \<and> view_contract_source r = Some ''shop'')"
proof -
  let ?mrev = "revision example_prepared" and ?srev = "create_sql_policy_revision example_digest"
  obtain v where v: "validate_sql example_python (example_pglast example_request_tree) ''SELECT''
      [''api.orders'', ''api.items''] 1000 = Inr v" using example_request_accepted by blast
  obtain q t where run: "example_execution ''SELECT'' ?mrev v [] = (Inr q, t)" and sent: "CURSOR_EXECUTE ''SELECT'' \<in> set t"
    using example_execution_succeeds by blast
  have names: "map qualified_name (relations (snapshot example_prepared)) = [''api.orders'', ''api.items'']"
    "max_sql_bytes (budget example_source) = 1000"
    by (simp_all add: example_prepared_def example_catalog_def example_relation_def example_source_def example_budget_def)
  have "CURSOR_EXECUTE ''SELECT'' \<in> set (snd (service_query example_digest example_python
      (example_pglast example_request_tree) (source_registry [example_source]) (\<lambda>_. Inr example_prepared)
      (\<lambda>source sql mrev v. execute_query Admitted (\<lambda>_. True) (Inr example_query_db) (\<lambda>_. False) (\<lambda>_. False)
         source sql mrev v 3 ''q1'' 12) ''shop'' ''SELECT'' ?mrev ?srev []))"
    using run [unfolded example_execution_def] sent v
    by (simp add: service_query_def example_registry bindS_def published_for_query_run validate_request_def names)
  from query_end_to_end [OF example_service_answers this] show ?thesis
    by blast
qed

end
