(* ===== verification/CatalogSpec.thy ===== *)
theory CatalogSpec
  imports Catalog Revision "HOL-Library.Multiset"
begin

text \<open>
  What the catalog reader guarantees: contract markers are accepted exactly in their written
  form, quoted identifiers can be told apart, relations are the groups of the rows, and a load
  that succeeds has passed every gate and every limit while one that fails is rolled back.
\<close>

section \<open>Quoted identifiers\<close>

definition quote_stop :: "string \<Rightarrow> bool" where
  "quote_stop s \<longleftrightarrow> (case s of [] \<Rightarrow> True | c # _ \<Rightarrow> c \<noteq> CHR 0x22)"

lemma doubled_split:
  "concat (map (\<lambda>c. if c = CHR 0x22 then [CHR 0x22, CHR 0x22] else [c]) a) @ CHR 0x22 # s =
   concat (map (\<lambda>c. if c = CHR 0x22 then [CHR 0x22, CHR 0x22] else [c]) b) @ CHR 0x22 # t \<Longrightarrow>
   quote_stop s \<Longrightarrow> quote_stop t \<Longrightarrow> a = b \<and> s = t"
proof (induction a arbitrary: b)
  case Nil
  then show ?case by (cases b) (auto simp: quote_stop_def split: if_splits list.splits)
next
  case (Cons c a)
  show ?case
  proof (cases b)
    case Nil
    with Cons.prems show ?thesis by (auto simp: quote_stop_def split: if_splits list.splits)
  next
    case (Cons d b')
    with Cons.prems Cons.IH [of b'] show ?thesis by (auto split: if_splits)
  qed
qed

interpretation ident_code: self_delimiting quote_identifier quote_stop
proof
  show "x = y \<and> s = t"
    if "quote_identifier x @ s = quote_identifier y @ t" "quote_stop s" "quote_stop t" for x s y t
    using that doubled_split [of x s y t] by (simp add: quote_identifier_def)
  show "quote_stop []" by (simp add: quote_stop_def)
qed

text \<open>
  Quoting is unambiguous. The SQL name of a relation determines its schema and its name,
  whatever characters, quotes and dots included, they contain.
\<close>
theorem quoted_names_unambiguous:
  assumes "quote_identifier s @ ''.'' @ quote_identifier n = quote_identifier s' @ ''.'' @ quote_identifier n'"
  shows "s = s' \<and> n = n'"
  using ident_code.two_parts [of s "CHR ''.''" n s' n'] assms by (simp add: quote_stop_def)

theorem quoted_names_unambiguous_witness:
  "quote_identifier ''a.b'' @ ''.'' @ quote_identifier ''c'' \<noteq>
     quote_identifier ''a'' @ ''.'' @ quote_identifier ''b.c''"
  using quoted_names_unambiguous [of "''a.b''" "''c''" "''a''" "''b.c''"] by auto

section \<open>Contract markers\<close>

lemma slug_no_semicolon: "is_slug s \<Longrightarrow> c \<in> set s \<Longrightarrow> c \<noteq> CHR '';'' \<and> c \<noteq> CHR 0x0A \<and> c \<noteq> CHR 0x0D"
  using slug_chars(1) [of s] by (auto simp: list_all_iff slug_char_def)

lemma takeWhile_until: "(\<And>c. c \<in> set a \<Longrightarrow> c \<noteq> x) \<Longrightarrow> takeWhile (\<lambda>c. c \<noteq> x) (a @ x # b) = a"
  by (simp add: takeWhile_append2)

lemma dropWhile_until: "(\<And>c. c \<in> set a \<Longrightarrow> c \<noteq> x) \<Longrightarrow> dropWhile (\<lambda>c. c \<noteq> x) (a @ x # b) = x # b"
  by (simp add: dropWhile_append2)

lemma match_marker_iff:
  "match_marker line = Some (source, version) \<longleftrightarrow>
     line = ''query-man:source='' @ source @ '';view-contract='' @ version \<and>
     is_slug source \<and> version_digits version"
proof
  assume "match_marker line = Some (source, version)"
  then obtain rest where rest: "line = ''query-man:source='' @ rest"
    and source: "source = takeWhile (\<lambda>c. c \<noteq> CHR '';'') rest"
    and tail: "dropWhile (\<lambda>c. c \<noteq> CHR '';'') rest = '';view-contract='' @ version"
    and ok: "is_slug source" "version_digits version"
    by (auto simp: match_marker_def Let_def strip_prefix_iff split: option.splits if_splits)
  have "rest = source @ '';view-contract='' @ version"
    using takeWhile_dropWhile_id [of "\<lambda>c. c \<noteq> CHR '';''" rest] source tail by metis
  with rest ok show "line = ''query-man:source='' @ source @ '';view-contract='' @ version \<and>
     is_slug source \<and> version_digits version" by simp
next
  assume line: "line = ''query-man:source='' @ source @ '';view-contract='' @ version \<and>
     is_slug source \<and> version_digits version"
  then have "takeWhile (\<lambda>c. c \<noteq> CHR '';'') (source @ '';view-contract='' @ version) = source"
    "dropWhile (\<lambda>c. c \<noteq> CHR '';'') (source @ '';view-contract='' @ version) = '';view-contract='' @ version"
    using slug_no_semicolon takeWhile_until [of source "CHR '';''"] dropWhile_until [of source "CHR '';''"]
    by auto
  with line show "match_marker line = Some (source, version)"
    unfolding match_marker_def using strip_prefix_iff [of _ _ version] strip_prefix_iff
    by (simp add: Let_def)
qed

definition marker_text :: "string \<Rightarrow> string \<Rightarrow> string" where
  "marker_text source version = ''query-man:source='' @ source @ '';view-contract='' @ version"

lemma digit_not_break: "is_digit c \<Longrightarrow> c \<noteq> CHR 0x0A \<and> c \<noteq> CHR 0x0D"
  by (auto simp: is_digit_def)

lemma marker_text_chars:
  assumes "is_slug source" and "version_digits version" and "c \<in> set (marker_text source version)"
  shows "c \<noteq> CHR 0x0A \<and> c \<noteq> CHR 0x0D"
  using assms slug_no_semicolon [of source c] digit_not_break [of c]
  by (auto simp: marker_text_def version_digits_def list_all_iff)

text \<open>
  C28: the contract marker of a view is accepted exactly in the written form: the marker alone
  on the first line, ended by a line feed or a carriage return and a line feed, with a slug and
  a positive version without leading zero, followed by a description that is not blank. Then
  the source, the version and the cleaned description are what was written.
\<close>
theorem view_comment_iff_written:
  "parse_view_comment (Some s) = Inr (Some source, Some v, Some d) \<longleftrightarrow>
     (\<exists>version ending description.
        s = marker_text source version @ ending @ description \<and>
        ending \<in> {[CHR 0x0A], [CHR 0x0D, CHR 0x0A]} \<and>
        is_slug source \<and> version_digits version \<and> length version \<le> 4300 \<and>
        v = int (digits_value version) \<and> sanitize_comment (Some description) = Some d)"
proof -
  let ?first = "takeWhile (\<lambda>c. c \<noteq> CHR 0x0A) s" and ?rest = "dropWhile (\<lambda>c. c \<noteq> CHR 0x0A) s"
  let ?line = "if py_ends [CHR 0x0D] ?first then butlast ?first else ?first"
  have parse: "parse_view_comment (Some s) = Inr (Some source, Some v, Some d) \<longleftrightarrow>
     (\<exists>version. match_marker ?line = Some (source, version) \<and> ?rest \<noteq> [] \<and>
        sanitize_comment (Some (tl ?rest)) = Some d \<and> length version \<le> 4300 \<and>
        v = int (digits_value version))"
    by (auto simp: parse_view_comment_def Let_def py_int_digits_def sanitize_comment_def
        split: option.splits if_splits prod.splits)
  show ?thesis unfolding parse
  proof (rule iffI; elim exE conjE)
    fix version
    assume m: "match_marker ?line = Some (source, version)" and rest: "?rest \<noteq> []"
      and rest2: "sanitize_comment (Some (tl ?rest)) = Some d" "length version \<le> 4300"
        "v = int (digits_value version)"
    obtain description where r: "?rest = CHR 0x0A # description"
      using rest by (cases ?rest) (auto simp: dropWhile_eq_Cons_conv)
    have s: "s = ?first @ CHR 0x0A # description"
      using takeWhile_dropWhile_id [of "\<lambda>c. c \<noteq> CHR 0x0A" s] r by metis
    have line: "?line = marker_text source version" and ok: "is_slug source" "version_digits version"
      using m unfolding match_marker_iff marker_text_def by blast+
    have "?first = ?line \<or> ?first = ?line @ [CHR 0x0D]"
      by (auto simp: py_ends_iff)
    then have "\<exists>ending \<in> {[CHR 0x0A], [CHR 0x0D, CHR 0x0A]}. s = marker_text source version @ ending @ description"
      unfolding line using s by auto
    moreover have "sanitize_comment (Some description) = Some d" using rest2(1) r by simp
    ultimately show "\<exists>version ending description.
        s = marker_text source version @ ending @ description \<and>
        ending \<in> {[CHR 0x0A], [CHR 0x0D, CHR 0x0A]} \<and>
        is_slug source \<and> version_digits version \<and> length version \<le> 4300 \<and>
        v = int (digits_value version) \<and> sanitize_comment (Some description) = Some d"
      using ok rest2(2,3) by blast
  next
    fix version ending description
    assume s: "s = marker_text source version @ ending @ description"
      and e: "ending \<in> {[CHR 0x0A], [CHR 0x0D, CHR 0x0A]}"
      and ok: "is_slug source" "version_digits version"
      and rest: "length version \<le> 4300" "v = int (digits_value version)"
        "sanitize_comment (Some description) = Some d"
    define line where "line = marker_text source version"
    have chars: "c \<in> set line \<Longrightarrow> c \<noteq> CHR 0x0A \<and> c \<noteq> CHR 0x0D" for c
      unfolding line_def using marker_text_chars [OF ok] .
    define cr where "cr = (if ending = [CHR 0x0A] then [] else [CHR 0x0D])"
    have s': "s = (line @ cr) @ CHR 0x0A # description" and cr: "cr = [] \<or> cr = [CHR 0x0D]"
      using s e unfolding line_def cr_def by auto
    have no_lf: "c \<in> set (line @ cr) \<Longrightarrow> c \<noteq> CHR 0x0A" for c using chars cr by auto
    have first: "?first = line @ cr" unfolding s' using no_lf by (rule takeWhile_until)
    have r: "?rest = CHR 0x0A # description" unfolding s' using no_lf by (rule dropWhile_until)
    have "CHR 0x0D \<notin> set line" using chars by blast
    then have "?line = line"
      unfolding first using cr by (auto simp: py_ends_iff)
    then show "\<exists>version. match_marker ?line = Some (source, version) \<and> ?rest \<noteq> [] \<and>
        sanitize_comment (Some (tl ?rest)) = Some d \<and> length version \<le> 4300 \<and>
        v = int (digits_value version)"
      using ok rest r unfolding match_marker_iff line_def marker_text_def by auto
  qed
qed

section \<open>Relations are the groups of the rows\<close>

text \<open>The row gives everything of the relation but its columns.\<close>

definition describes :: "catalog_row \<Rightarrow> catalog_relation \<Rightarrow> bool" where
  "describes row r \<longleftrightarrow> row_schema row = schema r \<and> row_relation row = relation_name r \<and> row_kind row = ''v'' \<and>
     definition_hash r = row_definition_hash row \<and> security_invoker r = row_security_invoker row \<and>
     security_barrier r = row_security_barrier row \<and> parse_view_comment (row_relation_comment row) =
       Inr (view_contract_source r, relation_contract_version r, relation_comment r)"

lemma new_relation_Inr:
  assumes "new_relation row = Inr r"
  shows "schema r = row_schema row \<and> relation_name r = row_relation row \<and>
    qualified_name r = row_name row \<and> relation_kind r = ''view'' \<and> columns r = [] \<and>
    row_kind row = ''v'' \<and> security_invoker r = row_security_invoker row \<and>
    security_barrier r = row_security_barrier row \<and> definition_hash r = row_definition_hash row \<and>
    parse_view_comment (row_relation_comment row) =
      Inr (view_contract_source r, relation_contract_version r, relation_comment r)"
  using assms by (auto simp: new_relation_def err_simps split: if_splits)

lemma describes_more_columns [simp]: "describes row (r\<lparr>columns := cs\<rparr>) = describes row r"
  by (simp add: describes_def)

lemma new_relation_describes: "new_relation row = Inr r \<Longrightarrow> describes row r"
  using new_relation_Inr [of row r] by (simp add: describes_def)

text \<open>The dictionary of builders after a prefix of the rows.\<close>

definition builds :: "catalog_row list \<Rightarrow> (string, catalog_relation) dict \<Rightarrow> bool" where
  "builds rows rels \<longleftrightarrow>
     distinct (map fst rels) \<and> set (map fst rels) = row_name ` set rows \<and>
     (\<forall>(q, r) \<in> set rels.
        qualified_name r = q \<and> schema r @ ''.'' @ relation_name r = q \<and> relation_kind r = ''view'' \<and>
        columns r = map column_of_row (filter (\<lambda>row. row_name row = q) rows) \<and>
        (\<exists>row \<in> set rows. describes row r))"

lemma builds_add_row:
  assumes "builds rows rels" and "add_row rels row = Inr rels'"
  shows "builds (rows @ [row]) rels'"
proof -
  let ?q = "row_name row"
  obtain r where r: "(case map_of rels ?q of Some relation \<Rightarrow> Inr relation | None \<Rightarrow> new_relation row) = Inr r"
    and rels': "rels' = AList.update ?q (r\<lparr>columns := columns r @ [column_of_row row]\<rparr>) rels"
    using assms(2) by (auto simp: add_row_def err_simps)
  let ?good = "\<lambda>rows q r. qualified_name r = q \<and> schema r @ ''.'' @ relation_name r = q \<and>
        relation_kind r = ''view'' \<and>
        columns r = map column_of_row (filter (\<lambda>row. row_name row = q) rows) \<and>
        (\<exists>row \<in> set rows. describes row r)"
  have old: "?good rows q x" if "(q, x) \<in> set rels" for q x
    using assms(1) that unfolding builds_def by blast
  have keys: "distinct (map fst rels)" "set (map fst rels) = row_name ` set rows"
    using assms(1) unfolding builds_def by blast+
  have new: "?good (rows @ [row]) ?q (r\<lparr>columns := columns r @ [column_of_row row]\<rparr>)"
  proof (cases "map_of rels ?q")
    case None
    then have "?q \<notin> row_name ` set rows" using keys by (simp add: map_of_eq_None_iff)
    then have "filter (\<lambda>x. row_name x = ?q) rows = []" by (simp add: filter_empty_conv) (metis image_eqI)
    moreover have "new_relation row = Inr r" using r None by simp
    ultimately show ?thesis using new_relation_Inr [of row r] new_relation_describes [of row r] by (auto simp: row_name_def)
  next
    case (Some x)
    then have "x = r" "(?q, r) \<in> set rels" using r by (auto dest: map_of_SomeD)
    then show ?thesis using old [of ?q r] by auto
  qed
  have others: "?good (rows @ [row]) q x" if "(q, x) \<in> set rels" "q \<noteq> ?q" for q x
    using old [OF that(1)] that(2) by auto
  have "\<forall>(q, x) \<in> set rels'. ?good (rows @ [row]) q x"
  proof (intro ballI, clarify)
    fix q x assume "(q, x) \<in> set rels'"
    moreover have "distinct (map fst rels')" unfolding rels' by (rule distinct_update) (rule keys)
    ultimately have "map_of rels' q = Some x" by simp
    then have "(if q = ?q then x = r\<lparr>columns := columns r @ [column_of_row row]\<rparr> else (q, x) \<in> set rels)"
      unfolding rels' by (auto simp: dict_simps split: if_splits dest: map_of_SomeD)
    with new others show "?good (rows @ [row]) q x" by (cases "q = ?q") simp_all
  qed
  moreover have "distinct (map fst rels')" unfolding rels' by (rule distinct_update) (rule keys)
  moreover have "set (map fst rels') = row_name ` set (rows @ [row])"
    unfolding rels' set_map dom_map_of_conv_image_fst [symmetric] update_conv'
    using keys by (auto simp: dom_map_of_conv_image_fst)
  ultimately show ?thesis unfolding builds_def by blast
qed

lemma builds_rows: "foldE add_row [] rows = Inr rels \<Longrightarrow> builds rows rels"
proof (induction rows arbitrary: rels rule: rev_induct)
  case Nil
  then show ?case by (simp add: builds_def)
next
  case (snoc row rows)
  then obtain rels1 where "foldE add_row [] rows = Inr rels1" "add_row rels1 row = Inr rels"
    by (auto simp: foldE_append err_simps simp del: foldE.simps)
  with snoc.IH builds_add_row show ?case by blast
qed

lemma dot_free_split:
  "a @ CHR ''.'' # b = c @ CHR ''.'' # d \<Longrightarrow> CHR ''.'' \<notin> set a \<Longrightarrow> CHR ''.'' \<notin> set c \<Longrightarrow> a = c \<and> b = d"
proof -
  assume eq: "a @ CHR ''.'' # b = c @ CHR ''.'' # d" and "CHR ''.'' \<notin> set a" "CHR ''.'' \<notin> set c"
  then have "takeWhile (\<lambda>x. x \<noteq> CHR ''.'') (a @ CHR ''.'' # b) = a"
    "takeWhile (\<lambda>x. x \<noteq> CHR ''.'') (c @ CHR ''.'' # d) = c"
    by (metis takeWhile_until)+
  with eq show ?thesis by simp
qed

lemma rows_to_relations_names:
  assumes "rows_to_relations rows = Inr rs" and "r \<in> set rs"
  shows "qualified_name r = schema r @ ''.'' @ relation_name r"
proof -
  obtain rels where rels: "foldE add_row [] rows = Inr rels" and rs: "rs = sort_key qualified_name (map snd rels)"
    using assms(1) by (auto simp: rows_to_relations_def err_simps)
  obtain q where "(q, r) \<in> set rels" using assms(2) rs by auto
  with builds_rows [OF rels, unfolded builds_def] show ?thesis by auto
qed

lemma rows_to_relations_groups:
  assumes "rows_to_relations rows = Inr rs"
    and "\<And>row. row \<in> set rows \<Longrightarrow> CHR ''.'' \<notin> set (row_schema row)"
  shows "sorted (map qualified_name rs) \<and> distinct (map qualified_name rs) \<and>
    (\<lambda>r. (schema r, relation_name r)) ` set rs = (\<lambda>row. (row_schema row, row_relation row)) ` set rows \<and>
    (\<forall>r \<in> set rs. relation_kind r = ''view'' \<and>
       columns r = map column_of_row
         (filter (\<lambda>row. row_schema row = schema r \<and> row_relation row = relation_name r) rows) \<and>
       (\<exists>row \<in> set rows. describes row r))"
proof -
  obtain rels where rels: "foldE add_row [] rows = Inr rels"
    and rs: "rs = sort_key qualified_name (map snd rels)"
    using assms(1) by (auto simp: rows_to_relations_def err_simps)
  note b = builds_rows [OF rels, unfolded builds_def]
  have keys: "map qualified_name (map snd rels) = map fst rels" using b by auto
  have each: "(qualified_name r, r) \<in> set rels" if "r \<in> set rs" for r
    using that b unfolding rs by auto
  have name: "row_name row = qualified_name r \<longleftrightarrow> row_schema row = schema r \<and> row_relation row = relation_name r"
    if r: "r \<in> set rs" and row: "row \<in> set rows" for r row
  proof -
    obtain row1 where "row1 \<in> set rows" "row_schema row1 = schema r" "row_relation row1 = relation_name r"
      "schema r @ ''.'' @ relation_name r = qualified_name r"
    proof -
      have "(\<exists>row1 \<in> set rows. describes row1 r) \<and> schema r @ ''.'' @ relation_name r = qualified_name r"
        using each [OF r] b by blast
      with that show thesis unfolding describes_def by blast
    qed
    then have "CHR ''.'' \<notin> set (schema r)" and "row_name row = qualified_name r \<longleftrightarrow>
        row_schema row @ CHR ''.'' # row_relation row = schema r @ CHR ''.'' # relation_name r"
      using assms(2) [of row1] by (auto simp: row_name_def)
    then show ?thesis
      using assms(2) [OF row] dot_free_split [of "row_schema row" "row_relation row" "schema r"]
      by auto
  qed
  have cols: "relation_kind r = ''view'' \<and>
      columns r = map column_of_row (filter (\<lambda>row. row_name row = qualified_name r) rows) \<and>
      (\<exists>row \<in> set rows. describes row r)"
    if "r \<in> set rs" for r
    using each [OF that] b by blast
  have cols2: "columns r = map column_of_row
         (filter (\<lambda>row. row_schema row = schema r \<and> row_relation row = relation_name r) rows)"
    if "r \<in> set rs" for r
  proof -
    have "filter (\<lambda>row. row_name row = qualified_name r) rows =
        filter (\<lambda>row. row_schema row = schema r \<and> row_relation row = relation_name r) rows"
      by (rule filter_cong) (use name [OF that] in auto)
    with cols [OF that] show ?thesis by simp
  qed
  have groups: "(\<lambda>r. (schema r, relation_name r)) ` set rs = (\<lambda>row. (row_schema row, row_relation row)) ` set rows"
  proof (intro set_eqI iffI; elim imageE)
    fix p r assume "p = (schema r, relation_name r)" "r \<in> set rs"
    with cols [of r] show "p \<in> (\<lambda>row. (row_schema row, row_relation row)) ` set rows"
      unfolding describes_def by force
  next
    fix p row assume p: "p = (row_schema row, row_relation row)" and row: "row \<in> set rows"
    have "row_name row \<in> set (map fst rels)" using b row by blast
    then obtain r where r: "(row_name row, r) \<in> set rels" by auto
    then have rs1: "r \<in> set rs" unfolding rs by force
    from r b have "qualified_name r = row_name row" by blast
    with name [OF rs1 row] p rs1 show "p \<in> (\<lambda>r. (schema r, relation_name r)) ` set rs" by auto
  qed
  have "mset (map qualified_name rs) = mset (map fst rels)"
    unfolding rs keys [symmetric] mset_map mset_sort by simp
  then have "distinct (map qualified_name rs)"
    using b mset_eq_imp_distinct_iff by blast
  moreover have "sorted (map qualified_name rs)" unfolding rs by simp
  ultimately show ?thesis using cols cols2 groups by blast
qed

text \<open>
  The relations of a catalog are exactly the groups of its rows. When no schema name holds
  a dot (configured schemas never do), the relations come sorted by qualified name and without
  duplicates, one for each schema and name among the rows and no other; each is a view with a
  valid contract comment and has the columns of its rows, all of them, in their order.
\<close>
theorem relations_group_rows:
  assumes "rows_to_relations rows = Inr rs"
    and "\<And>row. row \<in> set rows \<Longrightarrow> CHR ''.'' \<notin> set (row_schema row)"
  shows "sorted (map qualified_name rs) \<and> distinct (map qualified_name rs) \<and>
    (\<lambda>r. (schema r, relation_name r)) ` set rs = (\<lambda>row. (row_schema row, row_relation row)) ` set rows \<and>
    (\<forall>r \<in> set rs. relation_kind r = ''view'' \<and>
       columns r = map column_of_row
         (filter (\<lambda>row. row_schema row = schema r \<and> row_relation row = relation_name r) rows) \<and>
       (\<exists>row \<in> set rows. row_kind row = ''v'' \<and> parse_view_comment (row_relation_comment row) =
          Inr (view_contract_source r, relation_contract_version r, relation_comment r)))"
  using rows_to_relations_groups [OF assms(1)] assms(2) unfolding describes_def by fast

definition example_rows :: "catalog_row list" where
  "example_rows = map (\<lambda>(i, c). \<lparr>row_schema = ''api'', row_relation = ''orders'', row_kind = ''v'',
     row_relation_comment = Some (marker_text ''shop'' ''2'' @ [CHR 0x0A] @ ''Orders''),
     row_definition_hash = Some ''d41d8'', row_security_invoker = True, row_security_barrier = False,
     row_ordinal = i, row_column = c, row_data_type = ''text'', row_type_kind = ''b'',
     row_column_comment = None\<rparr>) [(1, ''id''), (2, ''note'')]"

lemma example_rows_load: "\<exists>r. rows_to_relations example_rows = Inr [r] \<and> length (columns r) = 2"
proof -
  have "parse_view_comment (Some (marker_text ''shop'' ''2'' @ [CHR 0x0A] @ ''Orders''))
      = Inr (Some ''shop'', Some 2, Some ''Orders'')" by code_simp
  then show ?thesis
    by (simp add: rows_to_relations_def example_rows_def add_row_def new_relation_def row_name_def)
qed

theorem relations_group_rows_witness:
  "\<exists>rs. rows_to_relations example_rows = Inr rs \<and> rs \<noteq> [] \<and>
     (\<forall>r \<in> set rs. map column_name (columns r) = [''id'', ''note''])"
proof -
  obtain r where r: "rows_to_relations example_rows = Inr [r]" using example_rows_load by blast
  have free: "CHR ''.'' \<notin> set (row_schema row)" if "row \<in> set example_rows" for row
    using that by (auto simp: example_rows_def)
  note g = relations_group_rows [OF r free]
  then have "columns r = map column_of_row
      (filter (\<lambda>row. row_schema row = schema r \<and> row_relation row = relation_name r) example_rows)"
    by simp
  moreover have "(schema r, relation_name r) = (''api'', ''orders'')"
    using g by (auto simp: example_rows_def)
  ultimately have "map column_name (columns r) = [''id'', ''note'']"
    by (simp add: example_rows_def column_of_row_def)
  with r show ?thesis by auto
qed

section \<open>A load that succeeds, and one that fails\<close>

definition catalog_statements :: "source_profile \<Rightarrow> statement list" where
  "catalog_statements source =
     [BEGIN_READ_ONLY, SET_TIMEZONE_UTC, SET_CATALOG_SESSION (catalog_session_values source),
      CHECK_SESSION_POLICY (session_policy_arguments source ''''),
      CATALOG_ROWS (allowed_schemas source) [''v''] (max_metadata_columns (budget source) + 1), COMMIT]"

lemma begin_catalog_Inr:
  "begin_catalog_transaction db source tr = (Inr u, t) \<Longrightarrow>
     t = tr @ take 4 (catalog_statements source) \<and>
     (\<exists>checks. reply db (tr @ take 3 (catalog_statements source))
         (CHECK_SESSION_POLICY (session_policy_arguments source '''')) = Inr (PolicyRow (Some checks)) \<and>
       checks \<noteq> [] \<and> list_all (\<lambda>(k, v). truthy v) checks)"
  by (auto simp: begin_catalog_transaction_def catalog_statements_def err_simps split: if_splits)

lemma catalog_load_Inr:
  assumes "catalog_load (Inr db) source [] = (Inr snap, t)"
  shows "require_reader_connection_policy db (sslmode (connection source)) = Inr () \<and>
    t = catalog_statements source \<and>
    (\<exists>checks. reply db (take 3 t) (t ! 3) = Inr (PolicyRow (Some checks)) \<and>
       checks \<noteq> [] \<and> list_all (\<lambda>(k, v). truthy v) checks) \<and>
    (\<exists>rows. reply db (take 4 t) (t ! 4) = Inr (CatalogAnswer rows) \<and>
       int (length rows) \<le> max_metadata_columns (budget source) \<and>
       list_all (\<lambda>row. row_type_kind row \<noteq> ''d'') rows \<and>
       rows_to_relations rows = Inr (relations snap) \<and>
       int (length (relations snap)) \<le> max_metadata_relations (budget source) \<and>
       list_all (\<lambda>r. int (length (columns r)) \<le> max_columns_per_relation (budget source)) (relations snap))"
proof -
  obtain rows t0 where policy: "require_catalog_connection_policy db source [] = (Inr (), t0)"
    and trans: "catalog_transaction db source t0 = (Inr rows, t)"
    and snap: "catalog_snapshot_of_rows source rows = Inr snap"
    using assms by (auto simp: catalog_load_def err_simps)
  have policy2: "require_reader_connection_policy db (sslmode (connection source)) = Inr () \<and> t0 = []"
    using policy by (auto simp: require_catalog_connection_policy_def err_simps split: if_splits)
  obtain t1 u where beg: "begin_catalog_transaction db source [] = (Inr u, t1)"
    and rows: "reply db t1 (catalog_statements source ! 4) = Inr (CatalogAnswer rows)"
    and rows2: "int (length rows) \<le> max_metadata_columns (budget source)"
      "list_all (\<lambda>row. row_type_kind row \<noteq> ''d'') rows"
    and t: "t = t1 @ drop 4 (catalog_statements source)"
    using trans policy2
    by (auto simp: catalog_transaction_def catalog_statements_def err_simps list_all_iff list_ex_iff
        require_supported_catalog_types_def split: if_splits)
  note b = begin_catalog_Inr [OF beg]
  then have stmts: "t = catalog_statements source" using t by simp
  have "int (length (relations snap)) \<le> max_metadata_relations (budget source)
      \<and> rows_to_relations rows = Inr (relations snap)
      \<and> list_all (\<lambda>r. int (length (columns r)) \<le> max_columns_per_relation (budget source)) (relations snap)"
    using snap by (auto simp: catalog_snapshot_of_rows_def err_simps list_all_iff list_ex_iff not_less)
  with policy2 stmts b rows rows2 show ?thesis
    by (auto simp: catalog_statements_def)
qed

text \<open>
  C14: a load that succeeds has passed every gate. The connection meets the reader policy, the
  statements are exactly those of one read-only transaction with the catalog query after the
  session policy, whose row holds only true checks, and the commit is the last; the snapshot
  holds the relations of the rows answered, which are within the limits of the budget on rows,
  relations and columns per relation and have no domain type.
\<close>
theorem catalog_load_gated:
  assumes "catalog_load (Inr db) source [] = (Inr snap, t)"
  shows "require_reader_connection_policy db (sslmode (connection source)) = Inr () \<and>
    t = catalog_statements source \<and>
    (\<exists>checks. reply db (take 3 t) (t ! 3) = Inr (PolicyRow (Some checks)) \<and>
       checks \<noteq> [] \<and> list_all (\<lambda>(k, v). truthy v) checks) \<and>
    (\<exists>rows. reply db (take 4 t) (t ! 4) = Inr (CatalogAnswer rows) \<and>
       int (length rows) \<le> max_metadata_columns (budget source) \<and>
       list_all (\<lambda>row. row_type_kind row \<noteq> ''d'') rows \<and>
       rows_to_relations rows = Inr (relations snap) \<and>
       int (length (relations snap)) \<le> max_metadata_relations (budget source) \<and>
       list_all (\<lambda>r. int (length (columns r)) \<le> max_columns_per_relation (budget source)) (relations snap))"
  using assms by (rule catalog_load_Inr)

text \<open>
  A load that fails leaves no open transaction behind. When a statement was sent and an
  \<open>Exception\<close> is raised, the last statement is the rollback, unless the connection was refused
  and closed before any transaction, or the transaction was committed and the failure is a
  rejection of what it read. A session that cannot be configured fails as a policy error.
\<close>
theorem catalog_load_failure_closed:
  assumes "catalog_load (Inr db) source [] = (Inl e, t)" and "e \<noteq> CancelledError"
  shows "t = [] \<or> last t = ROLLBACK \<or> (t = [CLOSE_CONNECTION] \<and> e = ReaderSessionPolicyError) \<or>
    (t = catalog_statements source \<and>
       (\<exists>rows. reply db (take 4 t) (t ! 4) = Inr (CatalogAnswer rows) \<and>
          catalog_snapshot_of_rows source rows = Inl e))"
proof -
  consider (policy) "require_catalog_connection_policy db source [] = (Inl e, t)"
    | (trans) t0 where "require_catalog_connection_policy db source [] = (Inr (), t0)"
        "catalog_transaction db source t0 = (Inl e, t)"
    | (rows) rows t0 where "require_catalog_connection_policy db source [] = (Inr (), t0)"
        "catalog_transaction db source t0 = (Inr rows, t)" "catalog_snapshot_of_rows source rows = Inl e"
    using assms(1) by (auto simp: catalog_load_def err_simps)
  then show ?thesis
  proof cases
    case policy
    then show ?thesis using assms(2)
      by (auto simp: require_catalog_connection_policy_def err_simps split: if_splits
          dest: quietly_Inl quietly_trace_eq)
  next
    case trans
    then have "\<exists>t1. quietly db ROLLBACK t1 = (Inr (), t)"
      using assms(2)
      by (auto simp: catalog_transaction_def err_simps dest: quietly_Inl split: if_splits
          elim: is_exception.elims)
    then show ?thesis by (metis last_snoc quietly_trace_eq)
  next
    case rows
    then have t0: "t0 = []"
      by (auto simp: require_catalog_connection_policy_def err_simps split: if_splits)
    obtain t1 u where "begin_catalog_transaction db source [] = (Inr u, t1)"
      "reply db t1 (catalog_statements source ! 4) = Inr (CatalogAnswer rows)"
      "t = t1 @ drop 4 (catalog_statements source)"
      using rows t0
      by (auto simp: catalog_transaction_def catalog_statements_def err_simps split: if_splits)
    with begin_catalog_Inr [OF this(1)] rows(3) show ?thesis by (auto simp: catalog_statements_def)
  qed
qed

section \<open>Concrete databases\<close>

fun example_catalog_reply :: "statement list \<Rightarrow> statement \<Rightarrow> exc + answer" where
  "example_catalog_reply tr (CHECK_SESSION_POLICY args) =
     Inr (PolicyRow (Some [(''read_only'', BoolV True)]))"
| "example_catalog_reply tr (CATALOG_ROWS schemas kinds n) = Inr (CatalogAnswer example_rows)"
| "example_catalog_reply tr st = Inr Done"

definition example_catalog_db :: database where
  "example_catalog_db = \<lparr>conn_info = Inr example_info, reply = example_catalog_reply\<rparr>"

text \<open>A server that fails the settings of the session.\<close>

fun example_failing_reply :: "statement list \<Rightarrow> statement \<Rightarrow> exc + answer" where
  "example_failing_reply tr (SET_CATALOG_SESSION values0) = Inl (DbErr OtherDatabaseError (Some ''42501''))"
| "example_failing_reply tr st = Inr Done"

definition example_failing_db :: database where
  "example_failing_db = \<lparr>conn_info = Inr example_info, reply = example_failing_reply\<rparr>"

lemmas example_db_simps = example_catalog_db_def example_failing_db_def example_info_def
  catalog_load_def require_catalog_connection_policy_def require_reader_connection_policy_def
  catalog_transaction_def begin_catalog_transaction_def require_reader_session_policy_def
  policy_holds_def require_supported_catalog_types_def raise_if_def bindS_def catchS_def query_def
  policy_of_def catalog_of_def quietly_def READER_CLIENT_ENCODING_def example_source_def example_budget_def

lemma example_catalog_load:
  "\<exists>snap t. catalog_load (Inr example_catalog_db) example_source [] = (Inr snap, t)"
proof -
  obtain r where r: "rows_to_relations example_rows = Inr [r]" "length (columns r) = 2"
    using example_rows_load by blast
  have "list_all (\<lambda>row. row_type_kind row = ''b'') example_rows" "length example_rows = 2"
    by (simp_all add: example_rows_def)
  then have "\<not> list_ex (\<lambda>row. row_type_kind row = ''d'') example_rows"
    by (auto simp: list_all_iff list_ex_iff)
  with r \<open>length example_rows = 2\<close> show ?thesis
    by (simp add: example_db_simps catalog_snapshot_of_rows_def)
qed

theorem catalog_load_gated_witness:
  "\<exists>snap. catalog_load (Inr example_catalog_db) example_source [] = (Inr snap, catalog_statements example_source)
     \<and> int (length (relations snap)) \<le> 100"
proof -
  obtain snap t where load: "catalog_load (Inr example_catalog_db) example_source [] = (Inr snap, t)"
    using example_catalog_load by blast
  show ?thesis using catalog_load_gated [OF load] load by (auto simp: example_source_def example_budget_def)
qed

theorem catalog_load_failure_closed_witness:
  "last (snd (catalog_load (Inr example_failing_db) example_source [])) = ROLLBACK"
proof -
  have load: "catalog_load (Inr example_failing_db) example_source [] =
      (Inl ReaderSessionPolicyError, [BEGIN_READ_ONLY, SET_TIMEZONE_UTC,
         SET_CATALOG_SESSION (catalog_session_values example_source), ROLLBACK])"
    by (simp add: example_db_simps)
  from catalog_load_failure_closed [OF this] show ?thesis
    unfolding load by (simp add: catalog_statements_def)
qed

end
