(* ===== verification/Access.thy ===== *)
theory Access
  imports Prelude
begin

text \<open>
  \<open>src/query_man/delivery/access.py\<close>: the policy file of the callers, the credentials made
  of it, and the authentication of a bearer token. Reading a file, YAML and the decoding of its
  data into the fields of a model are a parameter; the constraints the fields declare and the
  validators of the models are defined here. SHA-256 is the parameter \<open>digest\<close>.
\<close>

section \<open>Constrained strings\<close>

definition ascii_letter :: "char \<Rightarrow> bool" where
  "ascii_letter c \<longleftrightarrow> (let n = (of_char c :: nat) in 65 \<le> n \<and> n \<le> 90 \<or> 97 \<le> n \<and> n \<le> 122)"

definition ascii_upper :: "char \<Rightarrow> bool" where
  "ascii_upper c \<longleftrightarrow> (let n = (of_char c :: nat) in 65 \<le> n \<and> n \<le> 90)"

definition ascii_digit :: "char \<Rightarrow> bool" where
  "ascii_digit c \<longleftrightarrow> (let n = (of_char c :: nat) in 48 \<le> n \<and> n \<le> 57)"

text \<open>\<open>^\<close> a first character, then up to \<open>n\<close> more of a class, \<open>$\<close>.\<close>

fun matches_pattern :: "(char \<Rightarrow> bool) \<Rightarrow> (char \<Rightarrow> bool) \<Rightarrow> nat \<Rightarrow> string \<Rightarrow> bool" where
  "matches_pattern first rest n [] = False"
| "matches_pattern first rest n (c # s) \<longleftrightarrow> first c \<and> list_all rest s \<and> length s \<le> n"

definition access_identifier :: "string \<Rightarrow> bool" where
  "access_identifier = matches_pattern ascii_letter
     (\<lambda>c. ascii_letter c \<or> ascii_digit c \<or> c = CHR ''_'' \<or> c = CHR ''-'') 79"

definition access_environment_name :: "string \<Rightarrow> bool" where
  "access_environment_name = matches_pattern ascii_upper
     (\<lambda>c. ascii_upper c \<or> ascii_digit c \<or> c = CHR ''_'') 127"

section \<open>Data\<close>

datatype access_error = AccessPolicyConfigurationError string

record caller_context =
  caller_id :: string
  tenant_id :: string
  operator :: bool

record credential =
  token_digest :: string
  credential_caller :: caller_context

record configured_caller =
  configured_caller_id :: string
  configured_tenant_id :: string
  token_env :: string
  configured_operator :: bool

record policy_file =
  policy_version :: int
  policy_callers :: "configured_caller list"

text \<open>The constraints of the fields, and \<open>valid_policy\<close>.\<close>

definition caller_fields_ok :: "configured_caller \<Rightarrow> bool" where
  "caller_fields_ok c \<longleftrightarrow> access_identifier (configured_caller_id c)
     \<and> access_identifier (configured_tenant_id c) \<and> access_environment_name (token_env c)"

definition valid_policy :: "policy_file \<Rightarrow> bool" where
  "valid_policy f \<longleftrightarrow>
     1 \<le> length (policy_callers f) \<and> length (policy_callers f) \<le> 1000 \<and> list_all caller_fields_ok (policy_callers f)
     \<and> policy_version f = 2
     \<and> distinct (map configured_caller_id (policy_callers f)) \<and> distinct (map token_env (policy_callers f))"

section \<open>The policy\<close>

record access_policy =
  credentials :: "credential list"
  anonymous :: "caller_context option"

definition local_policy :: access_policy where
  "local_policy = \<lparr>credentials = [], anonymous =
     Some \<lparr>caller_id = ''local-development'', tenant_id = ''local-development'', operator = False\<rparr>\<rparr>"

definition legacy_policy :: "(string \<Rightarrow> string) \<Rightarrow> string \<Rightarrow> access_policy" where
  "legacy_policy digest token =
     \<lparr>credentials = [\<lparr>token_digest = digest token,
        credential_caller = \<lparr>caller_id = ''legacy-api-token'', tenant_id = ''default'', operator = False\<rparr>\<rparr>],
      anonymous = None\<rparr>"

definition configured_context :: "configured_caller \<Rightarrow> caller_context" where
  "configured_context c =
     \<lparr>caller_id = configured_caller_id c, tenant_id = configured_tenant_id c, operator = configured_operator c\<rparr>"

text \<open>The body of the loop of \<open>load\<close>; the digests seen are those of the credentials so far.\<close>

definition add_credential ::
  "(string \<Rightarrow> string) \<Rightarrow> (string, string) dict \<Rightarrow> credential list \<Rightarrow> configured_caller \<Rightarrow> access_error + credential list" where
  "add_credential digest env creds c =
     (let token = (case map_of env (token_env c) of None \<Rightarrow> [] | Some t \<Rightarrow> t) in
      if \<not> (32 \<le> py_len token \<and> py_len token \<le> 512)
      then Inl (AccessPolicyConfigurationError
        (''Access policy requires a 32- to 512-character token in '' @ token_env c))
      else if digest token \<in> token_digest ` set creds
      then Inl (AccessPolicyConfigurationError ''Access policy tokens must be unique'')
      else Inr (creds @ [\<lparr>token_digest = digest token, credential_caller = configured_context c\<rparr>]))"

definition load_policy ::
  "(string \<Rightarrow> string) \<Rightarrow> string + policy_file \<Rightarrow> (string, string) dict \<Rightarrow> string \<Rightarrow> access_error + access_policy" where
  "load_policy digest decoded env path =
     (case decoded of
        Inl e \<Rightarrow> Inl (AccessPolicyConfigurationError (''Invalid access policy in '' @ path @ '': '' @ e))
      | Inr parsed \<Rightarrow>
          if \<not> valid_policy parsed
          then Inl (AccessPolicyConfigurationError (''Invalid access policy in '' @ path @ '': ''))
          else bindE (foldE (add_credential digest env) [] (policy_callers parsed))
            (\<lambda>creds. Inr \<lparr>credentials = creds, anonymous = None\<rparr>))"

text \<open>\<open>authenticate\<close>: the loop goes over all credentials, the last that matches counts.\<close>

definition match_credentials :: "string \<Rightarrow> credential list \<Rightarrow> caller_context option" where
  "match_credentials received creds =
     fold (\<lambda>c matched. if received = token_digest c then Some (credential_caller c) else matched) creds None"

definition authenticate :: "(string \<Rightarrow> string) \<Rightarrow> access_policy \<Rightarrow> string option \<Rightarrow> caller_context option" where
  "authenticate digest policy token =
     (case token of
        None \<Rightarrow> anonymous policy
      | Some t \<Rightarrow>
          if \<not> (32 \<le> py_len t \<and> py_len t \<le> 512) then None
          else match_credentials (digest t) (credentials policy))"

definition caller_audit_fields :: "caller_context \<Rightarrow> (string, string) dict" where
  "caller_audit_fields c = [(''caller_id'', caller_id c), (''tenant_id'', tenant_id c)]"

section \<open>What a loaded policy is\<close>

definition token_of :: "(string, string) dict \<Rightarrow> configured_caller \<Rightarrow> string" where
  "token_of env c = (case map_of env (token_env c) of None \<Rightarrow> [] | Some t \<Rightarrow> t)"

definition credential_of :: "(string \<Rightarrow> string) \<Rightarrow> (string, string) dict \<Rightarrow> configured_caller \<Rightarrow> credential" where
  "credential_of digest env c = \<lparr>token_digest = digest (token_of env c), credential_caller = configured_context c\<rparr>"

lemma credential_of_simps [simp]:
  "token_digest (credential_of digest env c) = digest (token_of env c)"
  "credential_caller (credential_of digest env c) = configured_context c"
  by (simp_all add: credential_of_def)

lemma add_credential_Inr [err_simps]:
  "add_credential digest env creds c = Inr creds' \<longleftrightarrow>
     py_len (token_of env c) \<in> {32..512} \<and> digest (token_of env c) \<notin> token_digest ` set creds \<and>
     creds' = creds @ [credential_of digest env c]"
  by (auto simp: add_credential_def token_of_def credential_of_def Let_def)

lemma foldE_Cons_Inr: "foldE f s (x # xs) = Inr t \<longleftrightarrow> (\<exists>s'. f s x = Inr s' \<and> foldE f s' xs = Inr t)"
  by (simp split: sum.split)

lemma fresh_swap: "d \<notin> B \<and> A \<inter> insert d B = {} \<longleftrightarrow> d \<notin> A \<and> insert d A \<inter> B = {}"
  by blast

lemma add_credentials_Inr:
  "foldE (add_credential digest env) creds cs = Inr creds' \<longleftrightarrow>
     (\<forall>c \<in> set cs. py_len (token_of env c) \<in> {32..512}) \<and>
     distinct (map (digest \<circ> token_of env) cs) \<and>
     (digest \<circ> token_of env) ` set cs \<inter> token_digest ` set creds = {} \<and>
     creds' = creds @ map (credential_of digest env) cs"
proof (induction cs arbitrary: creds)
  case (Cons c cs)
  let ?d = "digest \<circ> token_of env"
  let ?ok = "py_len (token_of env c) \<in> {32..512} \<and> ?d c \<notin> token_digest ` set creds"
  have unfold: "foldE (add_credential digest env) creds (c # cs) = Inr creds' \<longleftrightarrow>
      ?ok \<and> foldE (add_credential digest env) (creds @ [credential_of digest env c]) cs = Inr creds'"
    unfolding foldE_Cons_Inr add_credential_Inr comp_def by blast
  have step: "foldE (add_credential digest env) creds (c # cs) = Inr creds' \<longleftrightarrow> ?ok \<and>
      (\<forall>c \<in> set cs. py_len (token_of env c) \<in> {32..512}) \<and> distinct (map ?d cs) \<and>
      ?d ` set cs \<inter> insert (?d c) (token_digest ` set creds) = {} \<and>
      creds' = creds @ map (credential_of digest env) (c # cs)"
    unfolding unfold Cons.IH by (simp only: set_append image_Un list.set image_insert image_empty credential_of_simps
        comp_def Un_insert_right Un_empty_right append_assoc append_Cons append_Nil list.map)
  note fresh = fresh_swap [of "?d c" "token_digest ` set creds" "?d ` set cs"]
  show ?case
    unfolding step by (simp only: list.set image_insert list.map distinct.simps ball_simps set_map) (use fresh in argo)
qed auto

lemma match_credentials_append:
  "match_credentials d (creds @ [c]) =
     (if d = token_digest c then Some (credential_caller c) else match_credentials d creds)"
  by (simp add: match_credentials_def)

lemma match_credentials_iff:
  assumes "distinct (map token_digest creds)"
  shows "match_credentials d creds = Some caller \<longleftrightarrow>
    (\<exists>c \<in> set creds. token_digest c = d \<and> credential_caller c = caller)"
  using assms
proof (induction creds rule: rev_induct)
  case Nil
  then show ?case by (simp add: match_credentials_def)
next
  case (snoc x xs)
  then have "token_digest c \<noteq> token_digest x" if "c \<in> set xs" for c
    using that by (auto simp: image_iff)
  with snoc show ?case by (auto simp: match_credentials_append)
qed


section \<open>A concrete policy\<close>

definition example_policy_file :: policy_file where
  "example_policy_file = \<lparr>policy_version = 2, policy_callers =
     [\<lparr>configured_caller_id = ''agent'', configured_tenant_id = ''shop'', token_env = ''AGENT_TOKEN'', configured_operator = False\<rparr>,
      \<lparr>configured_caller_id = ''ops'', configured_tenant_id = ''shop'', token_env = ''OPS_TOKEN'', configured_operator = True\<rparr>]\<rparr>"

definition example_tokens :: "(string, string) dict" where
  "example_tokens = [(''AGENT_TOKEN'', replicate 32 (CHR ''a'')), (''OPS_TOKEN'', replicate 40 (CHR ''o''))]"

lemma example_policy_loads:
  "\<exists>policy. load_policy (\<lambda>t. t) (Inr example_policy_file) example_tokens ''policy.yaml'' = Inr policy"
proof -
  have "valid_policy example_policy_file" by code_simp
  moreover have "\<exists>creds. foldE (add_credential (\<lambda>t. t) example_tokens) [] (policy_callers example_policy_file) = Inr creds"
  proof -
    have "list_all (\<lambda>c. 32 \<le> py_len (token_of example_tokens c) \<and> py_len (token_of example_tokens c) \<le> 512)
        (policy_callers example_policy_file)"
      "distinct (map (token_of example_tokens) (policy_callers example_policy_file))" by code_simp+
    then show ?thesis unfolding add_credentials_Inr by (simp add: list_all_iff comp_def)
  qed
  ultimately show ?thesis by (auto simp: load_policy_def)
qed


end
