(* ===== verification/RegistryLoading.thy ===== *)
theory RegistryLoading
  imports Revision Registry Access
begin

text \<open>
  The loading of the registry in \<open>src/query_man/source_catalog/registry.py\<close>: the constraints of
  the configuration models, the layout of a source package and the resolution of a source from
  its manifest, the budget and database profiles and the environment. The file system and the
  decoding of YAML into the fields of a model are given; \<open>int\<close> of a text is the parameter
  \<open>parse_int\<close>. The texts of the errors are those of the code without the path they start with.
\<close>

section \<open>Configuration models\<close>

datatype registry_error = RegistryConfigurationError string

definition identifier_ok :: "string \<Rightarrow> bool" where
  "identifier_ok = matches_pattern (\<lambda>c. ascii_letter c \<or> c = CHR ''_'')
     (\<lambda>c. ascii_letter c \<or> ascii_digit c \<or> c = CHR ''_'' \<or> c = CHR ''$'') 62"

definition environment_variable_ok :: "string \<Rightarrow> bool" where
  "environment_variable_ok = matches_pattern (\<lambda>c. ascii_letter c \<or> c = CHR ''_'')
     (\<lambda>c. ascii_letter c \<or> ascii_digit c \<or> c = CHR ''_'') 127"

definition stable_slug_ok :: "string \<Rightarrow> bool" where
  "stable_slug_ok s \<longleftrightarrow> is_slug s \<and> length s \<le> 80"

definition text_ok :: "nat \<Rightarrow> string \<Rightarrow> bool" where
  "text_ok n s \<longleftrightarrow> 1 \<le> py_len s \<and> py_len s \<le> n"

text \<open>The limits of a budget, and the validator that compares its pool with its concurrency.\<close>

definition budget_limits :: "budget_profile \<Rightarrow> (int \<times> int \<times> int) list" where
  "budget_limits b =
     [(100, metadata_statement_timeout_ms b, 30000),
      (100, query_statement_timeout_ms b, 60000),
      (100, query_transaction_timeout_ms b, 300000),
      (1, query_queue_timeout_ms b, 60000),
      (1, lock_timeout_ms b, 10000),
      (64, work_mem_kb b, 65536),
      (0, temp_file_limit_kb b, 1048576),
      (0, max_parallel_workers_per_gather b, 4),
      (1, max_pool_size b, 20),
      (1, max_concurrent_queries b, 20),
      (1, max_metadata_relations b, 10000),
      (1, max_metadata_columns b, 100000),
      (1, max_columns_per_relation b, 1600),
      (1, max_context_columns_per_relation b, 200),
      (1024, max_metadata_response_bytes b, 104857600),
      (1, max_result_rows b, 100000),
      (1024, max_result_bytes b, 104857600),
      (1024, max_sql_bytes b, 10485760),
      (1, max_plan_total_cost b, 2147483647),
      (1, max_plan_rows b, 2147483647),
      (1, max_plan_nodes b, 100000)]"

definition budget_ok :: "budget_profile \<Rightarrow> bool" where
  "budget_ok b \<longleftrightarrow> list_all (\<lambda>(lo, v, hi). lo \<le> v \<and> v \<le> hi) (budget_limits b)
     \<and> max_concurrent_queries b \<le> max_pool_size b"

text \<open>A budget file: the name and version of a profile are set when it is loaded.\<close>

record budget_file =
  budget_file_version :: int
  budget_file_profiles :: "(string, budget_profile) dict"

definition budget_file_ok :: "budget_file \<Rightarrow> bool" where
  "budget_file_ok f \<longleftrightarrow> list_all (\<lambda>(n, b). identifier_ok n \<and> budget_ok b) (budget_file_profiles f)
     \<and> budget_file_version f = 2"

datatype configured_authentication =
    ConfiguredPassword string
  | ConfiguredClientCertificate

record database_settings =
  ds_host :: string
  ds_host_env :: "string option"
  ds_port :: int
  ds_port_env :: "string option"
  ds_database :: string
  ds_sslmode :: string
  ds_authentication :: configured_authentication

definition database_settings_ok :: "database_settings \<Rightarrow> bool" where
  "database_settings_ok d \<longleftrightarrow>
     text_ok 253 (ds_host d)
     \<and> (case ds_host_env d of None \<Rightarrow> True | Some v \<Rightarrow> environment_variable_ok v)
     \<and> 1 \<le> ds_port d \<and> ds_port d \<le> 65535
     \<and> (case ds_port_env d of None \<Rightarrow> True | Some v \<Rightarrow> environment_variable_ok v)
     \<and> identifier_ok (ds_database d)
     \<and> ds_sslmode d \<in> {''disable'', ''require'', ''verify-full''}
     \<and> (case ds_authentication d of
          ConfiguredPassword v \<Rightarrow> environment_variable_ok v
        | ConfiguredClientCertificate \<Rightarrow> ds_sslmode d = ''verify-full'')"

record database_file =
  database_file_version :: int
  database_file_profiles :: "(string, database_settings) dict"

definition database_file_ok :: "database_file \<Rightarrow> bool" where
  "database_file_ok f \<longleftrightarrow>
     list_all (\<lambda>(n, d). stable_slug_ok n \<and> database_settings_ok d) (database_file_profiles f)
     \<and> database_file_version f = 1 \<and> database_file_profiles f \<noteq> []"

definition control_free :: "string \<Rightarrow> bool" where
  "control_free s \<longleftrightarrow> list_all (\<lambda>c. let n = (of_char c :: nat) in 32 \<le> n \<and> n \<noteq> 127) s"

definition provenance_ok :: "source_provenance \<Rightarrow> bool" where
  "provenance_ok p \<longleftrightarrow> stable_slug_ok (owner p)
     \<and> environment p \<in> {''production'', ''staging'', ''development'', ''test''}
     \<and> text_ok 255 (database_migration_ref p) \<and> control_free (database_migration_ref p)"

record source_file =
  sf_version :: int
  sf_source_id :: string
  sf_name :: string
  sf_description :: string
  sf_provenance :: source_provenance
  sf_database_profile :: string
  sf_reader_user :: string
  sf_allowed_schemas :: "string list"
  sf_allowed_relation_kinds :: "string list"
  sf_view_contract_version :: int
  sf_budget_profile :: string

definition source_file_ok :: "source_file \<Rightarrow> bool" where
  "source_file_ok f \<longleftrightarrow> stable_slug_ok (sf_source_id f) \<and> text_ok 200 (sf_name f) \<and> text_ok 2000 (sf_description f)
     \<and> provenance_ok (sf_provenance f) \<and> stable_slug_ok (sf_database_profile f) \<and> identifier_ok (sf_reader_user f)
     \<and> 1 \<le> length (sf_allowed_schemas f) \<and> length (sf_allowed_schemas f) \<le> 20
     \<and> list_all identifier_ok (sf_allowed_schemas f)
     \<and> 1 \<le> sf_view_contract_version f \<and> identifier_ok (sf_budget_profile f)
     \<and> sf_version f = 6 \<and> sf_allowed_relation_kinds f = [''view'']"

text \<open>\<open>_parse_model\<close>: unreadable, undecodable and invalid files are one error.\<close>

definition parse_model :: "('a \<Rightarrow> bool) \<Rightarrow> string + 'a \<Rightarrow> registry_error + 'a" where
  "parse_model ok decoded =
     (case decoded of
        Inl e \<Rightarrow> Inl (RegistryConfigurationError (''Invalid configuration: '' @ e))
      | Inr m \<Rightarrow> if ok m then Inr m else Inl (RegistryConfigurationError ''Invalid configuration: ''))"

definition load_budget_profiles :: "string + budget_file \<Rightarrow> registry_error + (string, budget_profile) dict" where
  "load_budget_profiles decoded =
     bindE (parse_model budget_file_ok decoded) (\<lambda>parsed.
       Inr (map (\<lambda>(n, b). (n, b\<lparr>budget_name := n, budget_version := budget_file_version parsed\<rparr>))
          (budget_file_profiles parsed)))"

section \<open>A source package\<close>

record package_file =
  file_name :: string
  file_is_symlink :: bool
  file_is_file :: bool

record source_entry =
  entry_name :: string
  entry_is_symlink :: bool
  entry_is_dir :: bool
  entry_files :: "string + package_file list"
  entry_manifest :: "string + source_file"

definition registry_fail :: "string \<Rightarrow> registry_error + 'a" where
  "registry_fail m = Inl (RegistryConfigurationError m)"

definition require_source_package :: "source_entry \<Rightarrow> registry_error + unit" where
  "require_source_package entry =
     (case entry_files entry of
        Inl e \<Rightarrow> registry_fail (''Cannot read: '' @ e)
      | Inr files \<Rightarrow>
          raise_if (file_name ` set files \<noteq> {''source.yaml'', ''views.sql''}
             \<or> list_ex (\<lambda>f. file_is_symlink f \<or> \<not> file_is_file f) files)
            (RegistryConfigurationError ''must contain exactly source.yaml and views.sql''))"

text \<open>The parts of a \<open>PurePosixPath\<close>: its root, if any, and the names, without \<open>.\<close>.\<close>

fun split_on :: "char \<Rightarrow> string \<Rightarrow> string list" where
  "split_on d [] = [[]]"
| "split_on d (c # s) =
     (case split_on d s of
        [] \<Rightarrow> []
      | p # ps \<Rightarrow> if c = d then [] # p # ps else (c # p) # ps)"

definition posix_parts :: "string \<Rightarrow> string list" where
  "posix_parts s =
     (let names = filter (\<lambda>p. p \<noteq> [] \<and> p \<noteq> ''.'') (split_on (CHR ''/'') s) in
      if py_starts ''//'' s \<and> \<not> py_starts ''///'' s then ''//'' # names
      else if py_starts ''/'' s then ''/'' # names else names)"

text \<open>The parts from the last part named \<open>config\<close> on.\<close>

definition from_config :: "string list \<Rightarrow> string list option" where
  "from_config parts =
     (if ''config'' \<in> set parts
      then Some (''config'' # rev (takeWhile (\<lambda>p. p \<noteq> ''config'') (rev parts))) else None)"

definition require_sibling_view_reference :: "string list \<Rightarrow> source_file \<Rightarrow> registry_error + unit" where
  "require_sibling_view_reference source_path parsed =
     (case from_config source_path of
        None \<Rightarrow> registry_fail ''source package must be below config''
      | Some parts \<Rightarrow>
          raise_if (posix_parts (database_migration_ref (sf_provenance parsed)) \<noteq> parts @ [''views.sql''])
            (RegistryConfigurationError ''database_migration_ref must reference sibling views.sql''))"

section \<open>Resolution of a source\<close>

definition is_forbidden_schema :: "python \<Rightarrow> string \<Rightarrow> bool" where
  "is_forbidden_schema py name =
     (let normalized = casefold py name in
      normalized = ''information_schema'' \<or> py_starts ''pg_'' normalized)"

definition env_get :: "(string, string) dict \<Rightarrow> string option \<Rightarrow> string option" where
  "env_get env name = (case name of None \<Rightarrow> None | Some n \<Rightarrow> map_of env n)"

definition resolve_host :: "(string, string) dict \<Rightarrow> database_settings \<Rightarrow> registry_error + string" where
  "resolve_host env d =
     (let host = (case env_get env (ds_host_env d) of None \<Rightarrow> ds_host d | Some h \<Rightarrow> py_strip h);
          bad = (\<lambda>raw. let item = py_strip raw in
                 item = [] \<or> item \<noteq> raw \<or> py_starts ''/'' item \<or> py_starts ''@'' item) in
      if host = [] \<or> py_len host > 253 \<or> list_ex bad (split_on (CHR '','') host)
      then registry_fail ''resolved an invalid host'' else Inr host)"

definition resolve_port ::
  "(string \<Rightarrow> int option) \<Rightarrow> (string, string) dict \<Rightarrow> database_settings \<Rightarrow> registry_error + int" where
  "resolve_port parse_int env d =
     bindE (case env_get env (ds_port_env d) of
              None \<Rightarrow> Inr (ds_port d)
            | Some raw \<Rightarrow>
                (case parse_int raw of None \<Rightarrow> registry_fail ''resolved an invalid port'' | Some p \<Rightarrow> Inr p))
       (\<lambda>port. if 1 \<le> port \<and> port \<le> 65535 then Inr port else registry_fail ''resolved an invalid port'')"

definition join_path :: "string \<Rightarrow> string \<Rightarrow> string" where
  "join_path d n = (if py_ends ''/'' d then d @ n else d @ CHR ''/'' # n)"

definition resolve_authentication ::
  "(string, string) dict \<Rightarrow> string \<Rightarrow> source_file \<Rightarrow> database_settings \<Rightarrow> registry_error + database_authentication" where
  "resolve_authentication env credential_directory parsed d =
     (case ds_authentication d of
        ConfiguredPassword password_env \<Rightarrow>
          if environment (sf_provenance parsed) \<noteq> ''test''
          then registry_fail ''password authentication is allowed only for test sources''
          else (case map_of env password_env of
                  None \<Rightarrow> registry_fail (''requires environment variable '' @ password_env)
                | Some pw \<Rightarrow> if pw = [] then registry_fail (''requires environment variable '' @ password_env)
                             else Inr (PasswordAuthentication pw))
      | ConfiguredClientCertificate \<Rightarrow>
          (let directory = join_path credential_directory (sf_database_profile parsed) in
           Inr (ClientCertificateAuthentication (join_path directory ''ca.crt'')
             (join_path directory ''client.crt'') (join_path directory ''client.key''))))"

definition resolve_source ::
  "python \<Rightarrow> (string \<Rightarrow> int option) \<Rightarrow> (string, budget_profile) dict \<Rightarrow> (string, database_settings) dict
     \<Rightarrow> string \<Rightarrow> (string, string) dict \<Rightarrow> source_file \<Rightarrow> registry_error + source_profile" where
  "resolve_source py parse_int budgets databases credential_directory env parsed =
     (case (map_of budgets (sf_budget_profile parsed), map_of databases (sf_database_profile parsed)) of
        (None, _) \<Rightarrow> registry_fail (''references unknown budget profile: '' @ sf_budget_profile parsed)
      | (Some b, None) \<Rightarrow> registry_fail (''references unknown database profile: '' @ sf_database_profile parsed)
      | (Some b, Some d) \<Rightarrow>
          bindE (resolve_host env d) (\<lambda>host.
          bindE (resolve_port parse_int env d) (\<lambda>port.
          bindE (raise_if (\<not> distinct (sf_allowed_schemas parsed))
                   (RegistryConfigurationError ''contains duplicate allowed_schemas'')) (\<lambda>_.
          bindE (case find (is_forbidden_schema py) (sf_allowed_schemas parsed) of
                   None \<Rightarrow> Inr ()
                 | Some name \<Rightarrow> registry_fail (''cannot publish PostgreSQL system schema: '' @ name)) (\<lambda>_.
          bindE (resolve_authentication env credential_directory parsed d) (\<lambda>auth.
          Inr \<lparr>source_id = sf_source_id parsed, source_name = sf_name parsed,
               source_description = sf_description parsed,
               connection = \<lparr>database_profile = sf_database_profile parsed, host = host, port = port,
                 database = ds_database d, user = sf_reader_user parsed, sslmode = ds_sslmode d,
                 authentication = auth\<rparr>,
               allowed_schemas = sf_allowed_schemas parsed, allowed_relation_kinds = [''view''],
               view_contract_version = sf_view_contract_version parsed, budget = b,
               provenance = sf_provenance parsed\<rparr>))))))"

section \<open>The registry\<close>

definition load_entry ::
  "python \<Rightarrow> (string \<Rightarrow> int option) \<Rightarrow> (string, budget_profile) dict \<Rightarrow> (string, database_settings) dict
     \<Rightarrow> string \<Rightarrow> (string, string) dict \<Rightarrow> string list \<Rightarrow> source_entry \<Rightarrow> registry_error + source_profile" where
  "load_entry py parse_int budgets databases credential_directory env directory entry =
     (if entry_is_symlink entry \<or> \<not> entry_is_dir entry then registry_fail ''Unexpected source entry''
      else
        bindE (require_source_package entry) (\<lambda>_.
        bindE (parse_model source_file_ok (entry_manifest entry)) (\<lambda>parsed.
        if entry_name entry \<noteq> sf_source_id parsed
        then registry_fail (''source_id must match directory name '' @ entry_name entry)
        else
          bindE (require_sibling_view_reference (directory @ [entry_name entry]) parsed) (\<lambda>_.
          resolve_source py parse_int budgets databases credential_directory env parsed))))"

definition load_registry ::
  "python \<Rightarrow> (string \<Rightarrow> int option) \<Rightarrow> string + source_entry list \<Rightarrow> string list \<Rightarrow> string + budget_file
     \<Rightarrow> string + database_file \<Rightarrow> string \<Rightarrow> (string, string) dict \<Rightarrow> registry_error + registry" where
  "load_registry py parse_int listing directory budget_decoded database_decoded credential_directory env =
     bindE (load_budget_profiles budget_decoded) (\<lambda>budgets.
     bindE (parse_model database_file_ok database_decoded) (\<lambda>databases.
     (case listing of
        Inl e \<Rightarrow> registry_fail (''Cannot read: '' @ e)
      | Inr entries \<Rightarrow>
          if entries = [] then registry_fail ''No source directories found''
          else
            bindE (foldE (\<lambda>sources entry.
                bindE (load_entry py parse_int budgets (database_file_profiles databases) credential_directory env
                         directory entry) (\<lambda>s. Inr (sources @ [s])))
              [] (sort_key entry_name entries))
            (\<lambda>sources. Inr (source_registry sources)))))"

section \<open>What is loaded\<close>

definition host_ok :: "string \<Rightarrow> bool" where
  "host_ok h \<longleftrightarrow> h \<noteq> [] \<and> py_len h \<le> 253 \<and>
     list_all (\<lambda>item. item \<noteq> [] \<and> py_strip item = item \<and> \<not> py_starts ''/'' item \<and> \<not> py_starts ''@'' item)
       (split_on (CHR '','') h)"

definition source_safe :: "python \<Rightarrow> source_profile \<Rightarrow> bool" where
  "source_safe py s \<longleftrightarrow>
     budget_ok (budget s) \<and> host_ok (host (connection s)) \<and> 1 \<le> port (connection s) \<and> port (connection s) \<le> 65535 \<and>
     sslmode (connection s) \<in> {''disable'', ''require'', ''verify-full''} \<and>
     allowed_schemas s \<noteq> [] \<and> distinct (allowed_schemas s) \<and>
     list_all (\<lambda>n. identifier_ok n \<and> \<not> is_forbidden_schema py n) (allowed_schemas s) \<and>
     allowed_relation_kinds s = [''view''] \<and> 1 \<le> view_contract_version s \<and>
     (case authentication (connection s) of
        PasswordAuthentication pw \<Rightarrow> pw \<noteq> [] \<and> environment (provenance s) = ''test''
      | ClientCertificateAuthentication ca cert key \<Rightarrow> sslmode (connection s) = ''verify-full'')"

lemma registry_fail_Inr [simp]: "registry_fail m \<noteq> Inr x" "Inr x \<noteq> registry_fail m"
  by (simp_all add: registry_fail_def)

lemma parse_model_Inr [err_simps]: "parse_model ok decoded = Inr m \<longleftrightarrow> decoded = Inr m \<and> ok m"
  by (auto simp: parse_model_def split: sum.splits)

lemma resolve_host_Inr:
  assumes "resolve_host env d = Inr h"
  shows "host_ok h"
  using assms unfolding resolve_host_def Let_def host_ok_def
  by (auto simp: list_ex_iff list_all_iff split: if_splits)

lemma resolve_port_Inr: "resolve_port parse_int env d = Inr p \<Longrightarrow> 1 \<le> p \<and> p \<le> 65535"
  by (auto simp: resolve_port_def err_simps split: if_splits)

lemma resolve_authentication_Inr:
  assumes "resolve_authentication env dir parsed d = Inr auth" and "database_settings_ok d"
  shows "case auth of
      PasswordAuthentication pw \<Rightarrow> pw \<noteq> [] \<and> environment (sf_provenance parsed) = ''test''
    | ClientCertificateAuthentication ca cert key \<Rightarrow> ds_sslmode d = ''verify-full''"
  using assms
  by (auto simp: resolve_authentication_def database_settings_ok_def Let_def
      split: configured_authentication.splits option.splits if_splits)

lemma resolve_source_Inr:
  assumes "resolve_source py parse_int budgets databases dir env parsed = Inr s" and "source_file_ok parsed"
    and "\<And>n b. map_of budgets n = Some b \<Longrightarrow> budget_ok b"
    and "\<And>n d. map_of databases n = Some d \<Longrightarrow> database_settings_ok d"
  shows "source_id s = sf_source_id parsed \<and> source_safe py s"
proof -
  from assms(1) obtain b d where b: "map_of budgets (sf_budget_profile parsed) = Some b"
    and d: "map_of databases (sf_database_profile parsed) = Some d"
    by (auto simp: resolve_source_def split: option.splits)
  with assms(1) obtain h p auth where h: "resolve_host env d = Inr h" and p: "resolve_port parse_int env d = Inr p"
    and dist: "distinct (sf_allowed_schemas parsed)"
    and none: "find (is_forbidden_schema py) (sf_allowed_schemas parsed) = None"
    and auth: "resolve_authentication env dir parsed d = Inr auth"
    and s: "s = \<lparr>source_id = sf_source_id parsed, source_name = sf_name parsed,
               source_description = sf_description parsed,
               connection = \<lparr>database_profile = sf_database_profile parsed, host = h, port = p,
                 database = ds_database d, user = sf_reader_user parsed, sslmode = ds_sslmode d,
                 authentication = auth\<rparr>,
               allowed_schemas = sf_allowed_schemas parsed, allowed_relation_kinds = [''view''],
               view_contract_version = sf_view_contract_version parsed, budget = b,
               provenance = sf_provenance parsed\<rparr>"
    by (auto simp: resolve_source_def err_simps split: option.splits)
  have "list_all (\<lambda>n. identifier_ok n \<and> \<not> is_forbidden_schema py n) (sf_allowed_schemas parsed)"
    using none assms(2) by (auto simp: find_None_iff source_file_ok_def list_all_iff)
  moreover have "ds_sslmode d \<in> {''disable'', ''require'', ''verify-full''}"
    using assms(4) [OF d] by (simp add: database_settings_ok_def)
  moreover have "sf_allowed_schemas parsed \<noteq> []" "1 \<le> sf_view_contract_version parsed"
    using assms(2) by (auto simp: source_file_ok_def)
  ultimately show ?thesis
    using resolve_host_Inr [OF h] resolve_port_Inr [OF p] resolve_authentication_Inr [OF auth assms(4) [OF d]]
      assms(3) [OF b] dist by (cases auth) (simp_all add: s source_safe_def)
qed

lemma budgets_Inr:
  assumes "load_budget_profiles decoded = Inr budgets" and "map_of budgets n = Some b"
  shows "budget_ok b"
proof -
  from assms(1) obtain f where f: "budget_file_ok f"
    and budgets: "budgets = map (\<lambda>(n, b). (n, b\<lparr>budget_name := n, budget_version := budget_file_version f\<rparr>))
      (budget_file_profiles f)"
    by (auto simp: load_budget_profiles_def err_simps)
  from assms(2) have "(n, b) \<in> set budgets" by (rule map_of_SomeD)
  then obtain b0 where "(n, b0) \<in> set (budget_file_profiles f)"
    "b = b0\<lparr>budget_name := n, budget_version := budget_file_version f\<rparr>" by (auto simp: budgets)
  with f show ?thesis by (auto simp: budget_file_ok_def list_all_iff budget_ok_def budget_limits_def)
qed

lemma load_entry_Inr:
  assumes "load_entry py parse_int budgets databases dir env directory entry = Inr s"
    and "\<And>n b. map_of budgets n = Some b \<Longrightarrow> budget_ok b"
    and "\<And>n d. map_of databases n = Some d \<Longrightarrow> database_settings_ok d"
  shows "source_id s = entry_name entry \<and> source_safe py s"
proof -
  from assms(1) obtain parsed where "entry_name entry = sf_source_id parsed" "source_file_ok parsed"
    "resolve_source py parse_int budgets databases dir env parsed = Inr s"
    by (auto simp: load_entry_def err_simps split: if_splits)
  with resolve_source_Inr [OF _ _ assms(2,3)] show ?thesis by auto
qed

lemma load_entries_Inr:
  assumes "foldE (\<lambda>sources entry. bindE (f entry) (\<lambda>s. Inr (sources @ [s]))) acc entries = Inr sources"
  shows "\<exists>new. sources = acc @ new \<and> map f entries = map Inr new"
  using assms
proof (induction entries arbitrary: acc)
  case (Cons e es)
  then obtain s where s: "f e = Inr s"
    and rest: "foldE (\<lambda>sources entry. bindE (f entry) (\<lambda>s. Inr (sources @ [s]))) (acc @ [s]) es = Inr sources"
    by (cases "f e") auto
  from Cons.IH [OF rest] obtain new where "sources = (acc @ [s]) @ new" "map f es = map Inr new" by blast
  with s show ?case by (intro exI [of _ "s # new"]) simp
qed simp

lemma registry_ids: "set (registry_source_ids (source_registry sources)) = source_id ` set sources"
proof (induction sources rule: rev_induct)
  case (snoc x xs)
  have "set (map fst (AList.update (source_id x) x (source_registry xs))) =
      insert (source_id x) (set (map fst (source_registry xs)))"
    by (simp only: set_map dom_update) simp
  with snoc show ?case by (simp add: registry_source_ids_def source_registry_step)
qed (simp add: registry_source_ids_def source_registry_def)

lemma load_registry_Inr:
  assumes "load_registry py parse_int listing directory budgets databases credential_directory env = Inr reg"
  shows "\<exists>entries. listing = Inr entries \<and> entries \<noteq> [] \<and>
    set (registry_source_ids reg) = entry_name ` set entries \<and>
    (\<forall>sid s. registry_get reg sid = Some s \<longrightarrow> source_id s = sid \<and> source_safe py s)"
proof -
  let ?load = "\<lambda>bs ds. load_entry py parse_int bs (database_file_profiles ds) credential_directory env directory"
  from assms obtain entries where entries: "listing = Inr entries" "entries \<noteq> []"
    unfolding load_registry_def bindE_Inr_iff by (cases listing) (auto split: if_splits)
  from assms [unfolded load_registry_def bindE_Inr_iff] entries obtain bs ds sources where
    bs: "load_budget_profiles budgets = Inr bs" and ds: "database_file_ok ds" and
    fold: "foldE (\<lambda>sources entry. bindE (?load bs ds entry) (\<lambda>s. Inr (sources @ [s]))) []
      (sort_key entry_name entries) = Inr sources" and
    reg: "reg = source_registry sources"
    unfolding parse_model_Inr by (elim exE conjE) (simp add: bindE_Inr_iff, blast)
  from load_entries_Inr [OF fold]
  have loaded: "map (load_entry py parse_int bs (database_file_profiles ds) credential_directory env directory)
      (sort_key entry_name entries) = map Inr sources" by simp
  have dbs: "database_settings_ok d" if "map_of (database_file_profiles ds) n = Some d" for n d
    using ds map_of_SomeD [OF that] by (auto simp: database_file_ok_def list_all_iff)
  have one: "source_id s = entry_name e \<and> source_safe py s"
    if "load_entry py parse_int bs (database_file_profiles ds) credential_directory env directory e = Inr s" for e s
    by (rule load_entry_Inr [OF that]) (use budgets_Inr [OF bs] dbs in blast)+
  have len: "length sources = length entries" using arg_cong [OF loaded, of length] by simp
  have nth: "source_id (sources ! i) = entry_name (sort_key entry_name entries ! i) \<and> source_safe py (sources ! i)"
    if "i < length sources" for i
    using arg_cong [OF loaded, of "\<lambda>xs. xs ! i"] that len by (intro one) simp
  have names: "map source_id sources = map entry_name (sort_key entry_name entries)"
    by (rule nth_equalityI) (simp_all add: len nth)
  have safe: "\<forall>s \<in> set sources. source_safe py s" using nth by (auto simp: in_set_conv_nth)
  have "source_id ` set sources = entry_name ` set entries" using arg_cong [OF names, of set] by simp
  with entries safe show ?thesis
    unfolding reg using registry_ids [of sources] registry_get_id [of sources] by (intro exI [of _ entries]) auto
qed

text \<open>
  C11: a registry that loads is safe. The sources are exactly the packages of the directory, under
  their names; each has a budget within its limits, with at least as many connections as
  queries it admits, a host that is no socket path, a port in range, distinct schemas none of
  which is a system schema, views only, and either a client certificate over fully verified
  TLS or, in the test environment only, a non-empty password.
\<close>
theorem loaded_registry_safe:
  assumes "load_registry py parse_int listing directory budgets databases credential_directory env = Inr reg"
  shows "\<exists>entries. listing = Inr entries \<and> entries \<noteq> [] \<and>
    set (registry_source_ids reg) = entry_name ` set entries \<and>
    (\<forall>sid s. registry_get reg sid = Some s \<longrightarrow> source_id s = sid \<and> source_safe py s)"
  using assms by (rule load_registry_Inr)

section \<open>A concrete configuration\<close>

definition example_budget_file :: budget_file where
  "example_budget_file = \<lparr>budget_file_version = 2,
     budget_file_profiles = [(''standard'', example_budget\<lparr>max_result_bytes := 4096, max_sql_bytes := 4096\<rparr>)]\<rparr>"

definition example_database_file :: database_file where
  "example_database_file = \<lparr>database_file_version = 1, database_file_profiles =
     [(''main'', \<lparr>ds_host = ''db'', ds_host_env = Some ''DB_HOST'', ds_port = 5432, ds_port_env = None,
        ds_database = ''shop'', ds_sslmode = ''require'', ds_authentication = ConfiguredPassword ''DB_PASSWORD''\<rparr>)]\<rparr>"

definition example_source_file :: source_file where
  "example_source_file = \<lparr>sf_version = 6, sf_source_id = ''shop'', sf_name = ''Shop'', sf_description = ''Orders'',
     sf_provenance = \<lparr>owner = ''team'', environment = ''test'',
       database_migration_ref = ''config/sources/shop/views.sql''\<rparr>,
     sf_database_profile = ''main'', sf_reader_user = ''reader'', sf_allowed_schemas = [''api''],
     sf_allowed_relation_kinds = [''view''], sf_view_contract_version = 2, sf_budget_profile = ''standard''\<rparr>"

definition example_entry :: source_entry where
  "example_entry = \<lparr>entry_name = ''shop'', entry_is_symlink = False, entry_is_dir = True,
     entry_files = Inr [\<lparr>file_name = ''source.yaml'', file_is_symlink = False, file_is_file = True\<rparr>,
                        \<lparr>file_name = ''views.sql'', file_is_symlink = False, file_is_file = True\<rparr>],
     entry_manifest = Inr example_source_file\<rparr>"

abbreviation plain_python :: python where
  "plain_python \<equiv> \<lparr>casefold = (\<lambda>s. s), repr_other = (\<lambda>v. []), frames = 100\<rparr>"

abbreviation example_directory :: "string list" where
  "example_directory \<equiv> [''/'', ''srv'', ''config'', ''sources'']"

lemma example_registry_loads:
  assumes "map_of env ''DB_HOST'' = Some '' db1,db2 ''" and "map_of env ''DB_PASSWORD'' = Some ''pw''"
  shows "\<exists>reg. load_registry plain_python (\<lambda>s. None) (Inr [example_entry]) example_directory
    (Inr example_budget_file) (Inr example_database_file) credential_directory env = Inr reg"
proof -
  have files: "budget_file_ok example_budget_file" "database_file_ok example_database_file" by code_simp+
  then obtain bs where bs: "load_budget_profiles (Inr example_budget_file) = Inr bs"
    by (simp add: load_budget_profiles_def parse_model_def)
  have budget: "map_of bs ''standard'' \<noteq> None"
    using bs files by (auto simp: load_budget_profiles_def parse_model_def example_budget_file_def)
  have "py_strip '' db1,db2 '' = ''db1,db2''" "split_on (CHR '','') ''db1,db2'' = [''db1'', ''db2'']"
    "py_strip ''db1'' = ''db1''" "py_strip ''db2'' = ''db2''" "py_len ''db1,db2'' = 7" by code_simp+
  then have "resolve_host env (snd (hd (database_file_profiles example_database_file))) = Inr ''db1,db2''"
    using assms(1) by (simp add: resolve_host_def example_database_file_def env_get_def py_starts_def)
  with budget have "\<exists>s. resolve_source plain_python (\<lambda>s. None) bs (database_file_profiles example_database_file)
      credential_directory env example_source_file = Inr s"
    using assms(2)
    by (auto simp: resolve_source_def example_source_file_def example_database_file_def resolve_port_def env_get_def
        raise_if_def is_forbidden_schema_def py_starts_def resolve_authentication_def)
  moreover have "source_file_ok example_source_file" "require_source_package example_entry = Inr ()"
    "require_sibling_view_reference (example_directory @ [entry_name example_entry]) example_source_file = Inr ()"
    by code_simp+
  ultimately obtain s where "load_entry plain_python (\<lambda>s. None) bs (database_file_profiles example_database_file)
      credential_directory env example_directory example_entry = Inr s"
    by (auto simp: load_entry_def example_entry_def parse_model_def example_source_file_def)
  with bs files show ?thesis by (simp add: load_registry_def parse_model_def)
qed

theorem loaded_registry_safe_witness:
  "\<exists>reg. load_registry plain_python (\<lambda>s. None) (Inr [example_entry]) example_directory
      (Inr example_budget_file) (Inr example_database_file) ''/run/secrets''
      [(''DB_HOST'', '' db1,db2 ''), (''DB_PASSWORD'', ''pw'')] = Inr reg \<and>
    set (registry_source_ids reg) = {''shop''}"
proof -
  let ?env = "[(''DB_HOST'', '' db1,db2 ''), (''DB_PASSWORD'', ''pw'')]"
  obtain reg where load: "load_registry plain_python (\<lambda>s. None) (Inr [example_entry]) example_directory
      (Inr example_budget_file) (Inr example_database_file) ''/run/secrets'' ?env = Inr reg"
    using example_registry_loads [of ?env] by auto
  from loaded_registry_safe [OF load]
  have "set (registry_source_ids reg) = entry_name ` set [example_entry]" by auto
  with load show ?thesis by (auto simp: example_entry_def)
qed

end
