(* ===== verification/Config.thy ===== *)
theory Config
  imports RegistryLoading
begin

text \<open>
  \<open>src/query_man/runtime/config.py\<close>: the runtime configuration from the environment. Reading an
  \<open>int\<close> from a text is the parameter \<open>parse_int\<close>; whether a text that is no IPv4 address is a
  loopback IPv6 address, which depends on the release of \<open>ipaddress\<close>, is the parameter
  \<open>ipv6_loopback\<close>. The text of a validation error is not modelled.
\<close>

section \<open>Loopback hosts\<close>

text \<open>An octet has one to three ASCII digits, no leading zero, and is at most 255.\<close>

definition decimal_value :: "string \<Rightarrow> nat" where
  "decimal_value s = fold (\<lambda>c n. 10 * n + (of_char c - 48)) s 0"

definition octet :: "string \<Rightarrow> nat option" where
  "octet s =
     (if s = [] \<or> \<not> list_all ascii_digit s \<or> length s > 3 \<or> (hd s = CHR ''0'' \<and> length s > 1)
         \<or> decimal_value s > 255
      then None else Some (decimal_value s))"

definition ipv4_octets :: "string \<Rightarrow> nat list option" where
  "ipv4_octets address =
     (let parts = split_on (CHR ''.'') address in
      if length parts \<noteq> 4 then None else those (map octet parts))"

definition is_loopback :: "python \<Rightarrow> (string \<Rightarrow> bool) \<Rightarrow> string \<Rightarrow> bool" where
  "is_loopback py ipv6_loopback address =
     (if casefold py address = ''localhost'' then True
      else (case ipv4_octets address of
              Some os \<Rightarrow> hd os = 127
            | None \<Rightarrow> ipv6_loopback address))"

section \<open>The environment\<close>

datatype config_error = ConfigValueError string

definition RETIRED_SOURCE_AUTHORITY_SETTINGS :: "string list" where
  "RETIRED_SOURCE_AUTHORITY_SETTINGS =
     [''QUERY_MAN_SOURCE_MODE'', ''QUERY_MAN_CONTROL_DSN'', ''QUERY_MAN_SOURCE_ENCRYPTION_KEY'',
      ''QUERY_MAN_REPLICA_ID'', ''QUERY_MAN_SOURCE_RELOAD_INTERVAL_MS'']"

record environment_settings =
  es_host :: string
  es_port :: int
  es_log_level :: string
  es_api_token :: "string option"
  es_source_dir :: "string option"
  es_budget_file :: "string option"
  es_database_file :: "string option"
  es_database_credential_directory :: string
  es_access_policy_file :: "string option"
  es_cache_ttl_ms :: int
  es_max_stale_ms :: int
  es_retry_delay_ms :: int
  es_shutdown_grace_ms :: int

text \<open>A field is read under its alias, otherwise under its name.\<close>

definition field_text :: "(string, string) dict \<Rightarrow> string \<Rightarrow> string \<Rightarrow> string option" where
  "field_text env alias name = (case map_of env alias of Some v \<Rightarrow> Some v | None \<Rightarrow> map_of env name)"

definition invalid_configuration :: "config_error + 'a" where
  "invalid_configuration = Inl (ConfigValueError ''Invalid runtime configuration: '')"

definition text_field :: "(string, string) dict \<Rightarrow> string \<Rightarrow> string \<Rightarrow> string \<Rightarrow> nat \<Rightarrow> config_error + string" where
  "text_field env alias name fallback least =
     (let v = (case field_text env alias name of None \<Rightarrow> fallback | Some v \<Rightarrow> v) in
      if py_len v < least then invalid_configuration else Inr v)"

definition int_field ::
  "(string \<Rightarrow> int option) \<Rightarrow> (string, string) dict \<Rightarrow> string \<Rightarrow> string \<Rightarrow> int \<Rightarrow> int \<Rightarrow> int \<Rightarrow> config_error + int" where
  "int_field parse_int env alias name fallback least greatest =
     (case field_text env alias name of
        None \<Rightarrow> Inr fallback
      | Some text0 \<Rightarrow>
          (case parse_int text0 of
             None \<Rightarrow> invalid_configuration
           | Some i \<Rightarrow> if least \<le> i \<and> i \<le> greatest then Inr i else invalid_configuration))"

definition ascii_lower :: "string \<Rightarrow> string" where
  "ascii_lower s = map (\<lambda>c. if ascii_upper c then char_of ((of_char c :: nat) + 32) else c) s"

definition log_level_field :: "(string, string) dict \<Rightarrow> config_error + string" where
  "log_level_field env =
     (let v = (case field_text env ''QUERY_MAN_LOG_LEVEL'' ''log_level'' of None \<Rightarrow> ''info'' | Some v \<Rightarrow> v) in
      if ascii_lower v \<in> {''critical'', ''fatal'', ''error'', ''warning'', ''warn'', ''info'', ''debug''}
      then Inr (ascii_lower v) else invalid_configuration)"

definition api_token_field :: "(string, string) dict \<Rightarrow> config_error + string option" where
  "api_token_field env =
     (case field_text env ''QUERY_MAN_API_TOKEN'' ''api_token'' of
        None \<Rightarrow> Inr None
      | Some t \<Rightarrow> if 32 \<le> py_len t \<and> py_len t \<le> 512 then Inr (Some t) else invalid_configuration)"

definition parse_environment ::
  "(string \<Rightarrow> int option) \<Rightarrow> (string, string) dict \<Rightarrow> config_error + environment_settings" where
  "parse_environment parse_int env =
     bindE (text_field env ''QUERY_MAN_HOST'' ''host'' ''127.0.0.1'' 1) (\<lambda>h.
     bindE (int_field parse_int env ''QUERY_MAN_PORT'' ''port'' 3000 1 65535) (\<lambda>p.
     bindE (log_level_field env) (\<lambda>level.
     bindE (api_token_field env) (\<lambda>token.
     bindE (text_field env ''QUERY_MAN_DATABASE_CREDENTIAL_DIRECTORY'' ''database_credential_directory''
              ''/run/secrets/query-man/databases'' 1) (\<lambda>credentials.
     bindE (raise_if (\<not> py_starts ''/'' credentials) (ConfigValueError ''Invalid runtime configuration: '')) (\<lambda>_.
     bindE (int_field parse_int env ''QUERY_MAN_METADATA_CACHE_TTL_MS'' ''cache_ttl_ms'' 30000 0 3600000) (\<lambda>ttl.
     bindE (int_field parse_int env ''QUERY_MAN_METADATA_MAX_STALE_MS'' ''max_stale_ms'' 300000 0 86400000) (\<lambda>stale.
     bindE (int_field parse_int env ''QUERY_MAN_METADATA_RETRY_DELAY_MS'' ''retry_delay_ms'' 5000 100 300000) (\<lambda>retry.
     bindE (int_field parse_int env ''QUERY_MAN_SHUTDOWN_GRACE_MS'' ''shutdown_grace_ms'' 10000 0 300000) (\<lambda>grace.
     Inr \<lparr>es_host = h, es_port = p, es_log_level = level, es_api_token = token,
       es_source_dir = field_text env ''QUERY_MAN_SOURCE_DIR'' ''source_dir'',
       es_budget_file = field_text env ''QUERY_MAN_BUDGET_FILE'' ''budget_file'',
       es_database_file = field_text env ''QUERY_MAN_DATABASE_FILE'' ''database_file'',
       es_database_credential_directory = credentials,
       es_access_policy_file = field_text env ''QUERY_MAN_ACCESS_POLICY_FILE'' ''access_policy_file'',
       es_cache_ttl_ms = ttl, es_max_stale_ms = stale, es_retry_delay_ms = retry,
       es_shutdown_grace_ms = grace\<rparr>))))))))))"

section \<open>The configuration\<close>

record runtime_config =
  config_host :: string
  config_port :: int
  log_level :: string
  api_token :: "string option"
  source_directory :: string
  config_budget_file :: string
  config_database_file :: string
  database_credential_directory :: string
  access_policy_file :: "string option"
  metadata_cache_ttl_ms :: int
  metadata_max_stale_ms :: int
  metadata_retry_delay_ms :: int
  shutdown_grace_ms :: int

definition path_or :: "string option \<Rightarrow> string \<Rightarrow> string" where
  "path_or text0 fallback = (case text0 of None \<Rightarrow> fallback | Some p \<Rightarrow> if p = [] then fallback else p)"

definition drop_empty_token :: "(string, string) dict \<Rightarrow> (string, string) dict" where
  "drop_empty_token env =
     (if map_of env ''QUERY_MAN_API_TOKEN'' = Some [] then AList.delete ''QUERY_MAN_API_TOKEN'' env else env)"

definition load_runtime_config ::
  "python \<Rightarrow> (string \<Rightarrow> int option) \<Rightarrow> (string \<Rightarrow> bool) \<Rightarrow> (string, string) dict \<Rightarrow> string
     \<Rightarrow> config_error + runtime_config" where
  "load_runtime_config py parse_int ipv6_loopback env root_directory =
     (let retired = filter (\<lambda>name. map_of env name \<noteq> None) RETIRED_SOURCE_AUTHORITY_SETTINGS in
      if retired \<noteq> []
      then Inl (ConfigValueError ''Git-reviewed source packages are the only source authority'')
      else
        bindE (parse_environment parse_int (drop_empty_token env)) (\<lambda>parsed.
        if es_api_token parsed \<noteq> None \<and> es_access_policy_file parsed \<noteq> None
        then Inl (ConfigValueError ''Configure exactly one of QUERY_MAN_API_TOKEN or QUERY_MAN_ACCESS_POLICY_FILE'')
        else if \<not> is_loopback py ipv6_loopback (es_host parsed) \<and> es_api_token parsed = None
           \<and> es_access_policy_file parsed = None
        then Inl (ConfigValueError ''QUERY_MAN_API_TOKEN or QUERY_MAN_ACCESS_POLICY_FILE is required'')
        else
          (let config = join_path root_directory ''config'' in
           Inr \<lparr>config_host = es_host parsed, config_port = es_port parsed, log_level = es_log_level parsed,
             api_token = es_api_token parsed,
             source_directory = path_or (es_source_dir parsed) (join_path config ''sources''),
             config_budget_file = path_or (es_budget_file parsed) (join_path config ''budget-profiles.yaml''),
             config_database_file = path_or (es_database_file parsed) (join_path config ''database-profiles.yaml''),
             database_credential_directory = es_database_credential_directory parsed,
             access_policy_file = (case es_access_policy_file parsed of None \<Rightarrow> None
                | Some p \<Rightarrow> if p = [] then None else Some p),
             metadata_cache_ttl_ms = es_cache_ttl_ms parsed, metadata_max_stale_ms = es_max_stale_ms parsed,
             metadata_retry_delay_ms = es_retry_delay_ms parsed,
             shutdown_grace_ms = es_shutdown_grace_ms parsed\<rparr>)))"

section \<open>What is loaded\<close>

lemma text_field_Inr: "text_field env alias name fallback least = Inr v \<Longrightarrow> least \<le> py_len v"
  by (auto simp: text_field_def invalid_configuration_def Let_def split: if_splits)

lemma int_field_Inr:
  "int_field parse_int env alias name fallback least greatest = Inr i \<Longrightarrow>
     least \<le> fallback \<Longrightarrow> fallback \<le> greatest \<Longrightarrow> least \<le> i \<and> i \<le> greatest"
  by (auto simp: int_field_def invalid_configuration_def split: option.splits if_splits)

lemma api_token_field_Inr: "api_token_field env = Inr (Some t) \<Longrightarrow> 32 \<le> py_len t \<and> py_len t \<le> 512"
  by (auto simp: api_token_field_def invalid_configuration_def split: option.splits if_splits)

definition settings_ok :: "(string, string) dict \<Rightarrow> environment_settings \<Rightarrow> bool" where
  "settings_ok env s \<longleftrightarrow>
     1 \<le> py_len (es_host s) \<and> 1 \<le> es_port s \<and> es_port s \<le> 65535 \<and>
     (case es_api_token s of None \<Rightarrow> True | Some t \<Rightarrow> 32 \<le> py_len t \<and> py_len t \<le> 512) \<and>
     py_starts ''/'' (es_database_credential_directory s) \<and>
     es_access_policy_file s = field_text env ''QUERY_MAN_ACCESS_POLICY_FILE'' ''access_policy_file'' \<and>
     0 \<le> es_cache_ttl_ms s \<and> es_cache_ttl_ms s \<le> 3600000 \<and>
     0 \<le> es_max_stale_ms s \<and> es_max_stale_ms s \<le> 86400000 \<and>
     100 \<le> es_retry_delay_ms s \<and> es_retry_delay_ms s \<le> 300000 \<and>
     0 \<le> es_shutdown_grace_ms s \<and> es_shutdown_grace_ms s \<le> 300000"

lemma parse_environment_Inr:
  assumes "parse_environment parse_int env = Inr s"
  shows "settings_ok env s"
proof -
  from assms obtain h p level token credentials ttl stale retry grace where
    h: "text_field env ''QUERY_MAN_HOST'' ''host'' ''127.0.0.1'' 1 = Inr h" and
    p: "int_field parse_int env ''QUERY_MAN_PORT'' ''port'' 3000 1 65535 = Inr p" and
    token: "api_token_field env = Inr token" and absolute: "py_starts ''/'' credentials" and
    ttl: "int_field parse_int env ''QUERY_MAN_METADATA_CACHE_TTL_MS'' ''cache_ttl_ms'' 30000 0 3600000 = Inr ttl" and
    stale: "int_field parse_int env ''QUERY_MAN_METADATA_MAX_STALE_MS'' ''max_stale_ms'' 300000 0 86400000 = Inr stale" and
    retry: "int_field parse_int env ''QUERY_MAN_METADATA_RETRY_DELAY_MS'' ''retry_delay_ms'' 5000 100 300000 = Inr retry" and
    grace: "int_field parse_int env ''QUERY_MAN_SHUTDOWN_GRACE_MS'' ''shutdown_grace_ms'' 10000 0 300000 = Inr grace" and
    s: "s = \<lparr>es_host = h, es_port = p, es_log_level = level, es_api_token = token,
       es_source_dir = field_text env ''QUERY_MAN_SOURCE_DIR'' ''source_dir'',
       es_budget_file = field_text env ''QUERY_MAN_BUDGET_FILE'' ''budget_file'',
       es_database_file = field_text env ''QUERY_MAN_DATABASE_FILE'' ''database_file'',
       es_database_credential_directory = credentials,
       es_access_policy_file = field_text env ''QUERY_MAN_ACCESS_POLICY_FILE'' ''access_policy_file'',
       es_cache_ttl_ms = ttl, es_max_stale_ms = stale, es_retry_delay_ms = retry,
       es_shutdown_grace_ms = grace\<rparr>"
    unfolding parse_environment_def bindE_Inr_iff raise_if_Inr_iff by blast
  show ?thesis
    using text_field_Inr [OF h] int_field_Inr [OF p] api_token_field_Inr [of env] token absolute
      int_field_Inr [OF ttl] int_field_Inr [OF stale] int_field_Inr [OF retry] int_field_Inr [OF grace]
    by (simp add: settings_ok_def s split: option.split)
qed

lemma drop_empty_token_other:
  "field_text (drop_empty_token env) ''QUERY_MAN_ACCESS_POLICY_FILE'' ''access_policy_file'' =
     field_text env ''QUERY_MAN_ACCESS_POLICY_FILE'' ''access_policy_file''"
  by (simp add: field_text_def drop_empty_token_def dict_simps AList.delete_conv' split: option.split)

text \<open>What the settings are that a configuration was made of.\<close>

lemma load_runtime_config_Inr:
  assumes "load_runtime_config py parse_int ipv6_loopback env root_directory = Inr cfg"
  shows "\<exists>s. settings_ok env s \<and> config_host cfg = es_host s \<and> api_token cfg = es_api_token s \<and>
    access_policy_file cfg = (case es_access_policy_file s of None \<Rightarrow> None | Some p \<Rightarrow> if p = [] then None else Some p) \<and>
    (es_api_token s = None \<or> es_access_policy_file s = None) \<and>
    (is_loopback py ipv6_loopback (es_host s) \<or> es_api_token s \<noteq> None \<or> es_access_policy_file s \<noteq> None) \<and>
    config_port cfg = es_port s \<and> database_credential_directory cfg = es_database_credential_directory s \<and>
    metadata_cache_ttl_ms cfg = es_cache_ttl_ms s \<and> metadata_max_stale_ms cfg = es_max_stale_ms s \<and>
    metadata_retry_delay_ms cfg = es_retry_delay_ms s \<and> shutdown_grace_ms cfg = es_shutdown_grace_ms s"
proof -
  from assms obtain s where s: "parse_environment parse_int (drop_empty_token env) = Inr s"
    by (auto simp: load_runtime_config_def Let_def err_simps split: if_splits)
  have "settings_ok env s" using parse_environment_Inr [OF s] by (simp add: settings_ok_def drop_empty_token_other)
  then show ?thesis
    using assms unfolding load_runtime_config_def s
    by (intro exI [of _ s]) (auto simp: Let_def split: if_splits)
qed

lemma loaded_without_authentication:
  assumes "load_runtime_config py parse_int ipv6_loopback env root_directory = Inr cfg"
    and "api_token cfg = None" and "access_policy_file cfg = None"
    and "field_text env ''QUERY_MAN_ACCESS_POLICY_FILE'' ''access_policy_file'' \<noteq> Some []"
  shows "is_loopback py ipv6_loopback (config_host cfg)"
  using load_runtime_config_Inr [OF assms(1)] assms(2-4)
  by (auto simp: settings_ok_def split: option.splits if_splits)

text \<open>
  The runtime configuration. A configuration that loads names no retired setting, has every
  number in its range, at most one method of authentication, and an absolute directory of
  credentials; and off the loopback interface it has a method of authentication, provided that
  the setting of the policy file is not the empty text.
\<close>
theorem loaded_config_safe:
  assumes "load_runtime_config py parse_int ipv6_loopback env root_directory = Inr cfg"
  shows "list_all (\<lambda>name. map_of env name = None) RETIRED_SOURCE_AUTHORITY_SETTINGS \<and>
    1 \<le> config_port cfg \<and> config_port cfg \<le> 65535 \<and>
    0 \<le> shutdown_grace_ms cfg \<and> shutdown_grace_ms cfg \<le> 300000 \<and>
    0 \<le> metadata_cache_ttl_ms cfg \<and> metadata_cache_ttl_ms cfg \<le> 3600000 \<and>
    0 \<le> metadata_max_stale_ms cfg \<and> metadata_max_stale_ms cfg \<le> 86400000 \<and>
    100 \<le> metadata_retry_delay_ms cfg \<and> metadata_retry_delay_ms cfg \<le> 300000 \<and>
    py_starts ''/'' (database_credential_directory cfg) \<and>
    (case api_token cfg of
       Some t \<Rightarrow> 32 \<le> py_len t \<and> py_len t \<le> 512 \<and> access_policy_file cfg = None
     | None \<Rightarrow> access_policy_file cfg = None \<and>
         field_text env ''QUERY_MAN_ACCESS_POLICY_FILE'' ''access_policy_file'' \<noteq> Some [] \<longrightarrow>
         is_loopback py ipv6_loopback (config_host cfg))"
proof -
  have "list_all (\<lambda>name. map_of env name = None) RETIRED_SOURCE_AUTHORITY_SETTINGS"
    using assms by (auto simp: load_runtime_config_def Let_def list_all_iff filter_empty_conv split: if_splits)
  moreover from load_runtime_config_Inr [OF assms] obtain s where s: "settings_ok env s" and
    token: "api_token cfg = es_api_token s" "es_api_token s = None \<or> es_access_policy_file s = None" and
    policy: "access_policy_file cfg = (case es_access_policy_file s of None \<Rightarrow> None | Some p \<Rightarrow> if p = [] then None else Some p)" and
    same: "config_port cfg = es_port s" "database_credential_directory cfg = es_database_credential_directory s"
      "metadata_cache_ttl_ms cfg = es_cache_ttl_ms s" "metadata_max_stale_ms cfg = es_max_stale_ms s"
      "metadata_retry_delay_ms cfg = es_retry_delay_ms s" "shutdown_grace_ms cfg = es_shutdown_grace_ms s"
    by blast
  moreover have "case api_token cfg of
       Some t \<Rightarrow> 32 \<le> py_len t \<and> py_len t \<le> 512 \<and> access_policy_file cfg = None
     | None \<Rightarrow> access_policy_file cfg = None \<and>
         field_text env ''QUERY_MAN_ACCESS_POLICY_FILE'' ''access_policy_file'' \<noteq> Some [] \<longrightarrow>
         is_loopback py ipv6_loopback (config_host cfg)"
    using loaded_without_authentication [OF assms] s token policy
    by (cases "es_api_token s") (simp_all add: settings_ok_def)
  ultimately show ?thesis unfolding settings_ok_def same by blast
qed

text \<open>The empty text as the policy file counts as a method of authentication and then is none.\<close>

definition empty_policy_setting :: "(string, string) dict" where
  "empty_policy_setting = [(''QUERY_MAN_HOST'', ''0.0.0.0''), (''QUERY_MAN_ACCESS_POLICY_FILE'', ''''),
     (''DB_HOST'', '' db1,db2 ''), (''DB_PASSWORD'', ''pw'')]"

lemma empty_policy_setting_loads:
  "\<exists>cfg. load_runtime_config py parse_int ipv6_loopback empty_policy_setting ''/srv'' = Inr cfg \<and>
     config_host cfg = ''0.0.0.0'' \<and> api_token cfg = None \<and> access_policy_file cfg = None \<and>
     0 \<le> shutdown_grace_ms cfg"
proof -
  let ?env = "empty_policy_setting"
  have texts: "text_field ?env ''QUERY_MAN_HOST'' ''host'' ''127.0.0.1'' 1 = Inr ''0.0.0.0''"
    "text_field ?env ''QUERY_MAN_DATABASE_CREDENTIAL_DIRECTORY'' ''database_credential_directory''
       ''/run/secrets/query-man/databases'' 1 = Inr ''/run/secrets/query-man/databases''"
    "log_level_field ?env = Inr ''info''" "api_token_field ?env = Inr None"
    "py_starts ''/'' ''/run/secrets/query-man/databases''" by code_simp+
  have "parse_environment parse_int ?env = Inr
    \<lparr>es_host = ''0.0.0.0'', es_port = 3000, es_log_level = ''info'', es_api_token = None, es_source_dir = None,
     es_budget_file = None, es_database_file = None,
     es_database_credential_directory = ''/run/secrets/query-man/databases'', es_access_policy_file = Some '''',
     es_cache_ttl_ms = 30000, es_max_stale_ms = 300000, es_retry_delay_ms = 5000, es_shutdown_grace_ms = 10000\<rparr>"
    unfolding parse_environment_def texts
    by (simp add: int_field_def field_text_def empty_policy_setting_def raise_if_def texts(5))
  moreover have "drop_empty_token ?env = ?env" "filter (\<lambda>name. map_of ?env name \<noteq> None) RETIRED_SOURCE_AUTHORITY_SETTINGS = []"
    by code_simp+
  ultimately show ?thesis by (simp add: load_runtime_config_def Let_def)
qed

section \<open>A concrete environment\<close>

definition example_environment :: "(string, string) dict" where
  "example_environment = [(''QUERY_MAN_HOST'', ''0.0.0.0''), (''QUERY_MAN_API_TOKEN'', replicate 32 (CHR ''a'')),
     (''DB_HOST'', '' db1,db2 ''), (''DB_PASSWORD'', ''pw'')]"

definition example_config :: runtime_config where
  "example_config = \<lparr>config_host = ''0.0.0.0'', config_port = 3000, log_level = ''info'',
     api_token = Some (replicate 32 (CHR ''a'')), source_directory = ''/srv/config/sources'',
     config_budget_file = ''/srv/config/budget-profiles.yaml'',
     config_database_file = ''/srv/config/database-profiles.yaml'',
     database_credential_directory = ''/run/secrets/query-man/databases'', access_policy_file = None,
     metadata_cache_ttl_ms = 30000, metadata_max_stale_ms = 300000, metadata_retry_delay_ms = 5000,
     shutdown_grace_ms = 10000\<rparr>"

lemma example_config_loads:
  "load_runtime_config plain_python (\<lambda>s. None) (\<lambda>s. False) example_environment ''/srv'' = Inr example_config"
proof -
  let ?env = "example_environment"
  have texts: "text_field ?env ''QUERY_MAN_HOST'' ''host'' ''127.0.0.1'' 1 = Inr ''0.0.0.0''"
    "text_field ?env ''QUERY_MAN_DATABASE_CREDENTIAL_DIRECTORY'' ''database_credential_directory''
       ''/run/secrets/query-man/databases'' 1 = Inr ''/run/secrets/query-man/databases''"
    "log_level_field ?env = Inr ''info''" "api_token_field ?env = Inr (Some (replicate 32 (CHR ''a'')))"
    "py_starts ''/'' ''/run/secrets/query-man/databases''" by code_simp+
  have "parse_environment (\<lambda>s. None) ?env = Inr
    \<lparr>es_host = ''0.0.0.0'', es_port = 3000, es_log_level = ''info'', es_api_token = Some (replicate 32 (CHR ''a'')),
     es_source_dir = None, es_budget_file = None, es_database_file = None,
     es_database_credential_directory = ''/run/secrets/query-man/databases'', es_access_policy_file = None,
     es_cache_ttl_ms = 30000, es_max_stale_ms = 300000, es_retry_delay_ms = 5000, es_shutdown_grace_ms = 10000\<rparr>"
    unfolding parse_environment_def texts
    by (simp add: int_field_def field_text_def example_environment_def raise_if_def texts(5))
  moreover have "drop_empty_token ?env = ?env" "filter (\<lambda>name. map_of ?env name \<noteq> None) RETIRED_SOURCE_AUTHORITY_SETTINGS = []"
    "is_loopback plain_python (\<lambda>s. False) ''0.0.0.0'' = False"
    "join_path (join_path ''/srv'' ''config'') ''sources'' = ''/srv/config/sources''"
    "join_path (join_path ''/srv'' ''config'') ''budget-profiles.yaml'' = ''/srv/config/budget-profiles.yaml''"
    "join_path (join_path ''/srv'' ''config'') ''database-profiles.yaml'' = ''/srv/config/database-profiles.yaml''"
    by code_simp+
  ultimately show ?thesis by (simp add: load_runtime_config_def Let_def example_config_def path_or_def)
qed

theorem loaded_config_safe_witness:
  "map_of example_environment ''QUERY_MAN_SOURCE_MODE'' = None \<and> config_port example_config \<le> 65535"
  using loaded_config_safe [OF example_config_loads] by (simp add: RETIRED_SOURCE_AUTHORITY_SETTINGS_def)

end
