(* ===== verification/Gateway.thy ===== *)
theory Gateway
  imports QueryService Access
begin

text \<open>
  \<open>src/query_man/delivery/gateway.py\<close>: the service behind the routes, with the audit events
  it logs. The services it calls are given by their outcome.
\<close>

section \<open>Audit events\<close>

datatype audit_value = Field pyval | Number rat

type_synonym audit_event = "string \<times> (string \<times> audit_value) list"

definition audit_extra :: "caller_context \<Rightarrow> (string \<times> audit_value) list \<Rightarrow> (string \<times> audit_value) list" where
  "audit_extra c extra = dict_update (map (\<lambda>(k, v). (k, Field (StrV v))) (caller_audit_fields c)) extra"

definition reason_code_of :: "app_error \<Rightarrow> pyval" where
  "reason_code_of e =
     (case error_details e of
        MapV d \<Rightarrow> (case map_of d ''reason_code'' of Some v \<Rightarrow> v | None \<Rightarrow> NoneV)
      | _ \<Rightarrow> NoneV)"

section \<open>The service\<close>

definition require_source :: "registry \<Rightarrow> caller_context \<Rightarrow> string \<Rightarrow> string \<Rightarrow> (exc + unit) \<times> audit_event list" where
  "require_source reg c sid operation =
     (if registry_get reg sid \<noteq> None then (Inr (), [])
      else (Inl (AppErr SourceNotFoundError),
        [(''authorization_denied'', audit_extra c [(''operation'', Field (StrV operation))])]))"

definition gateway_list_sources :: "registry \<Rightarrow> caller_context \<Rightarrow> pyval" where
  "gateway_list_sources reg c =
     MapV [(''sources'', SeqV (map (\<lambda>s. MapV [(''source_id'', StrV (summary_source_id s)),
        (''name'', StrV (summary_name s)), (''description'', StrV (summary_description s))])
        (registry_list reg)))]"

definition gateway_get_context ::
  "registry \<Rightarrow> caller_context \<Rightarrow> string \<Rightarrow> exc + (string \<times> pyval) list
     \<Rightarrow> (exc + (string \<times> pyval) list) \<times> audit_event list" where
  "gateway_get_context reg c sid context =
     (case require_source reg c sid ''get_context'' of
        (Inl e, audit) \<Rightarrow> (Inl e, audit)
      | (Inr u, audit) \<Rightarrow> (context, audit))"

definition query_end_event :: "caller_context \<Rightarrow> string \<Rightarrow> string \<Rightarrow> exc + (query_result \<times> string) \<Rightarrow> audit_event" where
  "query_end_event c query_id sid outcome =
     (let about = [(''query_id'', Field (StrV query_id)), (''source_id'', Field (StrV sid))] in
      case outcome of
        Inl CancelledError \<Rightarrow>
          (''query_interrupted'', audit_extra c (about @ [(''cancel_reason'', Field (StrV ''interrupted''))]))
      | Inl (AppErr e) \<Rightarrow>
          (''query_failed'', audit_extra c (about @ [(''error_code'', Field (StrV (error_code e))),
             (''reason_code'', Field (reason_code_of e))]))
      | Inl e \<Rightarrow>
          (''query_failed'', audit_extra c (about @ [(''error_code'', Field (StrV ''INTERNAL_ERROR''))]))
      | Inr (q, policy) \<Rightarrow>
          (''query_succeeded'', audit_extra c (about @
             [(''fingerprint'', Field (StrV (result_fingerprint q))), (''queue_ms'', Field (IntV (queue_ms q))),
              (''elapsed_ms'', Field (IntV (elapsed_ms q))), (''row_count'', Field (IntV (int (row_count q)))),
              (''result_bytes'', Field (IntV (result_bytes q))), (''truncated'', Field (BoolV (truncated q))),
              (''plan_total_cost'', Number (total_cost (plan_summary_of q))),
              (''plan_max_rows'', Field (IntV (max_rows (plan_summary_of q)))),
              (''plan_node_count'', Field (IntV (node_count (plan_summary_of q))))])))"

definition gateway_query ::
  "registry \<Rightarrow> caller_context \<Rightarrow> string \<Rightarrow> string \<Rightarrow> exc + (query_result \<times> string)
     \<Rightarrow> (exc + (query_result \<times> string)) \<times> op_event list \<times> audit_event list" where
  "gateway_query reg c sid query_id outcome =
     (case require_source reg c sid ''query'' of
        (Inl e, audit) \<Rightarrow> (Inl e, [], audit)
      | (Inr u, audit) \<Rightarrow>
          (outcome, [Increment ''query_request_started'' (Some sid) 1],
           audit @ [(''query_started'', audit_extra c [(''query_id'', Field (StrV query_id)), (''source_id'', Field (StrV sid))]),
                    query_end_event c query_id sid outcome]))"

section \<open>Every query is audited\<close>

text \<open>
  The audit trail. Every query on a known source leaves exactly two events, its start and its
  end, both with the caller, the tenant, the query id and the source; the end tells which of
  success, failure and interruption it was; and the only fields of any event are the structured
  log fields.
\<close>
theorem query_audited:
  "case gateway_query reg c sid query_id outcome of (r, counted, audit) \<Rightarrow>
     (if registry_get reg sid = None then r = Inl (AppErr SourceNotFoundError) \<and> counted = [] \<and> map fst audit = [''authorization_denied'']
      else r = outcome \<and> counted = [Increment ''query_request_started'' (Some sid) 1] \<and>
        map fst audit = [''query_started'',
          case outcome of Inr x \<Rightarrow> ''query_succeeded'' | Inl e \<Rightarrow> if e = CancelledError then ''query_interrupted'' else ''query_failed''] \<and>
        list_all (\<lambda>(n, extra). map_of extra ''query_id'' = Some (Field (StrV query_id)) \<and>
          map_of extra ''source_id'' = Some (Field (StrV sid))) audit) \<and>
     list_all (\<lambda>(n, extra). map_of extra ''caller_id'' = Some (Field (StrV (caller_id c))) \<and>
        map_of extra ''tenant_id'' = Some (Field (StrV (tenant_id c))) \<and> distinct (map fst extra) \<and>
        set (map fst extra) \<subseteq> {''query_id'', ''caller_id'', ''tenant_id'', ''source_id'', ''operation'', ''fingerprint'',
          ''error_code'', ''reason_code'', ''cancel_reason'', ''queue_ms'', ''elapsed_ms'', ''row_count'', ''result_bytes'',
          ''truncated'', ''plan_total_cost'', ''plan_max_rows'', ''plan_node_count''}) audit"
proof -
  have ends: "fst (query_end_event c query_id sid outcome) =
      (case outcome of Inr x \<Rightarrow> ''query_succeeded'' | Inl e \<Rightarrow> if e = CancelledError then ''query_interrupted'' else ''query_failed'')"
    by (cases outcome; cases "projl outcome") (auto simp: query_end_event_def Let_def)
  obtain n extra where e: "query_end_event c query_id sid outcome = (n, extra)" by fastforce
  have shape: "\<exists>more. extra = audit_extra c ([(''query_id'', Field (StrV query_id)), (''source_id'', Field (StrV sid))] @ more) \<and>
      (map fst more = [''cancel_reason''] \<or> map fst more = [''error_code'', ''reason_code''] \<or> map fst more = [''error_code''] \<or>
       map fst more = [''fingerprint'', ''queue_ms'', ''elapsed_ms'', ''row_count'', ''result_bytes'', ''truncated'',
         ''plan_total_cost'', ''plan_max_rows'', ''plan_node_count''])"
    using e by (cases outcome; cases "projl outcome") (auto simp: query_end_event_def Let_def split: prod.splits)
  show ?thesis
    using ends e shape
    by (auto simp: gateway_query_def require_source_def audit_extra_def caller_audit_fields_def dict_update_def
        split: sum.splits)
qed

end
