(* ===== verification/HttpApp.thy ===== *)
theory HttpApp
  imports Gateway
begin

text \<open>
  \<open>src/query_man/delivery/app.py\<close>: the middleware that authenticates every request, the
  routes, the error responses, and the query that ends with the connection of its caller. The
  framework decodes a request, validates its body against the model of the route and answers
  what no route matches; it is given by the request.
\<close>

section \<open>Requests and responses\<close>

datatype loc_part = LocInt int | LocStr string | LocOther

record validation_issue =
  issue_loc :: "loc_part list"
  issue_type :: "string option"

text \<open>The two request models; the framework has stripped their strings.\<close>

record metadata_request =
  mr_source_id :: string

record query_request =
  qr_source_id :: string
  qr_sql :: string
  qr_metadata_revision :: string
  qr_sql_policy_revision :: string

definition source_id_ok :: "string \<Rightarrow> bool" where
  "source_id_ok s \<longleftrightarrow> 1 \<le> py_len s \<and> py_len s \<le> 80"

definition hex_char :: "char \<Rightarrow> bool" where
  "hex_char c \<longleftrightarrow> ascii_digit c \<or> (let n = (of_char c :: nat) in 97 \<le> n \<and> n \<le> 102)"

definition revision_ok :: "string \<Rightarrow> bool" where
  "revision_ok s \<longleftrightarrow>
     (case strip_prefix ''sha256:'' s of None \<Rightarrow> False | Some h \<Rightarrow> length h = 64 \<and> list_all hex_char h)"

definition metadata_request_ok :: "metadata_request \<Rightarrow> bool" where
  "metadata_request_ok m \<longleftrightarrow> source_id_ok (mr_source_id m)"

definition query_request_ok :: "query_request \<Rightarrow> bool" where
  "query_request_ok q \<longleftrightarrow> source_id_ok (qr_source_id q) \<and> 1 \<le> py_len (qr_sql q) \<and> py_len (qr_sql q) \<le> 100000
     \<and> revision_ok (qr_metadata_revision q) \<and> revision_ok (qr_sql_policy_revision q)"

datatype response_body = JsonBody pyval | ResultBody query_result string | FrameworkBody string

record http_response =
  status :: nat
  response_headers :: "(string, string) dict"
  body :: response_body

text \<open>
  The decoded body, or why it cannot be decoded; \<open>constraint_issues\<close> is how the framework
  reports a decoded body that violates a constraint of its model.
\<close>

record http_request =
  request_method :: string
  request_path :: string
  authorizations :: "string list"
  meta_body :: "validation_issue list + metadata_request"
  query_body :: "validation_issue list + query_request"
  constraint_issues :: "validation_issue list"
  framework_response :: http_response

section \<open>Bearer tokens\<close>

fun contains_space :: "string \<Rightarrow> bool" where
  "contains_space [] = False"
| "contains_space (c # s) = (space_prefix (c # s) \<noteq> 0 \<or> contains_space s)"

definition bearer_token :: "string option \<Rightarrow> string option" where
  "bearer_token authorization =
     (case authorization of
        None \<Rightarrow> None
      | Some a \<Rightarrow>
          (case strip_prefix ''Bearer '' a of
             None \<Rightarrow> None
           | Some token \<Rightarrow> if token = [] \<or> contains_space token then None else Some token))"

section \<open>Error responses\<close>

definition error_response :: "nat \<Rightarrow> (string, string) dict \<Rightarrow> (string \<times> pyval) list \<Rightarrow> http_response" where
  "error_response code hs err = \<lparr>status = code, response_headers = hs, body = JsonBody (MapV [(''error'', MapV err)])\<rparr>"

definition unexpected_error_response :: http_response where
  "unexpected_error_response = error_response 500 []
     [(''code'', StrV ''INTERNAL_ERROR''), (''message'', StrV ''An internal error occurred.'')]"

definition safe_char :: "char \<Rightarrow> bool" where
  "safe_char c \<longleftrightarrow> ascii_letter c \<or> ascii_digit c \<or> c = CHR ''_'' \<or> c = CHR ''-''"

definition safe_part :: "loc_part \<Rightarrow> string" where
  "safe_part part =
     (case part of
        LocInt i \<Rightarrow> if 0 \<le> i \<and> i \<le> 1000000 then int_str i else ''value''
      | LocStr s \<Rightarrow> if 1 \<le> py_len s \<and> py_len s \<le> 64 \<and> list_all safe_char s then s else ''value''
      | LocOther \<Rightarrow> ''value'')"

fun join_dots :: "string list \<Rightarrow> string" where
  "join_dots [] = []"
| "join_dots [s] = s"
| "join_dots (s # ss) = s @ CHR ''.'' # join_dots ss"

definition is_ascii :: "string \<Rightarrow> bool" where
  "is_ascii s \<longleftrightarrow> list_all (\<lambda>c. (of_char c :: nat) < 128) s"

definition validation_detail :: "validation_issue \<Rightarrow> (string \<times> string) list" where
  "validation_detail i =
     (let location = filter (\<lambda>p. p \<noteq> LocStr ''body'') (issue_loc i);
          location = (if issue_type i = Some ''extra_forbidden'' \<and> location \<noteq> []
                      then location[length location - 1 := LocStr ''extra''] else location);
          path = py_take 256 (join_dots (map safe_part location)) in
      [(''path'', if path = [] then ''request'' else path),
       (''code'', case issue_type i of
          Some t \<Rightarrow> if 1 \<le> py_len t \<and> py_len t \<le> 64 \<and> is_ascii t then t else ''value_error''
        | None \<Rightarrow> ''value_error''),
       (''message'', ''Invalid request value.'')])"

definition bounded_validation_details :: "validation_issue list \<Rightarrow> (string \<times> string) list list" where
  "bounded_validation_details issues = map validation_detail (take 32 issues)"

definition validation_error_response :: "validation_issue list \<Rightarrow> http_response" where
  "validation_error_response issues = error_response 400 []
     [(''code'', StrV ''INVALID_REQUEST''), (''message'', StrV ''The request body is invalid.''),
      (''details'', SeqV (map (\<lambda>d. MapV (map (\<lambda>(k, v). (k, StrV v)) d)) (bounded_validation_details issues)))]"

definition app_error_response :: "app_error \<Rightarrow> http_response" where
  "app_error_response e = error_response (status_code e)
     (if e = OperatorRequiredError then [(''WWW-Authenticate'', ''Bearer error=\"insufficient_scope\"'')] else [])
     ([(''code'', StrV (error_code e)), (''message'', StrV (error_message e))]
      @ (if status_code e < 500 \<and> error_details e \<noteq> NoneV then [(''details'', error_details e)] else []))"

text \<open>The exception handlers; a cancelled request has no response.\<close>

definition render_exception :: "exc \<Rightarrow> http_response option" where
  "render_exception e =
     (case e of
        AppErr a \<Rightarrow> Some (app_error_response a)
      | CancelledError \<Rightarrow> None
      | _ \<Rightarrow> Some unexpected_error_response)"

section \<open>The query and its connection\<close>

text \<open>
  \<open>_until_disconnect\<close>: what is done first, the query or the wait for the disconnect; after
  the latter the query is cancelled, and how it then ended. When the wait itself is cancelled, the
  query is cancelled as well, unless it is already done.
\<close>

datatype 'a race =
    QueryDone "exc + 'a"
  | DisconnectedFirst "exc + 'a"
  | WaitCancelled "(exc + 'a) option"

definition until_disconnect :: "'a race \<Rightarrow> exc + 'a" where
  "until_disconnect r =
     (case r of
        QueryDone outcome \<Rightarrow> outcome
      | DisconnectedFirst (Inr x) \<Rightarrow> Inl (AppErr QueryTimeoutError)
      | DisconnectedFirst (Inl e) \<Rightarrow> Inl (if e = CancelledError then AppErr QueryTimeoutError else e)
      | WaitCancelled (Some (Inl e)) \<Rightarrow> Inl e
      | WaitCancelled _ \<Rightarrow> Inl CancelledError)"

section \<open>The application\<close>

text \<open>The calls a route makes, with the caller they are made for.\<close>

datatype call =
    ListSources caller_context
  | GetContext caller_context string
  | RunQuery caller_context query_request
  | ReadHealth caller_context
  | ReadMetrics caller_context

record services =
  list_sources_of :: "caller_context \<Rightarrow> pyval"
  get_context_of :: "caller_context \<Rightarrow> string \<Rightarrow> exc + (string \<times> pyval) list"
  run_query_of :: "caller_context \<Rightarrow> query_request \<Rightarrow> (query_result \<times> string) race"
  health_of :: pyval
  metrics_of :: pyval

definition status_text :: "public_status_value \<Rightarrow> string" where
  "status_text s = (case s of Status_ready \<Rightarrow> ''ready'' | Status_degraded \<Rightarrow> ''degraded''
     | Status_initializing \<Rightarrow> ''initializing'' | Status_unavailable \<Rightarrow> ''unavailable''
     | Status_shutting_down \<Rightarrow> ''shutting_down'')"

definition ok_response :: "pyval \<Rightarrow> http_response" where
  "ok_response j = \<lparr>status = 200, response_headers = [], body = JsonBody j\<rparr>"

definition health_response :: http_response where
  "health_response = ok_response (MapV [(''status'', StrV ''ok'')])"

definition readiness_response :: "public_status_value \<Rightarrow> http_response" where
  "readiness_response s =
     (ok_response (MapV [(''status'', StrV (status_text s))]))
       \<lparr>status := if s \<in> {Status_ready, Status_degraded} then 200 else 503\<rparr>"

definition require_operator :: "caller_context \<Rightarrow> exc + unit" where
  "require_operator c = raise_if (\<not> operator c) (AppErr OperatorRequiredError)"

definition respond :: "exc + http_response \<Rightarrow> http_response option" where
  "respond r = (case r of Inl e \<Rightarrow> render_exception e | Inr resp \<Rightarrow> Some resp)"

definition admin_route :: "caller_context \<Rightarrow> call \<Rightarrow> pyval \<Rightarrow> call list \<times> http_response option" where
  "admin_route c call0 j =
     (case require_operator c of
        Inl e \<Rightarrow> ([], render_exception e)
      | Inr u \<Rightarrow> ([call0], Some (ok_response j)))"

definition routes :: "services \<Rightarrow> caller_context \<Rightarrow> http_request \<Rightarrow> call list \<times> http_response option" where
  "routes sv c req =
     (let route = (request_method req, request_path req) in
      if route = (''GET'', ''/admin/health'') then admin_route c (ReadHealth c) (health_of sv)
      else if route = (''GET'', ''/admin/metrics'') then admin_route c (ReadMetrics c) (metrics_of sv)
      else if route = (''GET'', ''/sources'') then ([ListSources c], Some (ok_response (list_sources_of sv c)))
      else if route = (''POST'', ''/meta'')
      then (case meta_body req of
              Inl issues \<Rightarrow> ([], Some (validation_error_response issues))
            | Inr m \<Rightarrow>
                if \<not> metadata_request_ok m then ([], Some (validation_error_response (constraint_issues req)))
                else ([GetContext c (mr_source_id m)],
                  respond (bindE (get_context_of sv c (mr_source_id m)) (\<lambda>ctx. Inr (ok_response (MapV ctx))))))
      else if route = (''POST'', ''/query'')
      then (case query_body req of
              Inl issues \<Rightarrow> ([], Some (validation_error_response issues))
            | Inr q \<Rightarrow>
                if \<not> query_request_ok q then ([], Some (validation_error_response (constraint_issues req)))
                else ([RunQuery c q],
                  respond (bindE (until_disconnect (run_query_of sv c q)) (\<lambda>(r, policy).
                    Inr \<lparr>status = 200, response_headers = [], body = ResultBody r policy\<rparr>))))
      else ([], Some (framework_response req)))"

definition shutting_down_response :: http_response where
  "shutting_down_response = error_response 503 []
     [(''code'', StrV ''SERVICE_SHUTTING_DOWN''), (''message'', StrV ''The service is shutting down.'')]"

definition unauthorized_response :: http_response where
  "unauthorized_response = error_response 401
     [(''WWW-Authenticate'', ''Bearer error=\"invalid_token\"'')]
     [(''code'', StrV ''UNAUTHORIZED''), (''message'', StrV ''A valid bearer token is required.'')]"

definition public_paths :: "string set" where
  "public_paths = {''/health'', ''/ready''}"

definition authenticated_caller :: "(string \<Rightarrow> string) \<Rightarrow> access_policy \<Rightarrow> string list \<Rightarrow> caller_context option" where
  "authenticated_caller digest policy auths =
     (let received = (if length auths = 1 then bearer_token (Some (hd auths)) else None) in
      if length auths \<le> 1 then authenticate digest policy received else None)"

definition http_app ::
  "(string \<Rightarrow> string) \<Rightarrow> access_policy \<Rightarrow> public_status_value \<Rightarrow> services \<Rightarrow> http_request
     \<Rightarrow> call list \<times> http_response option" where
  "http_app digest policy ops_status sv req =
     (let path = request_path req in
      if ops_status = Status_shutting_down \<and> path \<notin> public_paths then ([], Some shutting_down_response)
      else if path \<notin> public_paths
      then (case authenticated_caller digest policy (authorizations req) of
              None \<Rightarrow> ([], Some unauthorized_response)
            | Some c \<Rightarrow> routes sv c req)
      else if request_method req \<noteq> ''GET'' then ([], Some (framework_response req))
      else if path = ''/health'' then ([], Some health_response)
      else ([], Some (readiness_response ops_status)))"

section \<open>Properties\<close>

fun call_caller :: "call \<Rightarrow> caller_context" where
  "call_caller (ListSources c) = c"
| "call_caller (GetContext c sid) = c"
| "call_caller (RunQuery c q) = c"
| "call_caller (ReadHealth c) = c"
| "call_caller (ReadMetrics c) = c"

fun call_allowed :: "call \<Rightarrow> bool" where
  "call_allowed (ListSources c) = True"
| "call_allowed (GetContext c sid) = source_id_ok sid"
| "call_allowed (RunQuery c q) = query_request_ok q"
| "call_allowed (ReadHealth c) = operator c"
| "call_allowed (ReadMetrics c) = operator c"

lemma routes_call:
  "call0 \<in> set (fst (routes sv c req)) \<Longrightarrow>
     fst (routes sv c req) = [call0] \<and> call_caller call0 = c \<and> call_allowed call0"
  by (auto simp: routes_def admin_route_def require_operator_def raise_if_def Let_def metadata_request_ok_def
      split: if_splits sum.splits)

text \<open>
  C7: the gate of the service. A request reaches a service only while the application is not
  shutting down, outside the two public paths, with at most one authorization header, and for
  the caller that header authenticates; the operations routes only for an operator, and a query
  or a metadata request only with a body within the declared constraints. A request makes at most
  one call.
\<close>
theorem services_gated:
  assumes "http_app digest policy ops_status sv req = (calls, answer)" and "call0 \<in> set calls"
  shows "calls = [call0] \<and> call_allowed call0 \<and> ops_status \<noteq> Status_shutting_down \<and>
    request_path req \<notin> public_paths \<and>
    (case authorizations req of
       [] \<Rightarrow> anonymous policy = Some (call_caller call0)
     | [a] \<Rightarrow> authenticate digest policy (bearer_token (Some a)) = Some (call_caller call0)
     | _ \<Rightarrow> False)"
proof -
  have open0: "ops_status \<noteq> Status_shutting_down" "request_path req \<notin> public_paths"
    using assms by (auto simp: http_app_def Let_def split: if_splits)
  with assms obtain c where c: "authenticated_caller digest policy (authorizations req) = Some c"
    and calls: "calls = fst (routes sv c req)"
    by (auto simp: http_app_def Let_def split: option.splits)
  have "case authorizations req of
       [] \<Rightarrow> anonymous policy = Some c
     | [a] \<Rightarrow> authenticate digest policy (bearer_token (Some a)) = Some c
     | _ \<Rightarrow> False"
    using c by (auto simp: authenticated_caller_def authenticate_def Let_def split: list.splits if_splits)
  moreover have made: "calls = [call0]" "call_caller call0 = c" "call_allowed call0"
    using routes_call [of call0 sv c req] assms(2) calls by simp_all
  ultimately show ?thesis unfolding made(2) using made open0 by blast
qed

text \<open>
  Server errors are opaque. Whatever exception ends a request, a response of the 500 range
  is one of three fixed responses, so nothing of the exception, its details or its cause shows;
  every other error response is that of a public error below 500 with its code, its message and
  the details it declares.
\<close>
theorem server_errors_opaque:
  "case render_exception e of
     None \<Rightarrow> e = CancelledError
   | Some r \<Rightarrow>
       r \<in> {unexpected_error_response,
            error_response 503 [] [(''code'', StrV ''QUERY_UNAVAILABLE''), (''message'', StrV ''The query could not be completed.'')],
            error_response 503 [] [(''code'', StrV ''METADATA_UNAVAILABLE''),
              (''message'', StrV ''Metadata is temporarily unavailable for the requested source.'')]}
       \<or> (\<exists>a hs more. e = AppErr a \<and> status_code a < 500 \<and>
            r = error_response (status_code a) hs
              ([(''code'', StrV (error_code a)), (''message'', StrV (error_message a))] @ more) \<and>
            more = (if error_details a = NoneV then [] else [(''details'', error_details a)]))"
proof (cases e)
  case (AppErr a)
  then show ?thesis by (cases a) (auto simp: render_exception_def app_error_response_def)
qed (auto simp: render_exception_def)

lemma set_join_dots: "set (join_dots ss) \<subseteq> insert (CHR ''.'') (\<Union> (set ` set ss))"
  by (induction ss rule: join_dots.induct) auto

lemma digit_safe: "list_all safe_char (nat_str n)"
proof (induction n rule: nat_str.induct)
  case (1 n)
  have "safe_char (char_of (48 + m))" if "m < 10" for m :: nat
    using that by (simp add: safe_char_def ascii_digit_def Let_def)
  then have "safe_char (char_of (48 + n mod 10))" "n < 10 \<Longrightarrow> safe_char (char_of (48 + n))" by simp_all
  with 1 show ?case by (subst nat_str.simps) (simp add: digit_def)
qed

lemma safe_part_chars: "list_all safe_char (safe_part part)"
proof -
  have "list_all safe_char ''value''" by code_simp
  then show ?thesis
    by (auto simp: safe_part_def int_str_def digit_safe split: loc_part.split)
qed

text \<open>
  Validation details are bounded. Whatever the framework reports about an invalid body, the
  response has at most 32 details; each has a non-empty path of at most 256 safe characters, a
  non-empty ASCII code of at most 64, and one fixed message, so no value of the body is echoed.
\<close>
theorem validation_details_bounded:
  "length (bounded_validation_details issues) \<le> 32 \<and>
   list_all (\<lambda>d. \<exists>path code. d = [(''path'', path), (''code'', code), (''message'', ''Invalid request value.'')] \<and>
     path \<noteq> [] \<and> py_len path \<le> 256 \<and> list_all (\<lambda>c. safe_char c \<or> c = CHR ''.'') path \<and>
     code \<noteq> [] \<and> py_len code \<le> 64 \<and> is_ascii code) (bounded_validation_details issues)"
proof -
  have detail: "\<exists>path code. validation_detail i = [(''path'', path), (''code'', code), (''message'', ''Invalid request value.'')] \<and>
     path \<noteq> [] \<and> py_len path \<le> 256 \<and> list_all (\<lambda>c. safe_char c \<or> c = CHR ''.'') path \<and>
     code \<noteq> [] \<and> py_len code \<le> 64 \<and> is_ascii code" for i
  proof -
    define parts where "parts = (let location = filter (\<lambda>p. p \<noteq> LocStr ''body'') (issue_loc i) in
      if issue_type i = Some ''extra_forbidden'' \<and> location \<noteq> []
      then location[length location - 1 := LocStr ''extra''] else location)"
    define path where "path = py_take 256 (join_dots (map safe_part parts))"
    define code where "code = (case issue_type i of
          Some t \<Rightarrow> if 1 \<le> py_len t \<and> py_len t \<le> 64 \<and> is_ascii t then t else ''value_error''
        | None \<Rightarrow> ''value_error'')"
    have eq: "validation_detail i = [(''path'', if path = [] then ''request'' else path), (''code'', code),
        (''message'', ''Invalid request value.'')]"
      by (simp add: validation_detail_def Let_def parts_def path_def code_def)
    have "set (join_dots (map safe_part parts)) \<subseteq> {c. safe_char c \<or> c = CHR ''.''}"
      using set_join_dots [of "map safe_part parts"] safe_part_chars by (fastforce simp: list_all_iff)
    then have chars: "list_all (\<lambda>c. safe_char c \<or> c = CHR ''.'') path" "py_len path \<le> 256"
      using py_take_bounds [of 256 "join_dots (map safe_part parts)"] by (auto simp: list_all_iff path_def)
    have request: "list_all (\<lambda>c. safe_char c \<or> c = CHR ''.'') ''request''" "py_len ''request'' \<le> 256"
      "py_len ''value_error'' \<le> 64" "is_ascii ''value_error''" by code_simp+
    have "code \<noteq> [] \<and> py_len code \<le> 64 \<and> is_ascii code"
      using request(3,4) by (auto simp: code_def py_len_def split: option.splits)
    with eq chars request(1,2) show ?thesis
      by (intro exI [of _ "if path = [] then ''request'' else path"] exI [of _ code]) auto
  qed
  then show ?thesis by (auto simp: bounded_validation_details_def list_all_iff dest: in_set_takeD)
qed

section \<open>A concrete request\<close>

definition example_services :: services where
  "example_services = \<lparr>list_sources_of = (\<lambda>c. MapV []), get_context_of = (\<lambda>c s. Inr []),
     run_query_of = (\<lambda>c q. QueryDone (Inl TimeoutError)), health_of = NoneV, metrics_of = NoneV\<rparr>"

definition example_request :: http_request where
  "example_request = \<lparr>request_method = ''GET'', request_path = ''/sources'',
     authorizations = [''Bearer '' @ replicate 32 (CHR ''a'')], meta_body = Inl [], query_body = Inl [],
     constraint_issues = [], framework_response = unexpected_error_response\<rparr>"

abbreviation example_caller :: caller_context where
  "example_caller \<equiv> \<lparr>caller_id = ''legacy-api-token'', tenant_id = ''default'', operator = False\<rparr>"

lemma example_bearer: "bearer_token (Some (''Bearer '' @ replicate 32 (CHR ''a''))) = Some (replicate 32 (CHR ''a''))"
  by code_simp

lemma example_listed:
  "http_app (\<lambda>t. t) (legacy_policy (\<lambda>t. t) (replicate 32 (CHR ''a''))) Status_ready example_services example_request =
     ([ListSources example_caller], Some (ok_response (MapV [])))"
proof -
  have "py_len (replicate 32 (CHR ''a'')) = 32" by code_simp
  then show ?thesis
    by (simp add: http_app_def public_paths_def example_request_def authenticated_caller_def example_bearer
        legacy_policy_def authenticate_def match_credentials_def routes_def example_services_def Let_def
        del: append_Cons)
qed

theorem services_gated_witness:
  "authenticate (\<lambda>t. t) (legacy_policy (\<lambda>t. t) (replicate 32 (CHR ''a'')))
     (bearer_token (Some (''Bearer '' @ replicate 32 (CHR ''a'')))) = Some example_caller"
  using services_gated [OF example_listed, of "ListSources example_caller"]
  by (simp add: example_request_def del: append_Cons)

end
