(* ===== verification/Composition.thy ===== *)
theory Composition
  imports Config HttpApp ExecutorStateSpec
begin

text \<open>
  \<open>src/query_man/runtime/composition.py\<close> and \<open>server.py\<close>: the parts of the service put
  together, the probe of the sources at startup, and the shutdown: its deadline, its trigger and
  the cleanup, none of whose steps is left out because another failed. Clock readings are given
  and exact; the source has them as floats.
\<close>

section \<open>The deadline\<close>

record shutdown_deadline =
  grace_ms :: int
  deadline_at :: "rat option"

datatype build_error =
    ShutdownGraceError
  | BuildRegistry registry_error
  | BuildAccess access_error

definition new_deadline :: "int \<Rightarrow> build_error + shutdown_deadline" where
  "new_deadline grace = (if grace < 0 then Inl ShutdownGraceError else Inr \<lparr>grace_ms = grace, deadline_at = None\<rparr>)"

definition begin_deadline :: "rat \<Rightarrow> shutdown_deadline \<Rightarrow> shutdown_deadline" where
  "begin_deadline now d =
     (if deadline_at d = None then d\<lparr>deadline_at := Some (now + of_int (grace_ms d) / 1000)\<rparr> else d)"

text \<open>The clock is read when the deadline begins, and again.\<close>

definition remaining_ms :: "rat \<Rightarrow> rat \<Rightarrow> shutdown_deadline \<Rightarrow> int \<times> shutdown_deadline" where
  "remaining_ms begun now d =
     (let d = begin_deadline begun d; remaining = \<lceil>(the (deadline_at d) - now) * 1000\<rceil> in
      (max 0 (min (grace_ms d) remaining), d))"

text \<open>What the server gives its own graceful shutdown, in seconds.\<close>

definition graceful_timeout_s :: "int \<Rightarrow> int" where
  "graceful_timeout_s grace = (grace + 999) div 1000"

section \<open>The runtime and its trigger\<close>

record runtime_state =
  rs_deadline :: shutdown_deadline
  trigger_started :: bool
  rs_operations :: operational_state
  rs_executor :: executor_state

definition shutdown_trigger :: "rat \<Rightarrow> runtime_state \<Rightarrow> runtime_state" where
  "shutdown_trigger now st =
     (if trigger_started st then st
      else st\<lparr>trigger_started := True,
          rs_deadline := begin_deadline now (rs_deadline st),
          rs_operations := set_accepting False (rs_operations st),
          rs_executor := stop_accepting (rs_executor st)\<rparr>)"

section \<open>Building the application\<close>

definition choose_policy ::
  "(string \<Rightarrow> string) \<Rightarrow> string + policy_file \<Rightarrow> (string, string) dict \<Rightarrow> runtime_config \<Rightarrow> access_error + access_policy" where
  "choose_policy digest decoded env cfg =
     (case access_policy_file cfg of
        Some path \<Rightarrow> load_policy digest decoded env path
      | None \<Rightarrow>
          (case api_token cfg of
             Some token \<Rightarrow> Inr (legacy_policy digest token)
           | None \<Rightarrow> Inr local_policy))"

text \<open>The files the application reads, as the libraries that read and decode them give them.\<close>

record deployment =
  source_listing :: "string + source_entry list"
  source_directory_parts :: "string list"
  budget_decoded :: "string + budget_file"
  database_decoded :: "string + database_file"
  policy_decoded :: "string + policy_file"

record application =
  app_registry :: registry
  app_cache :: cache_settings
  app_policy :: access_policy
  app_runtime :: runtime_state

definition map_error :: "('e \<Rightarrow> 'f) \<Rightarrow> 'e + 'a \<Rightarrow> 'f + 'a" where
  "map_error f r = (case r of Inl e \<Rightarrow> Inl (f e) | Inr x \<Rightarrow> Inr x)"

definition build_app ::
  "python \<Rightarrow> (string \<Rightarrow> int option) \<Rightarrow> (string \<Rightarrow> string) \<Rightarrow> deployment \<Rightarrow> (string, string) dict \<Rightarrow> operational_state
     \<Rightarrow> runtime_config \<Rightarrow> build_error + application" where
  "build_app py parse_int digest files env old cfg =
     (let ops = reset old in
      bindE (new_deadline (shutdown_grace_ms cfg)) (\<lambda>limit.
      bindE (map_error BuildRegistry (load_registry py parse_int (source_listing files) (source_directory_parts files)
               (budget_decoded files) (database_decoded files) (database_credential_directory cfg) env)) (\<lambda>reg.
      let ops = reconcile_sources (registry_source_ids reg) ops in
      bindE (map_error BuildAccess (choose_policy digest (policy_decoded files) env cfg)) (\<lambda>policy.
      Inr \<lparr>app_registry = reg,
        app_cache = \<lparr>cache_ttl_ms = metadata_cache_ttl_ms cfg, max_stale_ms = metadata_max_stale_ms cfg,
          refresh_retry_ms = metadata_retry_delay_ms cfg\<rparr>,
        app_policy = policy,
        app_runtime = \<lparr>rs_deadline = limit, trigger_started = False, rs_operations = ops,
          rs_executor = initial_executor\<rparr>\<rparr>))))"

section \<open>The probe at startup\<close>

definition probe_timeout_ms :: "source_profile \<Rightarrow> int" where
  "probe_timeout_ms source = max 1 (metadata_statement_timeout_ms (budget source))"

text \<open>The outcome of the metadata of a source, the timeout included.\<close>

definition probe_source :: "registry \<Rightarrow> (string \<Rightarrow> exc + unit) \<Rightarrow> string \<Rightarrow> (exc + unit) \<times> op_event list" where
  "probe_source reg fetched sid =
     (case registry_get reg sid of
        None \<Rightarrow> (Inr (), [])
      | Some source \<Rightarrow>
          (case fetched sid of
             Inr u \<Rightarrow> (Inr (), [])
           | Inl e \<Rightarrow>
               if is_exception e
               then (Inr (), [Increment ''startup_metadata_probe_failed'' (Some sid) 1, SetSourceHealth sid Unavailable])
               else (Inl e, [])))"

definition probe_registered_sources :: "registry \<Rightarrow> (string \<Rightarrow> exc + unit) \<Rightarrow> (exc + unit) \<times> op_event list" where
  "probe_registered_sources reg fetched =
     (let probes = map (probe_source reg fetched) (registry_source_ids reg) in
      (case find (\<lambda>p. isl (fst p)) probes of None \<Rightarrow> Inr () | Some p \<Rightarrow> fst p, concat (map snd probes)))"

section \<open>The lifespan\<close>

record cleanup_errors =
  first_error :: "exc option"
  failed_steps :: "string list"

type_synonym 's effect = "'s \<Rightarrow> (exc + unit) \<times> 's"

definition no_cleanup_errors :: cleanup_errors where
  "no_cleanup_errors = \<lparr>first_error = None, failed_steps = []\<rparr>"

definition attempt :: "string \<Rightarrow> 's effect \<Rightarrow> 's \<times> cleanup_errors \<Rightarrow> 's \<times> cleanup_errors" where
  "attempt step cleanup se =
     (case cleanup (fst se) of
        (Inr u, st) \<Rightarrow> (st, snd se)
      | (Inl e, st) \<Rightarrow>
          (st, \<lparr>first_error = (if first_error (snd se) = None then Some e else first_error (snd se)),
             failed_steps = failed_steps (snd se) @ [step]\<rparr>))"

definition raise_first :: "cleanup_errors \<Rightarrow> exc + unit" where
  "raise_first errs = (case first_error errs of None \<Rightarrow> Inr () | Some e \<Rightarrow> Inl e)"

text \<open>
  The calls of the lifespan: the probe, what runs while it is suspended, the drain with its
  grace, and the two close operations, over the runtime state and whatever else they touch.
\<close>

record 'w lifespan_calls =
  probe :: "(runtime_state \<times> 'w) effect"
  serve :: "(runtime_state \<times> 'w) effect"
  drain_executor :: "int \<Rightarrow> (runtime_state \<times> 'w) effect"
  close_executor :: "(runtime_state \<times> 'w) effect"
  close_catalog :: "(runtime_state \<times> 'w) effect"

definition close_resources ::
  "'w lifespan_calls \<Rightarrow> (runtime_state \<times> 'w) \<times> cleanup_errors \<Rightarrow> (runtime_state \<times> 'w) \<times> cleanup_errors" where
  "close_resources calls se =
     attempt ''catalog'' (close_catalog calls) (attempt ''query_executor'' (close_executor calls) se)"

definition trigger_step :: "rat \<Rightarrow> (runtime_state \<times> 'w) effect" where
  "trigger_step now st = (Inr (), (shutdown_trigger now (fst st), snd st))"

definition drain_step :: "'w lifespan_calls \<Rightarrow> rat \<Rightarrow> rat \<Rightarrow> (runtime_state \<times> 'w) effect" where
  "drain_step calls begun now st =
     (case remaining_ms begun now (rs_deadline (fst st)) of (ms, d) \<Rightarrow>
        drain_executor calls ms ((fst st)\<lparr>rs_deadline := d\<rparr>, snd st))"

definition lifespan ::
  "'w lifespan_calls \<Rightarrow> (rat \<times> rat \<times> rat) \<Rightarrow> runtime_state \<times> 'w \<Rightarrow> (exc + unit) \<times> (runtime_state \<times> 'w) \<times> cleanup_errors" where
  "lifespan calls clock st =
     (case probe calls st of
        (Inl e, st) \<Rightarrow> (Inl e, close_resources calls (st, no_cleanup_errors))
      | (Inr u, st) \<Rightarrow>
          (case serve calls st of
             (served, st) \<Rightarrow>
               (case close_resources calls
                       (attempt ''query_drain'' (drain_step calls (fst (snd clock)) (snd (snd clock)))
                         (attempt ''shutdown_trigger'' (trigger_step (fst clock)) (st, no_cleanup_errors))) of
                  (st, errs) \<Rightarrow>
                    (case served of Inl e \<Rightarrow> Inl e | Inr v \<Rightarrow> raise_first errs, st, errs))))"

section \<open>The runtime as a state machine\<close>

text \<open>
  The steps of the running service: those of the executor, the reports to the operational state,
  and the trigger and the deadline of the shutdown. Only \<open>build_app\<close> resets the operational
  state, and only the trigger changes the admission flag.
\<close>

datatype runtime_event =
    ExecutorEvent executor_event
  | Report op_event
  | Trigger rat
  | Remaining rat rat

fun is_report :: "op_event \<Rightarrow> bool" where
  "is_report Reset = False"
| "is_report (SetAccepting b) = False"
| "is_report e = True"

inductive runtime_step :: "registry \<Rightarrow> runtime_state \<Rightarrow> runtime_event \<Rightarrow> runtime_state \<Rightarrow> bool"
  for reg where
  executor_event: "executor_step reg (rs_executor st) e ex \<Longrightarrow>
    runtime_step reg st (ExecutorEvent e) (st\<lparr>rs_executor := ex\<rparr>)"
| report: "is_report e \<Longrightarrow> runtime_step reg st (Report e) (st\<lparr>rs_operations := operate (rs_operations st) e\<rparr>)"
| trigger: "runtime_step reg st (Trigger now) (shutdown_trigger now st)"
| remaining: "runtime_step reg st (Remaining begun now) (st\<lparr>rs_deadline := snd (remaining_ms begun now (rs_deadline st))\<rparr>)"

code_pred runtime_step .

abbreviation runtime_run :: "registry \<Rightarrow> runtime_state \<Rightarrow> runtime_event list \<Rightarrow> runtime_state \<Rightarrow> bool" where
  "runtime_run reg \<equiv> run_of (runtime_step reg)"

end
