(* ===== verification/CompositionSpec.thy ===== *)
theory CompositionSpec
  imports Composition
begin

text \<open>
  What the composition promises: the deadline of a shutdown, the order and the completeness of
  the cleanup, the tolerance of the startup probe, and the invariant of the running service that
  a started shutdown is never undone.
\<close>

section \<open>The deadline\<close>

lemma begin_deadline_grace [simp]: "grace_ms (begin_deadline now d) = grace_ms d"
  by (simp add: begin_deadline_def)

lemma begin_deadline_begun [simp]: "deadline_at d = Some t \<Longrightarrow> begin_deadline now d = d"
  by (simp add: begin_deadline_def)

lemma begin_deadline_at: "deadline_at (begin_deadline now d) \<noteq> None"
  by (simp add: begin_deadline_def)

lemma remaining_deadline [simp]: "snd (remaining_ms begun now d) = begin_deadline begun d"
  by (simp add: remaining_ms_def Let_def)

text \<open>
  The deadline of a shutdown is set once, by its first beginning. From then on, whenever it is
  asked for, what remains is the time up to it rounded up to a millisecond, never negative, never
  more than the grace, and zero from the deadline on; and the whole seconds the server gives its
  own graceful shutdown cover the grace by less than one second.
\<close>
theorem shutdown_deadline_bounded:
  assumes "new_deadline grace = Inr d" and "begun_at \<le> now"
  shows "case remaining_ms begun now (begin_deadline begun_at d) of (ms, d') \<Rightarrow>
     d' = begin_deadline begun_at d \<and> deadline_at d' = Some (begun_at + of_int grace / 1000) \<and>
     0 \<le> ms \<and> ms \<le> grace \<and> ms = max 0 \<lceil>of_int grace - (now - begun_at) * 1000\<rceil> \<and>
     (begun_at + of_int grace / 1000 \<le> now \<longrightarrow> ms = 0) \<and>
     grace \<le> 1000 * graceful_timeout_s grace \<and> 1000 * graceful_timeout_s grace < grace + 1000"
proof -
  from assms(1) have grace: "0 \<le> grace" and d: "d = \<lparr>grace_ms = grace, deadline_at = None\<rparr>"
    by (auto simp: new_deadline_def split: if_splits)
  have at: "deadline_at (begin_deadline begun_at d) = Some (begun_at + of_int grace / 1000)"
    by (simp add: begin_deadline_def d)
  have left: "(begun_at + of_int grace / 1000 - now) * 1000 = of_int grace - (now - begun_at) * 1000"
    by (simp add: algebra_simps)
  have "\<lceil>of_int grace - (now - begun_at) * 1000\<rceil> \<le> grace" using assms(2) by (simp add: ceiling_le_iff)
  then have "remaining_ms begun now (begin_deadline begun_at d) =
      (max 0 \<lceil>of_int grace - (now - begun_at) * 1000\<rceil>, begin_deadline begun_at d)"
    unfolding remaining_ms_def begin_deadline_begun [OF at] Let_def at option.sel left
    by (simp add: d)
  moreover have "\<lceil>of_int grace - (now - begun_at) * 1000\<rceil> \<le> 0" if "begun_at + of_int grace / 1000 \<le> now"
    using that by (simp add: ceiling_le_iff algebra_simps field_simps)
  ultimately show ?thesis
    using grace at \<open>\<lceil>of_int grace - (now - begun_at) * 1000\<rceil> \<le> grace\<close> by (auto simp: graceful_timeout_s_def)
qed

theorem shutdown_deadline_bounded_witness:
  "fst (remaining_ms 7 6 (begin_deadline 5 \<lparr>grace_ms = 2500, deadline_at = None\<rparr>)) = 1500"
  using shutdown_deadline_bounded [of 2500 "\<lparr>grace_ms = 2500, deadline_at = None\<rparr>" 5 6 7]
  by (simp add: new_deadline_def split: prod.splits)

section \<open>The cleanup\<close>

text \<open>The specification: every step runs, in its order, on what the steps before it left.\<close>

fun run_steps :: "(string \<times> 's effect) list \<Rightarrow> 's \<Rightarrow> (string \<times> (exc + unit)) list \<times> 's" where
  "run_steps [] st = ([], st)"
| "run_steps ((name, step) # steps) st =
     (case step st of (r, st') \<Rightarrow> (case run_steps steps st' of (rs, st'') \<Rightarrow> ((name, r) # rs, st'')))"

fun first_failure :: "(string \<times> (exc + unit)) list \<Rightarrow> exc option" where
  "first_failure [] = None"
| "first_failure ((name, Inl e) # rs) = Some e"
| "first_failure ((name, Inr u) # rs) = first_failure rs"

definition failures :: "(string \<times> (exc + unit)) list \<Rightarrow> cleanup_errors" where
  "failures rs = \<lparr>first_error = first_failure rs, failed_steps = map fst (filter (\<lambda>r. isl (snd r)) rs)\<rparr>"

definition join_errors :: "cleanup_errors \<Rightarrow> cleanup_errors \<Rightarrow> cleanup_errors" where
  "join_errors a b = \<lparr>first_error = (case first_error a of None \<Rightarrow> first_error b | Some e \<Rightarrow> Some e),
     failed_steps = failed_steps a @ failed_steps b\<rparr>"

lemma join_errors_laws [simp]:
  "join_errors no_cleanup_errors e = e" "join_errors e no_cleanup_errors = e"
  "join_errors (join_errors a b) c = join_errors a (join_errors b c)"
  by (simp_all add: join_errors_def no_cleanup_errors_def split: option.splits)

lemma failures_simps [simp]:
  "failures [] = no_cleanup_errors"
  "failures ((name, r) # rs) =
     join_errors (case r of Inl e \<Rightarrow> \<lparr>first_error = Some e, failed_steps = [name]\<rparr> | Inr u \<Rightarrow> no_cleanup_errors) (failures rs)"
  by (auto simp: failures_def no_cleanup_errors_def join_errors_def split: sum.split)

lemma attempt_step:
  "attempt name step (st, errs) =
     (snd (step st), join_errors errs (failures [(name, fst (step st))]))"
  by (cases "step st"; cases "fst (step st)")
    (auto simp: attempt_def join_errors_def no_cleanup_errors_def split: option.splits)

definition cleanup_steps :: "'w lifespan_calls \<Rightarrow> (rat \<times> rat \<times> rat) \<Rightarrow> (string \<times> (runtime_state \<times> 'w) effect) list" where
  "cleanup_steps calls clock =
     [(''shutdown_trigger'', trigger_step (fst clock)),
      (''query_drain'', drain_step calls (fst (snd clock)) (snd (snd clock))),
      (''query_executor'', close_executor calls), (''catalog'', close_catalog calls)]"

lemma attempts:
  "foldl (\<lambda>se (name, step). attempt name step se) (st, errs) steps =
     (case run_steps steps st of (rs, st') \<Rightarrow> (st', join_errors errs (failures rs)))"
proof (induction steps arbitrary: st errs)
  case (Cons x steps)
  obtain name step where x: "x = (name, step)" by fastforce
  obtain r st1 where r: "step st = (r, st1)" by fastforce
  obtain rs st2 where rest: "run_steps steps st1 = (rs, st2)" by fastforce
  from Cons [of st1] rest show ?case by (simp add: x attempt_step r)
qed simp

lemma cleanup_attempts:
  "close_resources calls (st, errs) =
     (case run_steps (drop 2 (cleanup_steps calls clock)) st of (rs, st') \<Rightarrow> (st', join_errors errs (failures rs)))"
  "close_resources calls
     (attempt ''query_drain'' (drain_step calls (fst (snd clock)) (snd (snd clock)))
       (attempt ''shutdown_trigger'' (trigger_step (fst clock)) (st, errs))) =
     (case run_steps (cleanup_steps calls clock) st of (rs, st') \<Rightarrow> (st', join_errors errs (failures rs)))"
  unfolding attempts [symmetric] by (simp_all add: close_resources_def cleanup_steps_def)

text \<open>
  C33: the cleanup is complete. Once the application served, the trigger, the drain and both
  close operations all run, in this order, whatever any of them raises, also when what ended the
  service was an exception; that exception is then raised, otherwise that of the first step that
  failed, and every failed step is reported. A service that fails at startup closes the executor
  and the catalog.
\<close>
theorem lifespan_cleans_up:
  "lifespan calls clock st =
     (case probe calls st of
        (Inl e, st1) \<Rightarrow>
          (case run_steps (drop 2 (cleanup_steps calls clock)) st1 of (rs, st2) \<Rightarrow> (Inl e, st2, failures rs))
      | (Inr u, st1) \<Rightarrow>
          (case serve calls st1 of (served, st2) \<Rightarrow>
             (case run_steps (cleanup_steps calls clock) st2 of (rs, st3) \<Rightarrow>
                (case (served, first_failure rs) of
                   (Inl e, _) \<Rightarrow> Inl e | (Inr v, Some e) \<Rightarrow> Inl e | (Inr v, None) \<Rightarrow> Inr (), st3, failures rs))))"
  unfolding lifespan_def cleanup_attempts(2) cleanup_attempts(1) [of _ _ _ clock]
  by (simp add: raise_first_def split: prod.split sum.split option.split) (auto simp: failures_def)

section \<open>The startup probe\<close>

text \<open>
  A source whose metadata cannot be loaded at startup does not stop the service: it is counted
  and reported unavailable, and only a cancellation ends the probe.
\<close>

lemma probe_tolerates:
  assumes "\<And>sid. fetched sid \<noteq> Inl CancelledError"
  shows "fst (probe_registered_sources reg fetched) = Inr ()"
    and "Increment ''startup_metadata_probe_failed'' (Some sid) n \<in> set (snd (probe_registered_sources reg fetched)) \<longleftrightarrow>
      n = 1 \<and> registry_get reg sid \<noteq> None \<and> isl (fetched sid)"
proof -
  have ok: "is_exception e" if "fetched sid = Inl e" for sid e using assms [of sid] that by (cases e) auto
  have fine: "fst (probe_source reg fetched sid) = Inr ()" for sid
    using ok by (auto simp: probe_source_def split: option.splits sum.splits)
  then show "fst (probe_registered_sources reg fetched) = Inr ()"
    by (simp add: probe_registered_sources_def Let_def comp_def find_None_iff [THEN iffD2] split: option.splits)
  have "snd (probe_source reg fetched s) = (if registry_get reg s \<noteq> None \<and> isl (fetched s)
      then [Increment ''startup_metadata_probe_failed'' (Some s) 1, SetSourceHealth s Unavailable] else [])" for s
    using ok [of s] by (auto simp: probe_source_def split: option.splits sum.splits)
  then show "Increment ''startup_metadata_probe_failed'' (Some sid) n \<in> set (snd (probe_registered_sources reg fetched)) \<longleftrightarrow>
      n = 1 \<and> registry_get reg sid \<noteq> None \<and> isl (fetched sid)"
    by (auto simp: probe_registered_sources_def Let_def registry_source_ids_def registry_get_def image_iff
        split: if_splits dest: map_of_SomeD) (force dest: map_of_SomeD)
qed

section \<open>A started shutdown\<close>

definition runtime_inv :: "runtime_state \<Rightarrow> bool" where
  "runtime_inv st \<longleftrightarrow>
     (if trigger_started st
      then \<not> admitting (rs_executor st) \<and> \<not> accepting (rs_operations st) \<and> deadline_at (rs_deadline st) \<noteq> None
      else accepting (rs_operations st))"

lemma report_keeps_accepting: "is_report e \<Longrightarrow> accepting (operate ops0 e) = accepting ops0"
  by (cases e) (auto simp: increment_by_def observe_def set_source_health_def set_source_query_health_def
      reconcile_sources_def Let_def)

lemma runtime_step_keeps: "runtime_inv st \<Longrightarrow> runtime_step reg st e st' \<Longrightarrow> runtime_inv st'"
  by (erule runtime_step.cases)
    (auto simp: runtime_inv_def shutdown_trigger_def begin_deadline_def set_accepting_def stop_accepting_def
      report_keeps_accepting dest: stopped_step split: if_splits)

text \<open>From the trigger on: nothing is admitted, the deadline stays, the application stays closed.\<close>

definition closing_from :: "runtime_state \<Rightarrow> runtime_state \<Rightarrow> bool" where
  "closing_from st0 st \<longleftrightarrow> trigger_started st \<and> runtime_inv st \<and> rs_deadline st = rs_deadline st0 \<and>
     in_flight (rs_executor st) \<subseteq> in_flight (rs_executor st0)"

lemma closing_step:
  assumes "closing_from st0 st" and "runtime_step reg st e st'"
  shows "closing_from st0 st'"
proof -
  have inv: "runtime_inv st'" using runtime_step_keeps assms by (auto simp: closing_from_def)
  have "\<not> admitting (rs_executor st)" "deadline_at (rs_deadline st) \<noteq> None"
    using assms(1) by (auto simp: closing_from_def runtime_inv_def split: if_splits)
  with assms inv show ?thesis unfolding closing_from_def
    by (elim conjE runtime_step.cases) (auto simp: shutdown_trigger_def begin_deadline_def dest: stopped_step)
qed

interpretation runtime: invariant_relation "runtime_step reg" runtime_inv for reg
  by unfold_locales (rule runtime_step_keeps)

interpretation closing: invariant_relation "runtime_step reg" "closing_from st0" for reg st0
  by unfold_locales (rule closing_step)

end
