(* ===== verification/SqlValues.thy ===== *)
theory SqlValues
  imports Database
begin

text \<open>
  The values of SQL conditions, as the policy queries the program sends use them: a condition is
  true, false or null, a query keeps a row when its condition is true, and a boolean column
  reaches the program as \<open>True\<close>, \<open>False\<close> or \<open>None\<close>. The functions of the server that a query
  calls are parameters of the query.
\<close>

section \<open>Conditions\<close>

type_synonym sql_bool = "bool option"

definition sql_not :: "sql_bool \<Rightarrow> sql_bool" where
  "sql_not = map_option Not"

fun sql_and :: "sql_bool \<Rightarrow> sql_bool \<Rightarrow> sql_bool" where
  "sql_and (Some False) b = Some False"
| "sql_and a (Some False) = Some False"
| "sql_and (Some True) (Some True) = Some True"
| "sql_and _ _ = None"

definition sql_ands :: "sql_bool list \<Rightarrow> sql_bool" where
  "sql_ands bs = foldr sql_and bs (Some True)"

definition sql_eq :: "'a option \<Rightarrow> 'a option \<Rightarrow> sql_bool" where
  "sql_eq a b = (case (a, b) of (Some x, Some y) \<Rightarrow> Some (x = y) | _ \<Rightarrow> None)"

definition coalesce :: "'a option \<Rightarrow> 'a \<Rightarrow> 'a" where
  "coalesce a b = (case a of None \<Rightarrow> b | Some x \<Rightarrow> x)"

text \<open>The aggregate \<open>bool_and\<close> leaves nulls out, and is null when nothing is left.\<close>

definition bool_and :: "sql_bool list \<Rightarrow> sql_bool" where
  "bool_and bs = (let vs = List.map_filter (\<lambda>b. b) bs in if vs = [] then None else Some (list_all (\<lambda>v. v) vs))"

definition sql_true :: "sql_bool \<Rightarrow> bool" where
  "sql_true b \<longleftrightarrow> b = Some True"

definition sql_value :: "sql_bool \<Rightarrow> pyval" where
  "sql_value b = (case b of None \<Rightarrow> NoneV | Some v \<Rightarrow> BoolV v)"

text \<open>What the server raises when a function of a query has no value for its argument.\<close>

definition sql_failure :: "string \<Rightarrow> exc + 'a" where
  "sql_failure sqlstate = Inl (DbErr OtherDatabaseError (Some sqlstate))"

text \<open>The table of schemas, which the queries on the catalog join.\<close>

record pg_namespace =
  namespace_oid :: nat
  nspname :: string

section \<open>When they are true\<close>

lemma sql_failure_simps [simp]:
  "sql_failure code \<noteq> Inr x" "Inr x \<noteq> sql_failure code" "bindE (sql_failure code) f = sql_failure code"
  by (simp_all add: sql_failure_def)

lemma sql_and_Some_True [simp]: "sql_and a b = Some True \<longleftrightarrow> a = Some True \<and> b = Some True"
  by (cases "(a, b)" rule: sql_and.cases) auto

lemma sql_and_Some_False [simp]: "sql_and a b = Some False \<longleftrightarrow> a = Some False \<or> b = Some False"
  by (cases "(a, b)" rule: sql_and.cases) auto

lemma sql_and_Some [simp]: "sql_and (Some a) (Some b) = Some (a \<and> b)"
  by (cases a; cases b) simp_all

lemma holds_ands [simp]: "sql_true (sql_ands bs) \<longleftrightarrow> list_all sql_true bs"
  by (induction bs) (simp_all add: sql_ands_def sql_true_def)

lemma holds_simps [simp]:
  "sql_true (Some b) = b" "\<not> sql_true None" "sql_true (sql_eq (Some x) (Some y)) \<longleftrightarrow> x = y"
  "sql_true (sql_not c) \<longleftrightarrow> c = Some False"
  by (auto simp: sql_true_def sql_eq_def sql_not_def split: option.splits)

lemma truthy_sql_value [simp]: "truthy (sql_value b) = sql_true b"
  by (simp add: sql_value_def sql_true_def split: option.split)

lemma sql_ands_Some [simp]: "sql_ands (map Some bs) = Some (list_all (\<lambda>b. b) bs)"
  by (induction bs) (simp_all add: sql_ands_def)

lemma bool_and_Some: "bool_and (map Some bs) = (if bs = [] then None else Some (list_all (\<lambda>b. b) bs))"
proof -
  have "List.map_filter (\<lambda>b. b) (map Some bs) = bs" by (induction bs) (simp_all add: List.map_filter_simps)
  then show ?thesis by (simp add: bool_and_def)
qed

end
