(* ===== verification/SessionPolicySql.thy ===== *)
theory SessionPolicySql
  imports SqlValues ReaderPolicy
begin

text \<open>
  The statements of \<open>src/query_man/source_catalog/reader_policy.py\<close> as SQL: the query of the
  session policy, evaluated on a session of the server, and the settings the program applies
  before it. What the functions of the server answer in a session is the record \<open>pg_session\<close>.
\<close>

section \<open>A session of the server\<close>

record pg_role =
  rolname :: string
  rolcanlogin :: bool
  rolsuper :: bool
  rolcreatedb :: bool
  rolcreaterole :: bool
  rolinherit :: bool
  rolreplication :: bool
  rolbypassrls :: bool
  rolconnlimit :: int

record ssl_session =
  ssl_pid :: int
  ssl_on :: bool
  client_dn :: "string option"

text \<open>
  \<open>current_setting name\<close> is \<open>None\<close> for a setting the session does not know. The conversions of
  text may fail; \<open>create_privilege\<close> is the privilege of the session user on a schema, an error
  when there is no such schema.
\<close>

record pg_session =
  current_database :: string
  session_user :: string
  current_setting :: "string \<Rightarrow> string option"
  current_schemas :: "string list"
  pg_roles :: "pg_role list"
  create_privilege :: "string \<Rightarrow> exc + sql_bool"
  size_bytes :: "string \<Rightarrow> exc + int"
  text_integer :: "string \<Rightarrow> exc + int"
  text_boolean :: "string \<Rightarrow> exc + bool"
  backend_pid :: int
  stat_ssl :: "ssl_session list"

section \<open>The query of the session policy\<close>

definition setting :: "pg_session \<Rightarrow> string \<Rightarrow> exc + string" where
  "setting pg name = (case current_setting pg name of None \<Rightarrow> sql_failure ''42704'' | Some v \<Rightarrow> Inr v)"

definition setting_is :: "pg_session \<Rightarrow> string \<Rightarrow> string \<Rightarrow> exc + sql_bool" where
  "setting_is pg name expected = bindE (setting pg name) (\<lambda>v. Inr (Some (v = expected)))"

definition restricted_role :: "pg_role \<Rightarrow> bool" where
  "restricted_role r \<longleftrightarrow> rolcanlogin r \<and> \<not> rolsuper r \<and> \<not> rolcreatedb r \<and> \<not> rolcreaterole r
     \<and> \<not> rolinherit r \<and> \<not> rolreplication r \<and> \<not> rolbypassrls r \<and> rolconnlimit r > 0"

text \<open>The rows of \<open>unnest\<close> are looked at until one has the privilege.\<close>

fun create_privilege_exists :: "pg_session \<Rightarrow> string list \<Rightarrow> exc + bool" where
  "create_privilege_exists pg [] = Inr False"
| "create_privilege_exists pg (s # ss) =
     bindE (create_privilege pg s) (\<lambda>b. if sql_true b then Inr True else create_privilege_exists pg ss)"

definition client_certificate_presented :: "pg_session \<Rightarrow> bool \<Rightarrow> bool" where
  "client_certificate_presented pg required =
     (if required
      then list_ex (\<lambda>s. ssl_pid s = backend_pid pg \<and> ssl_on s \<and> coalesce (client_dn s) [] \<noteq> []) (stat_ssl pg)
      else True)"

definition size_matches :: "pg_session \<Rightarrow> string \<Rightarrow> int \<Rightarrow> exc + sql_bool" where
  "size_matches pg name kb =
     bindE (setting pg name) (\<lambda>v. bindE (size_bytes pg v) (\<lambda>n. Inr (Some (n = kb * 1024))))"

definition policy_columns ::
  "pg_session \<Rightarrow> pg_role \<Rightarrow> string \<Rightarrow> string \<Rightarrow> string list \<Rightarrow> int \<Rightarrow> int \<Rightarrow> int \<Rightarrow> bool \<Rightarrow> string \<Rightarrow> bool
     \<Rightarrow> (string \<times> (exc + sql_bool)) list" where
  "policy_columns pg role db usr schemas wm temp workers jit tenant certificate =
     [(''database_matches'', Inr (Some (current_database pg = db))),
      (''user_matches'', Inr (Some (session_user pg = usr))),
      (''read_only'', setting_is pg ''transaction_read_only'' ''on''),
      (''repeatable_read'', setting_is pg ''transaction_isolation'' ''repeatable read''),
      (''utc_timezone'', setting_is pg ''TimeZone'' ''UTC''),
      (''defaults_read_only'', setting_is pg ''default_transaction_read_only'' ''on''),
      (''restricted_role'', Inr (Some (restricted_role role))),
      (''no_allowed_schema_create_privilege'',
         bindE (create_privilege_exists pg schemas) (\<lambda>b. Inr (sql_not (Some b)))),
      (''work_mem_matches'', size_matches pg ''work_mem'' wm),
      (''temp_file_limit_matches'', size_matches pg ''temp_file_limit'' temp),
      (''parallel_workers_match'',
         bindE (setting pg ''max_parallel_workers_per_gather'') (\<lambda>v.
         bindE (text_integer pg v) (\<lambda>n. Inr (Some (n = workers))))),
      (''jit_matches'',
         bindE (setting pg ''jit'') (\<lambda>v. bindE (text_boolean pg v) (\<lambda>b. Inr (Some (b = jit))))),
      (''trusted_search_path'', Inr (Some (current_schemas pg = [''pg_catalog'']))),
      (''row_security_enabled'', setting_is pg ''row_security'' ''on''),
      (''trusted_tenant_context'',
         Inr (Some (coalesce (current_setting pg ''query_man.tenant_id'') [] = tenant))),
      (''client_certificate_presented'', Inr (Some (client_certificate_presented pg certificate)))]"

text \<open>A row is evaluated from its columns; an error in one is an error of the query.\<close>

fun evaluate_row :: "(string \<times> (exc + sql_bool)) list \<Rightarrow> exc + (string \<times> pyval) list" where
  "evaluate_row [] = Inr []"
| "evaluate_row ((name, v) # cols) =
     bindE v (\<lambda>b. bindE (evaluate_row cols) (\<lambda>row. Inr ((name, sql_value b) # row)))"

definition str_list :: "pyval list \<Rightarrow> string list option" where
  "str_list vs = those (map (\<lambda>v. case v of StrV s \<Rightarrow> Some s | _ \<Rightarrow> None) vs)"

text \<open>The first row of the query for its nine parameters; a role name is unique.\<close>

definition reader_session_policy_query :: "pg_session \<Rightarrow> pyval list \<Rightarrow> exc + (string \<times> pyval) list option" where
  "reader_session_policy_query pg args =
     (case args of
        [StrV db, StrV usr, SeqV schemas, IntV wm, IntV temp, IntV workers, BoolV jit, StrV tenant, BoolV cert] \<Rightarrow>
          (case str_list schemas of
             None \<Rightarrow> sql_failure ''42804''
           | Some names \<Rightarrow>
               (case find (\<lambda>r. rolname r = session_user pg) (pg_roles pg) of
                  None \<Rightarrow> Inr None
                | Some role \<Rightarrow>
                    bindE (evaluate_row (policy_columns pg role db usr names wm temp workers jit tenant cert))
                      (\<lambda>row. Inr (Some row))))
      | _ \<Rightarrow> sql_failure ''42804'')"

section \<open>The settings\<close>

text \<open>
  The names the setting statements give to their parameters, in order:
  \<open>READER_SESSION_TIMEZONE_SETTER\<close> and \<open>READER_SESSION_BUDGET_SETTERS\<close>.
\<close>

definition timezone_setter :: "(string \<times> string) list" where
  "timezone_setter = [(''TimeZone'', ''UTC'')]"

definition budget_setters :: "string list \<Rightarrow> (string \<times> string) list" where
  "budget_setters params = zip [''work_mem'', ''temp_file_limit'', ''max_parallel_workers_per_gather'', ''jit''] params"

section \<open>What the query checks\<close>

definition reader_session_ok :: "pg_session \<Rightarrow> source_profile \<Rightarrow> string \<Rightarrow> bool" where
  "reader_session_ok pg source tenant \<longleftrightarrow>
     (let b = budget source; c = connection source; value_of = current_setting pg in
      current_database pg = database c \<and> session_user pg = user c \<and>
      value_of ''transaction_read_only'' = Some ''on'' \<and>
      value_of ''transaction_isolation'' = Some ''repeatable read'' \<and>
      value_of ''TimeZone'' = Some ''UTC'' \<and>
      value_of ''default_transaction_read_only'' = Some ''on'' \<and>
      value_of ''row_security'' = Some ''on'' \<and>
      value_of ''query_man.tenant_id'' \<in> (if tenant = [] then {None, Some []} else {Some tenant}) \<and>
      (\<exists>role. find (\<lambda>r. rolname r = user c) (pg_roles pg) = Some role \<and> restricted_role role) \<and>
      (\<forall>s \<in> set (allowed_schemas source). \<exists>p. create_privilege pg s = Inr p \<and> \<not> sql_true p) \<and>
      (\<exists>v. value_of ''work_mem'' = Some v \<and> size_bytes pg v = Inr (work_mem_kb b * 1024)) \<and>
      (\<exists>v. value_of ''temp_file_limit'' = Some v \<and> size_bytes pg v = Inr (temp_file_limit_kb b * 1024)) \<and>
      (\<exists>v. value_of ''max_parallel_workers_per_gather'' = Some v \<and>
         text_integer pg v = Inr (max_parallel_workers_per_gather b)) \<and>
      (\<exists>v. value_of ''jit'' = Some v \<and> text_boolean pg v = Inr (jit_enabled b)) \<and>
      current_schemas pg = [''pg_catalog''] \<and>
      (case authentication c of
         PasswordAuthentication pw \<Rightarrow> True
       | ClientCertificateAuthentication ca cert key \<Rightarrow>
           \<exists>s \<in> set (stat_ssl pg). ssl_pid s = backend_pid pg \<and> ssl_on s \<and> client_dn s \<notin> {None, Some []}))"

lemma setting_Inr [err_simps]: "setting pg name = Inr v \<longleftrightarrow> current_setting pg name = Some v"
  by (auto simp: setting_def split: option.splits)

lemma str_list_strings [simp]: "str_list (map StrV ss) = Some ss"
  by (induction ss) (simp_all add: str_list_def)

lemma create_privilege_none [err_simps]:
  "create_privilege_exists pg ss = Inr False \<longleftrightarrow> (\<forall>s \<in> set ss. \<exists>p. create_privilege pg s = Inr p \<and> \<not> sql_true p)"
  by (induction ss) (auto simp: err_simps split: if_splits)

lemma evaluate_row_Inr:
  "(\<exists>row. evaluate_row cols = Inr row \<and> row \<noteq> [] \<and> list_all (\<lambda>(k, v). truthy v) row) \<longleftrightarrow>
     cols \<noteq> [] \<and> list_all (\<lambda>(k, v). \<exists>b. v = Inr b \<and> sql_true b) cols"
proof -
  have all: "(\<exists>row. evaluate_row cols = Inr row \<and> list_all (\<lambda>(k, v). truthy v) row) \<longleftrightarrow>
      list_all (\<lambda>(k, v). \<exists>b. v = Inr b \<and> sql_true b) cols"
  proof (induction cols)
    case (Cons c cols)
    obtain k v where c: "c = (k, v)" by fastforce
    show ?case
    proof (cases v)
      case (Inr b)
      have "(\<exists>row. evaluate_row (c # cols) = Inr row \<and> list_all (\<lambda>(k, v). truthy v) row) \<longleftrightarrow>
          sql_true b \<and> (\<exists>row. evaluate_row cols = Inr row \<and> list_all (\<lambda>(k, v). truthy v) row)"
        by (cases "evaluate_row cols") (simp_all add: c Inr)
      with Cons show ?thesis by (simp add: c Inr)
    qed (simp add: c)
  qed simp
  have "evaluate_row cols = Inr row \<Longrightarrow> row = [] \<longleftrightarrow> cols = []" for row
    by (cases cols) (auto simp: bindE_Inr_iff)
  with all show ?thesis by blast
qed

lemma column_holds:
  "(\<exists>b. Inr (Some c) = Inr b \<and> sql_true b) \<longleftrightarrow> c"
  "(\<exists>b. setting_is pg name expected = Inr b \<and> sql_true b) \<longleftrightarrow> current_setting pg name = Some expected"
  "(\<exists>b. size_matches pg name kb = Inr b \<and> sql_true b) \<longleftrightarrow>
     (\<exists>v. current_setting pg name = Some v \<and> size_bytes pg v = Inr (kb * 1024))"
  "(\<exists>b. bindE (create_privilege_exists pg ss) (\<lambda>b. Inr (sql_not (Some b))) = Inr b \<and> sql_true b) \<longleftrightarrow>
     (\<forall>s \<in> set ss. \<exists>p. create_privilege pg s = Inr p \<and> \<not> sql_true p)"
  "(\<exists>b. bindE (setting pg name) (\<lambda>v. bindE (f v) (\<lambda>x. Inr (Some (x = y)))) = Inr b \<and> sql_true b) \<longleftrightarrow>
     (\<exists>v. current_setting pg name = Some v \<and> f v = Inr y)"
proof -
  show "(\<exists>b. Inr (Some c) = Inr b \<and> sql_true b) \<longleftrightarrow> c" by simp
  show "(\<exists>b. setting_is pg name expected = Inr b \<and> sql_true b) \<longleftrightarrow> current_setting pg name = Some expected"
    by (cases "current_setting pg name") (simp_all add: setting_is_def setting_def)
  show "(\<exists>b. bindE (create_privilege_exists pg ss) (\<lambda>b. Inr (sql_not (Some b))) = Inr b \<and> sql_true b) \<longleftrightarrow>
     (\<forall>s \<in> set ss. \<exists>p. create_privilege pg s = Inr p \<and> \<not> sql_true p)"
    unfolding create_privilege_none [symmetric]
    by (cases "create_privilege_exists pg ss") (simp_all add: sql_not_def)
  show "(\<exists>b. bindE (setting pg name) (\<lambda>v. bindE (f v) (\<lambda>x. Inr (Some (x = y)))) = Inr b \<and> sql_true b) \<longleftrightarrow>
     (\<exists>v. current_setting pg name = Some v \<and> f v = Inr y)"
    by (cases "current_setting pg name"; cases "f (the (current_setting pg name))") (simp_all add: setting_def)
  show "(\<exists>b. size_matches pg name kb = Inr b \<and> sql_true b) \<longleftrightarrow>
     (\<exists>v. current_setting pg name = Some v \<and> size_bytes pg v = Inr (kb * 1024))"
    unfolding size_matches_def
    by (cases "current_setting pg name"; cases "size_bytes pg (the (current_setting pg name))") (simp_all add: setting_def)
qed

lemma policy_columns_hold:
  assumes "session_user pg = user (connection source)"
    and "find (\<lambda>r. rolname r = session_user pg) (pg_roles pg) = Some role"
  shows "list_all (\<lambda>(k, v). \<exists>b. v = Inr b \<and> sql_true b)
      (policy_columns pg role (database (connection source)) (user (connection source)) (allowed_schemas source)
        (work_mem_kb (budget source)) (temp_file_limit_kb (budget source))
        (max_parallel_workers_per_gather (budget source)) (jit_enabled (budget source)) tenant
        (case authentication (connection source) of
           ClientCertificateAuthentication r c k \<Rightarrow> True | PasswordAuthentication p \<Rightarrow> False))
    \<longleftrightarrow> reader_session_ok pg source tenant"
proof -
  have tenant: "coalesce (current_setting pg ''query_man.tenant_id'') [] = tenant \<longleftrightarrow>
      current_setting pg ''query_man.tenant_id'' \<in> (if tenant = [] then {None, Some []} else {Some tenant})"
    by (auto simp: coalesce_def split: option.splits)
  have cert: "client_certificate_presented pg True \<longleftrightarrow>
      (\<exists>s \<in> set (stat_ssl pg). ssl_pid s = backend_pid pg \<and> ssl_on s \<and> client_dn s \<notin> {None, Some []})"
    by (auto simp: client_certificate_presented_def list_ex_iff coalesce_def split: option.splits)
  have off: "client_certificate_presented pg False" by (simp add: client_certificate_presented_def)
  show ?thesis
    unfolding policy_columns_def list.pred_inject prod.case column_holds tenant reader_session_ok_def Let_def
    using assms by (auto simp: cert off split: database_authentication.splits)
qed

end
