(* ===== verification/SessionPolicySpec.thy ===== *)
theory SessionPolicySpec
  imports SessionPolicySql QueryExecutor Catalog Revision
begin

text \<open>
  The session policy end to end: on a server that answers the policy query by evaluating it, the
  gate opens exactly in a session that satisfies the policy; and the settings which the executor
  and the catalog apply make a session of a correctly provisioned reader satisfy it.
\<close>

section \<open>The settings of a transaction\<close>

text \<open>The names that \<open>_QUERY_SESSION_SETTINGS\<close> and \<open>_CATALOG_SESSION_SETTINGS\<close> set.\<close>

definition query_session_settings :: "string list \<Rightarrow> (string \<times> string) list" where
  "query_session_settings params =
     (case params of
        [statement, transaction, locks, idle, tenant, application, wm, temp, workers, jit] \<Rightarrow>
          [(''statement_timeout'', statement), (''transaction_timeout'', transaction), (''lock_timeout'', locks),
           (''idle_in_transaction_session_timeout'', idle), (''search_path'', ''pg_catalog''),
           (''row_security'', ''on''), (''query_man.tenant_id'', tenant), (''application_name'', application)]
          @ budget_setters [wm, temp, workers, jit]
      | _ \<Rightarrow> [])"

definition catalog_session_settings :: "string list \<Rightarrow> (string \<times> string) list" where
  "catalog_session_settings params =
     (case params of
        [statement, locks, wm, temp, workers, jit] \<Rightarrow>
          [(''statement_timeout'', statement), (''lock_timeout'', locks), (''search_path'', ''pg_catalog''),
           (''row_security'', ''on''), (''query_man.tenant_id'', [])]
          @ budget_setters [wm, temp, workers, jit]
      | _ \<Rightarrow> [])"

section \<open>The gate\<close>

text \<open>What the server answers to the policy query when it evaluates it in a session.\<close>

definition answers_policy :: "database \<Rightarrow> statement list \<Rightarrow> pg_session \<Rightarrow> bool" where
  "answers_policy db tr pg \<longleftrightarrow>
     (\<forall>params. reply db tr (CHECK_SESSION_POLICY params) =
        bindE (reader_session_policy_query pg params) (\<lambda>row. Inr (PolicyRow row)))"

lemma session_gate:
  assumes "answers_policy db tr pg"
  shows "fst (require_reader_session_policy db source tenant tr) = Inr () \<longleftrightarrow> reader_session_ok pg source tenant"
proof -
  let ?params = "session_policy_arguments source tenant"
  let ?cert = "case authentication (connection source) of
      ClientCertificateAuthentication r c k \<Rightarrow> True | PasswordAuthentication p \<Rightarrow> False"
  let ?cols = "\<lambda>role. policy_columns pg role (database (connection source)) (user (connection source))
      (allowed_schemas source) (work_mem_kb (budget source)) (temp_file_limit_kb (budget source))
      (max_parallel_workers_per_gather (budget source)) (jit_enabled (budget source)) tenant ?cert"
  have reply: "reply db tr (CHECK_SESSION_POLICY ?params) =
      bindE (reader_session_policy_query pg ?params) (\<lambda>row. Inr (PolicyRow row))"
    using assms by (simp add: answers_policy_def)
  have query: "reader_session_policy_query pg ?params =
      (case find (\<lambda>r. rolname r = session_user pg) (pg_roles pg) of
         None \<Rightarrow> Inr None
       | Some role \<Rightarrow> bindE (evaluate_row (?cols role)) (\<lambda>row. Inr (Some row)))"
    by (simp add: reader_session_policy_query_def session_policy_arguments_def)
  have gate: "fst (require_reader_session_policy db source tenant tr) = Inr () \<longleftrightarrow>
      (\<exists>checks. reply db tr (CHECK_SESSION_POLICY ?params) = Inr (PolicyRow (Some checks)) \<and>
        checks \<noteq> [] \<and> list_all (\<lambda>(k, v). truthy v) checks)"
    using session_policy_Inr [of db source tenant tr "()" "tr @ [CHECK_SESSION_POLICY ?params]"]
      session_policy_trace [of db source tenant tr]
    by (metis fst_conv prod.collapse)
  show ?thesis
  proof (cases "find (\<lambda>r. rolname r = session_user pg) (pg_roles pg)")
    case None
    then show ?thesis
      unfolding gate reply query by (auto simp: reader_session_ok_def Let_def)
  next
    case (Some role)
    have "fst (require_reader_session_policy db source tenant tr) = Inr () \<longleftrightarrow>
        (\<exists>row. evaluate_row (?cols role) = Inr row \<and> row \<noteq> [] \<and> list_all (\<lambda>(k, v). truthy v) row)"
      unfolding gate reply query Some by (cases "evaluate_row (?cols role)") simp_all
    also have "\<dots> \<longleftrightarrow> list_all (\<lambda>(k, v). \<exists>b. v = Inr b \<and> sql_true b) (?cols role)"
      unfolding evaluate_row_Inr by (simp add: policy_columns_def)
    also have "\<dots> \<longleftrightarrow> reader_session_ok pg source tenant"
    proof (cases "session_user pg = user (connection source)")
      case True
      from policy_columns_hold [OF True Some] show ?thesis .
    next
      case False
      then show ?thesis by (simp add: policy_columns_def reader_session_ok_def Let_def)
    qed
    finally show ?thesis .
  qed
qed

section \<open>A provisioned reader\<close>

text \<open>
  What is outside the settings: the database and the role the connection is for, the defaults of
  the role, the transaction that \<open>BEGIN\<close> started, and the certificate of the connection.
\<close>

definition provisioned :: "pg_session \<Rightarrow> source_profile \<Rightarrow> bool" where
  "provisioned pg source \<longleftrightarrow>
     current_database pg = database (connection source) \<and> session_user pg = user (connection source) \<and>
     current_setting pg ''transaction_read_only'' = Some ''on'' \<and>
     current_setting pg ''transaction_isolation'' = Some ''repeatable read'' \<and>
     current_setting pg ''default_transaction_read_only'' = Some ''on'' \<and>
     (\<exists>role. find (\<lambda>r. rolname r = user (connection source)) (pg_roles pg) = Some role \<and> restricted_role role) \<and>
     (\<forall>s \<in> set (allowed_schemas source). create_privilege pg s = Inr (Some False)) \<and>
     (case authentication (connection source) of
        PasswordAuthentication pw \<Rightarrow> True
      | ClientCertificateAuthentication ca cert key \<Rightarrow>
          \<exists>s \<in> set (stat_ssl pg). ssl_pid s = backend_pid pg \<and> ssl_on s \<and> client_dn s \<notin> {None, Some []})"

text \<open>
  A setting that was set reads as the server displays its value; the units a budget is written in
  and the text of a number or a boolean mean what they say.
\<close>

definition applied :: "pg_session \<Rightarrow> (string \<Rightarrow> string \<Rightarrow> string) \<Rightarrow> (string \<times> string) list \<Rightarrow> bool" where
  "applied pg display settings \<longleftrightarrow> (\<forall>(n, v) \<in> set settings. current_setting pg n = Some (display n v))"

definition displays :: "pg_session \<Rightarrow> (string \<Rightarrow> string \<Rightarrow> string) \<Rightarrow> source_profile \<Rightarrow> bool" where
  "displays pg display source \<longleftrightarrow>
     display ''TimeZone'' ''UTC'' = ''UTC'' \<and> display ''row_security'' ''on'' = ''on'' \<and>
     display ''query_man.tenant_id'' [] = [] \<and>
     (current_setting pg ''search_path'' = Some (display ''search_path'' ''pg_catalog'') \<longrightarrow>
        current_schemas pg = [''pg_catalog'']) \<and>
     size_bytes pg (display ''work_mem'' (int_str (work_mem_kb (budget source)) @ ''kB'')) =
       Inr (work_mem_kb (budget source) * 1024) \<and>
     size_bytes pg (display ''temp_file_limit'' (int_str (temp_file_limit_kb (budget source)) @ ''kB'')) =
       Inr (temp_file_limit_kb (budget source) * 1024) \<and>
     text_integer pg (display ''max_parallel_workers_per_gather''
         (int_str (max_parallel_workers_per_gather (budget source)))) =
       Inr (max_parallel_workers_per_gather (budget source)) \<and>
     text_boolean pg (display ''jit'' (if jit_enabled (budget source) then ''on'' else ''off'')) =
       Inr (jit_enabled (budget source))"

lemma reader_settings_accepted:
  assumes "provisioned pg source" and "displays pg display source"
    and "applied pg display (timezone_setter @ settings)"
    and "set (budget_setters (reader_session_budget_values source)) \<subseteq> set settings"
    and "{(''search_path'', ''pg_catalog''), (''row_security'', ''on''), (''query_man.tenant_id'', [])} \<subseteq> set settings"
  shows "reader_session_ok pg source []"
proof -
  have all: "current_setting pg n = Some (display n v)" if "(n, v) \<in> set (timezone_setter @ settings)" for n v
    using assms(3) that by (auto simp: applied_def)
  have "(n, v) \<in> set (timezone_setter @ settings)"
    if "(n, v) \<in> set (budget_setters (reader_session_budget_values source))" for n v
    using assms(4) that by auto
  then have budget: "current_setting pg ''work_mem'' = Some (display ''work_mem'' (int_str (work_mem_kb (budget source)) @ ''kB''))"
    "current_setting pg ''temp_file_limit'' = Some (display ''temp_file_limit'' (int_str (temp_file_limit_kb (budget source)) @ ''kB''))"
    "current_setting pg ''max_parallel_workers_per_gather'' =
       Some (display ''max_parallel_workers_per_gather'' (int_str (max_parallel_workers_per_gather (budget source))))"
    "current_setting pg ''jit'' = Some (display ''jit'' (if jit_enabled (budget source) then ''on'' else ''off''))"
    by (intro all; simp add: budget_setters_def reader_session_budget_values_def)+
  have others: "current_setting pg ''TimeZone'' = Some (display ''TimeZone'' ''UTC'')"
    "current_setting pg ''search_path'' = Some (display ''search_path'' ''pg_catalog'')"
    "current_setting pg ''row_security'' = Some (display ''row_security'' ''on'')"
    "current_setting pg ''query_man.tenant_id'' = Some (display ''query_man.tenant_id'' [])"
    using assms(5) by (intro all; auto simp: timezone_setter_def)+
  show ?thesis
    using assms(1,2) unfolding reader_session_ok_def Let_def budget others provisioned_def displays_def
    by (auto simp: sql_true_def)
qed

section \<open>Properties\<close>

text \<open>
  C17: the session gate is exact. On a server that answers the policy query by evaluating it in
  the session, the gate opens exactly when the session is on the right database, as the right
  and a restricted role, read-only by the transaction and by default, in a repeatable read
  transaction, in UTC, with the trusted search path, row security on, the trusted tenant, the
  limits of the budget, no privilege to create in a published schema and, if required, a client
  certificate; a null or an error of the query never opens it.
\<close>
theorem session_gate_exact:
  assumes "answers_policy db tr pg"
  shows "(fst (require_reader_session_policy db source tenant tr) = Inr () \<longleftrightarrow> reader_session_ok pg source tenant) \<and>
    (\<forall>e. fst (require_reader_session_policy db source tenant tr) = Inl e \<longrightarrow>
       e = ReaderSessionPolicyError \<or> reader_session_policy_query pg (session_policy_arguments source tenant) = Inl e)"
proof -
  have "e = ReaderSessionPolicyError \<or> reader_session_policy_query pg (session_policy_arguments source tenant) = Inl e"
    if "fst (require_reader_session_policy db source tenant tr) = Inl e" for e
    using that assms
    by (auto simp: require_reader_session_policy_def query_def bindS_def answers_policy_def policy_of_def raise_if_def
        bindE_def split: sum.splits if_splits)
  with session_gate [OF assms] show ?thesis by blast
qed

text \<open>
  The settings satisfy the policy. When the reader is provisioned for its source and the
  server displays settings as documented, the settings that the executor applies and those that
  the catalog applies each make the session pass the gate, for every budget: the units and the
  texts in which limits are set are those in which they are checked.
\<close>
theorem settings_satisfy_policy:
  assumes "answers_policy db tr pg" and "provisioned pg source" and "displays pg display source"
    and "settings \<in> {query_session_settings (query_session_values source query_id),
                      catalog_session_settings (catalog_session_values source)}"
    and "applied pg display (timezone_setter @ settings)"
  shows "fst (require_reader_session_policy db source [] tr) = Inr ()"
proof -
  have "settings \<noteq> [] \<and> set (budget_setters (reader_session_budget_values source)) \<subseteq> set settings \<and>
      {(''search_path'', ''pg_catalog''), (''row_security'', ''on''), (''query_man.tenant_id'', [])} \<subseteq> set settings"
    using assms(4)
    by (auto simp: query_session_settings_def catalog_session_settings_def query_session_values_def
        catalog_session_values_def reader_session_budget_values_def)
  with reader_settings_accepted [OF assms(2,3,5)] have "reader_session_ok pg source []" by blast
  with session_gate [OF assms(1)] show ?thesis by blast
qed

section \<open>A concrete session\<close>

definition example_session_settings :: "(string \<times> string) list" where
  "example_session_settings = [(''transaction_read_only'', ''on''), (''transaction_isolation'', ''repeatable read''),
     (''default_transaction_read_only'', ''on'')]
     @ timezone_setter @ query_session_settings (query_session_values example_source ''q1'')"

definition example_role :: pg_role where
  "example_role = \<lparr>rolname = ''reader'', rolcanlogin = True, rolsuper = False, rolcreatedb = False,
     rolcreaterole = False, rolinherit = False, rolreplication = False, rolbypassrls = False, rolconnlimit = 5\<rparr>"

definition example_session :: pg_session where
  "example_session = \<lparr>current_database = ''shop'', session_user = ''reader'',
     current_setting = map_of example_session_settings, current_schemas = [''pg_catalog''], pg_roles = [example_role],
     create_privilege = (\<lambda>s. Inr (Some False)),
     size_bytes = (\<lambda>v. if v = ''8192kB'' then Inr 8388608 else if v = ''0kB'' then Inr 0 else sql_failure ''22023''),
     text_integer = (\<lambda>v. if v = ''0'' then Inr 0 else sql_failure ''22P02''),
     text_boolean = (\<lambda>v. if v = ''off'' then Inr False else sql_failure ''22P02''),
     backend_pid = 7, stat_ssl = []\<rparr>"

definition example_policy_db :: database where
  "example_policy_db = \<lparr>conn_info = Inr example_info, reply = (\<lambda>tr st. case st of
     CHECK_SESSION_POLICY params \<Rightarrow>
       bindE (reader_session_policy_query example_session params) (\<lambda>row. Inr (PolicyRow row))
   | _ \<Rightarrow> Inr Done)\<rparr>"

lemma example_answers: "answers_policy example_policy_db tr example_session"
  by (simp add: answers_policy_def example_policy_db_def)

lemma example_digits:
  "char_of (48 :: nat) = CHR ''0''" "char_of (49 :: nat) = CHR ''1''" "char_of (50 :: nat) = CHR ''2''"
  "char_of (53 :: nat) = CHR ''5''" "char_of (56 :: nat) = CHR ''8''" "char_of (57 :: nat) = CHR ''9''"
  by code_simp+

lemma example_texts:
  "int_str 8192 = ''8192''" "int_str 0 = ''0''" "int_str 5000 = ''5000''" "int_str 8000 = ''8000''" "int_str 250 = ''250''"
  by (simp_all add: int_str_def digit_def nat_str.simps example_digits)

lemma example_query_settings:
  "query_session_settings (query_session_values example_source ''q1'') =
     [(''statement_timeout'', ''5000ms''), (''transaction_timeout'', ''8000ms''), (''lock_timeout'', ''250ms''),
      (''idle_in_transaction_session_timeout'', ''8000ms''), (''search_path'', ''pg_catalog''),
      (''row_security'', ''on''), (''query_man.tenant_id'', []), (''application_name'', ''query-man:q1''),
      (''work_mem'', ''8192kB''), (''temp_file_limit'', ''0kB''),
      (''max_parallel_workers_per_gather'', ''0''), (''jit'', ''off'')]"
  by (simp add: query_session_settings_def query_session_values_def reader_session_budget_values_def budget_setters_def
      example_source_def example_budget_def Let_def example_texts)

lemma example_reads:
  "current_setting example_session = map_of ([(''transaction_read_only'', ''on''),
     (''transaction_isolation'', ''repeatable read''), (''default_transaction_read_only'', ''on'')]
     @ timezone_setter @ query_session_settings (query_session_values example_source ''q1''))"
  by (simp add: example_session_def example_session_settings_def)

theorem session_gate_exact_witness:
  "fst (require_reader_session_policy example_policy_db example_source ''other'' []) \<noteq> Inr ()"
proof -
  have "current_setting example_session ''query_man.tenant_id'' = Some []"
    unfolding example_reads example_query_settings by (simp add: timezone_setter_def)
  then have "\<not> reader_session_ok example_session example_source ''other''"
    by (simp add: reader_session_ok_def Let_def)
  then show ?thesis using session_gate_exact [OF example_answers] by blast
qed

theorem settings_satisfy_policy_witness:
  "fst (require_reader_session_policy example_policy_db example_source [] []) = Inr ()"
proof (rule settings_satisfy_policy [OF example_answers])
  show "provisioned example_session example_source"
    unfolding provisioned_def example_reads
    by (simp add: example_session_def example_source_def example_role_def restricted_role_def)
  show "query_session_settings (query_session_values example_source ''q1'') \<in>
      {query_session_settings (query_session_values example_source ''q1''),
       catalog_session_settings (catalog_session_values example_source)}" by simp
  show "applied example_session (\<lambda>n v. v)
      (timezone_setter @ query_session_settings (query_session_values example_source ''q1''))"
    unfolding applied_def example_reads example_query_settings timezone_setter_def by simp
  show "displays example_session (\<lambda>n v. v) example_source"
    unfolding displays_def
    by (simp add: example_session_def example_source_def example_budget_def example_texts)
qed

end
