(* ===== verification/ObjectPolicySql.thy ===== *)
theory ObjectPolicySql
  imports SqlValues QueryExecutor
begin

text \<open>
  The two queries of \<open>src/query_man/guarded_query/query.py\<close> that look up in the live catalog the
  functions and operators a statement uses, evaluated on the catalog's tables, and what their
  answers mean for \<open>_validate_resolved_objects\<close>.
\<close>

section \<open>Tables of the catalog\<close>

record pg_proc =
  proc_oid :: nat
  proname :: string
  pronamespace :: nat
  provolatile :: char
  prosecdef :: bool

record pg_operator =
  operator_oid :: nat
  oprname :: string
  oprnamespace :: nat
  oprcode :: nat

text \<open>The tables, and the functions of the server that the queries call, for the session user.\<close>

record pg_objects =
  namespaces :: "pg_namespace list"
  procs :: "pg_proc list"
  operators :: "pg_operator list"
  can_execute :: "nat \<Rightarrow> sql_bool"
  function_visible :: "nat \<Rightarrow> sql_bool"
  operator_visible :: "nat \<Rightarrow> sql_bool"

section \<open>The queries\<close>

text \<open>\<open>GROUP BY\<close> a name with \<open>bool_and\<close>; the order of the groups is not specified.\<close>

definition group_by_name :: "(string \<times> sql_bool) list \<Rightarrow> (string \<times> pyval) list" where
  "group_by_name joined =
     map (\<lambda>n. (n, sql_value (bool_and (map snd (filter (\<lambda>r. fst r = n) joined))))) (remdups (map fst joined))"

definition function_verdict :: "pg_objects \<Rightarrow> pg_namespace \<Rightarrow> pg_proc \<Rightarrow> sql_bool" where
  "function_verdict pg n p =
     sql_ands [Some (nspname n = ''pg_catalog''), Some (provolatile p \<noteq> CHR ''v''), Some (\<not> prosecdef p),
       can_execute pg (proc_oid p)]"

definition function_policy_query :: "pg_objects \<Rightarrow> string list \<Rightarrow> (string \<times> pyval) list" where
  "function_policy_query pg names =
     group_by_name
       [(proname p, function_verdict pg n p).
          p \<leftarrow> procs pg, n \<leftarrow> namespaces pg, namespace_oid n = pronamespace p,
          proname p \<in> set names, sql_true (function_visible pg (proc_oid p))]"

definition operator_verdict :: "pg_objects \<Rightarrow> pg_namespace \<Rightarrow> pg_namespace \<Rightarrow> pg_proc \<Rightarrow> sql_bool" where
  "operator_verdict pg operator_namespace n p =
     sql_ands [Some (nspname operator_namespace = ''pg_catalog''), Some (nspname n = ''pg_catalog''),
       Some (provolatile p \<noteq> CHR ''v''), Some (\<not> prosecdef p), can_execute pg (proc_oid p)]"

definition operator_policy_query :: "pg_objects \<Rightarrow> string list \<Rightarrow> (string \<times> pyval) list" where
  "operator_policy_query pg names =
     group_by_name
       [(oprname r, operator_verdict pg m n p).
          r \<leftarrow> operators pg, m \<leftarrow> namespaces pg, namespace_oid m = oprnamespace r,
          p \<leftarrow> procs pg, proc_oid p = oprcode r, n \<leftarrow> namespaces pg, namespace_oid n = pronamespace p,
          oprname r \<in> set names, sql_true (operator_visible pg (operator_oid r))]"

section \<open>What a safe name is\<close>

text \<open>
  The catalog is consistent: namespaces and functions have distinct oids, every function has
  its namespace, every operator its namespace and function, and the privilege on a function of
  the catalog is known.
\<close>

definition consistent :: "pg_objects \<Rightarrow> bool" where
  "consistent pg \<longleftrightarrow>
     distinct (map namespace_oid (namespaces pg)) \<and> distinct (map proc_oid (procs pg)) \<and>
     (\<forall>p \<in> set (procs pg). pronamespace p \<in> namespace_oid ` set (namespaces pg) \<and> can_execute pg (proc_oid p) \<noteq> None) \<and>
     (\<forall>r \<in> set (operators pg). oprnamespace r \<in> namespace_oid ` set (namespaces pg) \<and> oprcode r \<in> proc_oid ` set (procs pg))"

definition in_pg_catalog :: "pg_objects \<Rightarrow> nat \<Rightarrow> bool" where
  "in_pg_catalog pg oid \<longleftrightarrow> (\<forall>n \<in> set (namespaces pg). namespace_oid n = oid \<longrightarrow> nspname n = ''pg_catalog'')"

definition safe_routine :: "pg_objects \<Rightarrow> pg_proc \<Rightarrow> bool" where
  "safe_routine pg p \<longleftrightarrow> in_pg_catalog pg (pronamespace p) \<and> provolatile p \<noteq> CHR ''v'' \<and> \<not> prosecdef p \<and>
     sql_true (can_execute pg (proc_oid p))"

text \<open>Every visible overload of the name is safe, and there is one.\<close>

definition safe_function :: "pg_objects \<Rightarrow> string \<Rightarrow> bool" where
  "safe_function pg name \<longleftrightarrow>
     (let overloads = filter (\<lambda>p. proname p = name \<and> sql_true (function_visible pg (proc_oid p))) (procs pg) in
      overloads \<noteq> [] \<and> (\<forall>p \<in> set overloads. safe_routine pg p))"

definition safe_operator :: "pg_objects \<Rightarrow> string \<Rightarrow> bool" where
  "safe_operator pg name \<longleftrightarrow>
     (let overloads = filter (\<lambda>r. oprname r = name \<and> sql_true (operator_visible pg (operator_oid r))) (operators pg) in
      overloads \<noteq> [] \<and>
      (\<forall>r \<in> set overloads. in_pg_catalog pg (oprnamespace r) \<and>
         (\<forall>p \<in> set (procs pg). proc_oid p = oprcode r \<longrightarrow> safe_routine pg p)))"

section \<open>The answers\<close>

lemma bool_and_True: "(\<forall>b \<in> set bs. b \<noteq> None) \<Longrightarrow> sql_true (bool_and bs) \<longleftrightarrow> bs \<noteq> [] \<and> (\<forall>b \<in> set bs. sql_true b)"
proof -
  assume known: "\<forall>b \<in> set bs. b \<noteq> None"
  then have "bs = map Some (map the bs)" by (induction bs) auto
  then obtain vs where "bs = map Some vs" by blast
  then show ?thesis unfolding sql_true_def by (auto simp: bool_and_Some list_all_iff)
qed

lemma safe_groups:
  assumes "\<forall>r \<in> set joined. snd r \<noteq> None"
  shows "safe_objects (group_by_name joined) =
    {n. (\<exists>v. (n, v) \<in> set joined) \<and> (\<forall>v. (n, v) \<in> set joined \<longrightarrow> sql_true v)}"
proof -
  have verdict: "sql_true (bool_and (map snd (filter (\<lambda>r. fst r = n) joined))) \<longleftrightarrow>
      (\<exists>v. (n, v) \<in> set joined) \<and> (\<forall>v. (n, v) \<in> set joined \<longrightarrow> sql_true v)" for n
  proof -
    let ?group = "map snd (filter (\<lambda>r. fst r = n) joined)"
    have member: "v \<in> set ?group \<longleftrightarrow> (n, v) \<in> set joined" for v by force
    with assms have "\<forall>b \<in> set ?group. b \<noteq> None" by fastforce
    note bool_and_True [OF this]
    moreover have "?group \<noteq> [] \<longleftrightarrow> (\<exists>v. v \<in> set ?group)" by (metis list.set_intros(1) neq_Nil_conv set_empty empty_iff)
    ultimately show ?thesis unfolding member by (metis member)
  qed
  show ?thesis
    by (auto simp: safe_objects_def group_by_name_def verdict [symmetric] image_iff) (force simp: verdict)
qed

lemma verdicts_known:
  "can_execute pg (proc_oid p) = Some b \<Longrightarrow> \<exists>v. function_verdict pg n p = Some v"
  "can_execute pg (proc_oid p) = Some b \<Longrightarrow> \<exists>v. operator_verdict pg m n p = Some v"
  by (auto simp: function_verdict_def operator_verdict_def sql_ands_def)

lemma namespace_unique:
  assumes "consistent pg" and "n \<in> set (namespaces pg)"
  shows "in_pg_catalog pg (namespace_oid n) \<longleftrightarrow> nspname n = ''pg_catalog''"
  using assms by (auto simp: consistent_def in_pg_catalog_def distinct_map inj_on_def)

lemma holds_verdicts [simp]:
  "sql_true (function_verdict pg n p) \<longleftrightarrow> nspname n = ''pg_catalog'' \<and> provolatile p \<noteq> CHR ''v'' \<and> \<not> prosecdef p \<and>
     sql_true (can_execute pg (proc_oid p))"
  "sql_true (operator_verdict pg m n p) \<longleftrightarrow> nspname m = ''pg_catalog'' \<and> sql_true (function_verdict pg n p)"
  by (simp_all add: function_verdict_def operator_verdict_def)

lemma function_query_safe:
  assumes "consistent pg"
  shows "safe_objects (function_policy_query pg names) = {n \<in> set names. safe_function pg n}"
proof -
  let ?joined = "[(proname p, function_verdict pg n p). p \<leftarrow> procs pg, n \<leftarrow> namespaces pg,
      namespace_oid n = pronamespace p, proname p \<in> set names, sql_true (function_visible pg (proc_oid p))]"
  have rows: "(f, v) \<in> set ?joined \<longleftrightarrow> f \<in> set names \<and> (\<exists>p \<in> set (procs pg). \<exists>n \<in> set (namespaces pg).
      namespace_oid n = pronamespace p \<and> proname p = f \<and> sql_true (function_visible pg (proc_oid p)) \<and>
      v = function_verdict pg n p)" for f v by auto
  have namespace: "\<exists>n \<in> set (namespaces pg). namespace_oid n = pronamespace p" if "p \<in> set (procs pg)" for p
    using assms that unfolding consistent_def by fastforce
  have verdict: "sql_true (function_verdict pg n p) \<longleftrightarrow> safe_routine pg p"
    if "p \<in> set (procs pg)" "n \<in> set (namespaces pg)" "namespace_oid n = pronamespace p" for p n
    using namespace_unique [OF assms that(2)] that by (auto simp: safe_routine_def)
  have "\<forall>r \<in> set ?joined. snd r \<noteq> None"
    using assms by (auto simp: consistent_def intro: verdicts_known)
  note groups = safe_groups [OF this]
  have "((\<exists>v. (f, v) \<in> set ?joined) \<and> (\<forall>v. (f, v) \<in> set ?joined \<longrightarrow> sql_true v)) \<longleftrightarrow> f \<in> set names \<and> safe_function pg f" for f
  proof -
    have "(\<exists>v. (f, v) \<in> set ?joined) \<longleftrightarrow> f \<in> set names \<and>
        (\<exists>p \<in> set (procs pg). proname p = f \<and> sql_true (function_visible pg (proc_oid p)))"
      unfolding rows using namespace by blast
    moreover have "(\<forall>v. (f, v) \<in> set ?joined \<longrightarrow> sql_true v) \<longleftrightarrow> (f \<in> set names \<longrightarrow>
        (\<forall>p \<in> set (procs pg). proname p = f \<and> sql_true (function_visible pg (proc_oid p)) \<longrightarrow> safe_routine pg p))"
      unfolding rows using verdict namespace by blast
    ultimately show ?thesis unfolding safe_function_def Let_def filter_empty_conv set_filter by blast
  qed
  with groups show ?thesis unfolding function_policy_query_def by simp
qed

lemma operator_query_safe:
  assumes "consistent pg"
  shows "safe_objects (operator_policy_query pg names) = {n \<in> set names. safe_operator pg n}"
proof -
  let ?joined = "[(oprname r, operator_verdict pg m n p). r \<leftarrow> operators pg, m \<leftarrow> namespaces pg,
      namespace_oid m = oprnamespace r, p \<leftarrow> procs pg, proc_oid p = oprcode r, n \<leftarrow> namespaces pg,
      namespace_oid n = pronamespace p, oprname r \<in> set names, sql_true (operator_visible pg (operator_oid r))]"
  have rows: "(f, v) \<in> set ?joined \<longleftrightarrow> f \<in> set names \<and> (\<exists>r \<in> set (operators pg). \<exists>m \<in> set (namespaces pg).
      \<exists>p \<in> set (procs pg). \<exists>n \<in> set (namespaces pg).
      namespace_oid m = oprnamespace r \<and> proc_oid p = oprcode r \<and> namespace_oid n = pronamespace p \<and>
      oprname r = f \<and> sql_true (operator_visible pg (operator_oid r)) \<and> v = operator_verdict pg m n p)" for f v by auto
  have namespace: "\<exists>n \<in> set (namespaces pg). namespace_oid n = pronamespace p" if "p \<in> set (procs pg)" for p
    using assms that unfolding consistent_def by fastforce
  have parts: "(\<exists>m \<in> set (namespaces pg). namespace_oid m = oprnamespace r) \<and>
      (\<exists>p \<in> set (procs pg). proc_oid p = oprcode r)" if "r \<in> set (operators pg)" for r
    using assms that unfolding consistent_def by fastforce
  have verdict: "sql_true (operator_verdict pg m n p) \<longleftrightarrow> in_pg_catalog pg (oprnamespace r) \<and> safe_routine pg p"
    if "m \<in> set (namespaces pg)" "n \<in> set (namespaces pg)"
      "namespace_oid m = oprnamespace r" "namespace_oid n = pronamespace p" for r p m n
    using namespace_unique [OF assms that(1)] namespace_unique [OF assms that(2)] that by (auto simp: safe_routine_def)
  have "\<forall>r \<in> set ?joined. snd r \<noteq> None"
    using assms by (auto simp: consistent_def intro: verdicts_known)
  note groups = safe_groups [OF this]
  have "((\<exists>v. (f, v) \<in> set ?joined) \<and> (\<forall>v. (f, v) \<in> set ?joined \<longrightarrow> sql_true v)) \<longleftrightarrow> f \<in> set names \<and> safe_operator pg f" for f
  proof -
    have "(\<exists>v. (f, v) \<in> set ?joined) \<longleftrightarrow> f \<in> set names \<and>
        (\<exists>r \<in> set (operators pg). oprname r = f \<and> sql_true (operator_visible pg (operator_oid r)))"
      unfolding rows using parts namespace by blast
    moreover have "(\<forall>v. (f, v) \<in> set ?joined \<longrightarrow> sql_true v) \<longleftrightarrow> (f \<in> set names \<longrightarrow>
        (\<forall>r \<in> set (operators pg). oprname r = f \<and> sql_true (operator_visible pg (operator_oid r)) \<longrightarrow>
          (\<forall>p \<in> set (procs pg). proc_oid p = oprcode r \<longrightarrow> in_pg_catalog pg (oprnamespace r) \<and> safe_routine pg p)))"
      unfolding rows using verdict parts namespace by blast
    ultimately show ?thesis unfolding safe_operator_def Let_def filter_empty_conv set_filter using parts by blast
  qed
  with groups show ?thesis unfolding operator_policy_query_def by simp
qed

section \<open>The check\<close>

definition answers_objects :: "database \<Rightarrow> pg_objects \<Rightarrow> bool" where
  "answers_objects db pg \<longleftrightarrow>
     (\<forall>tr names. reply db tr (FUNCTION_POLICY names) = Inr (ObjectRows (function_policy_query pg names)) \<and>
        reply db tr (OPERATOR_POLICY names) = Inr (ObjectRows (operator_policy_query pg names)))"

text \<open>
  C16: resolved objects are safe. On a server that answers the two queries from a consistent
  catalog, the check passes exactly when every function and operator of the statement has a
  visible overload and all its visible overloads are in \<open>pg_catalog\<close>, not volatile, not security
  definers and executable; so whichever overload the server resolves a call to, it is safe.
\<close>
theorem resolved_objects_safe:
  assumes "answers_objects db pg" and "consistent pg"
  shows "fst (validate_resolved_objects db validated tr) = Inr () \<longleftrightarrow>
    (\<forall>f \<in> set (validated_functions validated). safe_function pg (removeprefix ''pg_catalog.'' f)) \<and>
    (\<forall>f \<in> set (validated_operators validated). safe_operator pg f)"
proof -
  have queries: "query db (FUNCTION_POLICY fs) objects_of t =
      (Inr (function_policy_query pg fs), t @ [FUNCTION_POLICY fs])"
    "query db (OPERATOR_POLICY fs) objects_of t = (Inr (operator_policy_query pg fs), t @ [OPERATOR_POLICY fs])" for fs t
    using assms(1) by (simp_all add: answers_objects_def query_def bindS_def objects_of_def)
  have sets: "safe_objects (function_policy_query pg fs) = set fs \<longleftrightarrow> (\<forall>f \<in> set fs. safe_function pg f)"
    "safe_objects (operator_policy_query pg fs) = set fs \<longleftrightarrow> (\<forall>f \<in> set fs. safe_operator pg f)" for fs
    unfolding function_query_safe [OF assms(2)] operator_query_safe [OF assms(2)] by blast+
  note empty = sets [of "[]", simplified]
  let ?functions = "sort (remdups (map (removeprefix ''pg_catalog.'') (validated_functions validated)))"
  let ?operators = "sort (remdups (validated_operators validated))"
  have "fst (validate_resolved_objects db validated tr) = Inr () \<longleftrightarrow>
      safe_objects (function_policy_query pg ?functions) = set ?functions \<and>
      safe_objects (operator_policy_query pg ?operators) = set ?operators"
    unfolding validate_resolved_objects_def Let_def
    by (cases "?functions = []"; cases "?operators = []")
      (simp_all del: set_sort set_remdups sorted_list_of_set_sort_remdups
        add: queries empty bindS_def raise_if_def query_rejected_def)
  then show ?thesis unfolding sets by simp
qed

section \<open>A concrete catalog\<close>

text \<open>\<open>lower\<close> is safe; \<open>setval\<close> is volatile; \<open>+\<close> is safe.\<close>

definition example_objects :: pg_objects where
  "example_objects =
     \<lparr>namespaces = [\<lparr>namespace_oid = 11, nspname = ''pg_catalog''\<rparr>],
      procs = [\<lparr>proc_oid = 1, proname = ''lower'', pronamespace = 11, provolatile = CHR ''i'', prosecdef = False\<rparr>,
        \<lparr>proc_oid = 2, proname = ''setval'', pronamespace = 11, provolatile = CHR ''v'', prosecdef = False\<rparr>,
        \<lparr>proc_oid = 3, proname = ''int4pl'', pronamespace = 11, provolatile = CHR ''i'', prosecdef = False\<rparr>],
      operators = [\<lparr>operator_oid = 9, oprname = ''+'', oprnamespace = 11, oprcode = 3\<rparr>],
      can_execute = (\<lambda>_. Some True), function_visible = (\<lambda>_. Some True), operator_visible = (\<lambda>_. Some True)\<rparr>"

fun example_objects_reply :: "statement list \<Rightarrow> statement \<Rightarrow> exc + answer" where
  "example_objects_reply tr (FUNCTION_POLICY names) = Inr (ObjectRows (function_policy_query example_objects names))"
| "example_objects_reply tr (OPERATOR_POLICY names) = Inr (ObjectRows (operator_policy_query example_objects names))"
| "example_objects_reply tr st = Inr Done"

definition example_objects_db :: database where
  "example_objects_db = \<lparr>conn_info = Inr example_info, reply = example_objects_reply\<rparr>"

theorem resolved_objects_safe_witness:
  "fst (validate_resolved_objects example_objects_db
     \<lparr>fingerprint = ''a'', validated_relations = [], validated_functions = [''pg_catalog.lower''], validated_operators = [''+'']\<rparr> []) = Inr () \<and>
   fst (validate_resolved_objects example_objects_db
     \<lparr>fingerprint = ''a'', validated_relations = [], validated_functions = [''setval''], validated_operators = []\<rparr> []) \<noteq> Inr ()"
proof -
  have answers: "answers_objects example_objects_db example_objects"
    by (simp add: answers_objects_def example_objects_db_def)
  have consistent: "consistent example_objects" by (simp add: consistent_def example_objects_def)
  have safe: "safe_function example_objects ''lower''" "\<not> safe_function example_objects ''setval''"
      "safe_operator example_objects ''+''"
    by (simp_all add: safe_function_def safe_operator_def safe_routine_def in_pg_catalog_def example_objects_def)
  have names: "removeprefix ''pg_catalog.'' ''pg_catalog.lower'' = ''lower''"
      "removeprefix ''pg_catalog.'' ''setval'' = ''setval''" by code_simp+
  show ?thesis
    unfolding resolved_objects_safe [OF answers consistent] by (simp add: safe names)
qed

end
