(* ===== verification/CatalogSql.thy ===== *)
theory CatalogSql
  imports SqlValues CatalogSpec
begin

text \<open>
  The catalog query of \<open>src/query_man/metadata/catalog.py\<close>, evaluated on the tables of the
  PostgreSQL catalog, and what a load reads from a server that answers it this way: the readable
  views of the allowed schemas, with their readable columns in order, and nothing else.
\<close>

section \<open>Tables of the catalog\<close>

record pg_class =
  class_oid :: nat
  relname :: string
  relnamespace :: nat
  relkind :: string
  reloptions :: "string list option"

record pg_attribute =
  attrelid :: nat
  attnum :: int
  attname :: string
  atttypid :: nat
  atttypmod :: int
  attisdropped :: bool

record pg_type =
  type_oid :: nat
  typtype :: string

text \<open>
  The tables, the functions of the server that the query calls for the current user, and the
  collation of text as the sort key it gives a string.
\<close>

record pg_catalog =
  schema_table :: "pg_namespace list"
  class_table :: "pg_class list"
  attribute_table :: "pg_attribute list"
  type_table :: "pg_type list"
  obj_description :: "nat \<Rightarrow> string option"
  col_description :: "nat \<Rightarrow> int \<Rightarrow> string option"
  viewdef_md5 :: "nat \<Rightarrow> string option"
  format_type :: "nat \<Rightarrow> int \<Rightarrow> string"
  has_schema_privilege :: "nat \<Rightarrow> sql_bool"
  has_table_privilege :: "nat \<Rightarrow> sql_bool"
  has_column_privilege :: "nat \<Rightarrow> int \<Rightarrow> sql_bool"
  collation_key :: "string \<Rightarrow> string"

section \<open>The query\<close>

definition has_option :: "pg_class \<Rightarrow> string \<Rightarrow> bool" where
  "has_option c opt = coalesce (map_option (\<lambda>opts. opt \<in> set opts) (reloptions c)) False"

definition eligible :: "pg_catalog \<Rightarrow> string list \<Rightarrow> string list \<Rightarrow> pg_class \<Rightarrow> pg_namespace \<Rightarrow> bool" where
  "eligible pg schemas kinds c n \<longleftrightarrow>
     namespace_oid n = relnamespace c \<and> nspname n \<in> set schemas \<and> relkind c \<in> set kinds \<and>
     sql_true (has_schema_privilege pg (namespace_oid n)) \<and> sql_true (has_table_privilege pg (class_oid c))"

definition eligible_relations ::
  "pg_catalog \<Rightarrow> string list \<Rightarrow> string list \<Rightarrow> (pg_class \<times> pg_namespace) list" where
  "eligible_relations pg schemas kinds =
     [(c, n). c \<leftarrow> class_table pg, n \<leftarrow> schema_table pg, eligible pg schemas kinds c n]"

definition readable_column :: "pg_catalog \<Rightarrow> pg_class \<Rightarrow> pg_attribute \<Rightarrow> bool" where
  "readable_column pg c a \<longleftrightarrow>
     attrelid a = class_oid c \<and> attnum a > 0 \<and> \<not> attisdropped a \<and>
     sql_true (has_column_privilege pg (class_oid c) (attnum a))"

definition selected_row ::
  "pg_catalog \<Rightarrow> pg_class \<times> pg_namespace \<Rightarrow> pg_attribute \<Rightarrow> pg_type \<Rightarrow> catalog_row" where
  "selected_row pg relation a ty = (case relation of (c, n) \<Rightarrow>
     \<lparr>row_schema = nspname n, row_relation = relname c, row_kind = relkind c,
      row_relation_comment = map_option (py_take 2000) (obj_description pg (class_oid c)),
      row_definition_hash = (if relkind c \<in> {''v'', ''m''} then viewdef_md5 pg (class_oid c) else None),
      row_security_invoker = has_option c ''security_invoker=true'',
      row_security_barrier = has_option c ''security_barrier=true'',
      row_ordinal = attnum a, row_column = attname a, row_data_type = format_type pg (atttypid a) (atttypmod a),
      row_type_kind = typtype ty,
      row_column_comment = map_option (py_take 2000) (col_description pg (class_oid c) (attnum a))\<rparr>)"

definition relation_rows :: "pg_catalog \<Rightarrow> pg_class \<times> pg_namespace \<Rightarrow> catalog_row list" where
  "relation_rows pg relation =
     [selected_row pg relation a ty. a \<leftarrow> attribute_table pg, readable_column pg (fst relation) a,
        ty \<leftarrow> type_table pg, type_oid ty = atttypid a]"

text \<open>The keys of \<open>ORDER BY\<close>, sorted from the last to the first by stable sorts.\<close>

definition order_rows :: "pg_catalog \<Rightarrow> catalog_row list \<Rightarrow> catalog_row list" where
  "order_rows pg rows =
     sort_key (\<lambda>r. collation_key pg (row_schema r))
       (sort_key (\<lambda>r. collation_key pg (row_relation r)) (sort_key row_ordinal rows))"

definition catalog_query :: "pg_catalog \<Rightarrow> string list \<Rightarrow> string list \<Rightarrow> int \<Rightarrow> catalog_row list" where
  "catalog_query pg schemas kinds limit =
     take (nat limit)
       (order_rows pg (concat (map (relation_rows pg) (eligible_relations pg schemas kinds))))"

section \<open>A consistent catalog\<close>

text \<open>
  Namespaces, relations and types have distinct oids, names of schemas and of the relations of a
  schema are distinct, and every column has its type.
\<close>

definition consistent_catalog :: "pg_catalog \<Rightarrow> bool" where
  "consistent_catalog pg \<longleftrightarrow>
     distinct (map namespace_oid (schema_table pg)) \<and> distinct (map nspname (schema_table pg)) \<and>
     distinct (map class_oid (class_table pg)) \<and>
     distinct (map (\<lambda>c. (relnamespace c, relname c)) (class_table pg)) \<and>
     distinct (map type_oid (type_table pg)) \<and>
     (\<forall>a \<in> set (attribute_table pg). atttypid a \<in> type_oid ` set (type_table pg))"

section \<open>What the user can read\<close>

text \<open>The columns of a relation that the user can read, by their number.\<close>

definition readable_columns :: "pg_catalog \<Rightarrow> pg_class \<Rightarrow> pg_attribute list" where
  "readable_columns pg c = sort_key attnum (filter (readable_column pg c) (attribute_table pg))"

definition view_column :: "pg_catalog \<Rightarrow> pg_class \<Rightarrow> pg_attribute \<Rightarrow> catalog_column" where
  "view_column pg c a =
     \<lparr>column_name = attname a, column_sql_name = quote_identifier (attname a), ordinal = attnum a,
      data_type = format_type pg (atttypid a) (atttypmod a), nullable = NullableUnknown,
      column_comment = sanitize_comment (map_option (py_take 2000) (col_description pg (class_oid c) (attnum a)))\<rparr>"

text \<open>The views of the schemas that the user can read, and that show the user a column.\<close>

definition readable_views :: "pg_catalog \<Rightarrow> string list \<Rightarrow> (pg_class \<times> pg_namespace) list" where
  "readable_views pg schemas =
     [(c, n). c \<leftarrow> class_table pg, n \<leftarrow> schema_table pg, eligible pg schemas [''v''] c n,
        readable_columns pg c \<noteq> []]"

definition shows_view :: "pg_catalog \<Rightarrow> pg_class \<times> pg_namespace \<Rightarrow> catalog_relation \<Rightarrow> bool" where
  "shows_view pg relation r \<longleftrightarrow> (case relation of (c, n) \<Rightarrow>
     schema r = nspname n \<and> relation_name r = relname c \<and>
     columns r = map (view_column pg c) (readable_columns pg c) \<and>
     definition_hash r = viewdef_md5 pg (class_oid c) \<and>
     security_invoker r = has_option c ''security_invoker=true'' \<and>
     security_barrier r = has_option c ''security_barrier=true'' \<and>
     parse_view_comment (map_option (py_take 2000) (obj_description pg (class_oid c))) =
       Inr (view_contract_source r, relation_contract_version r, relation_comment r))"

section \<open>The rows of a relation\<close>

lemma filter_concat_key:
  assumes "\<And>x r. x \<in> set xs \<Longrightarrow> r \<in> set (f x) \<Longrightarrow> key r = k x" and "distinct xs" and "inj_on k (set xs)"
    and "x \<in> set xs"
  shows "filter (\<lambda>r. key r = k x) (concat (map f xs)) = f x"
  using assms
proof (induction xs)
  case (Cons y ys)
  have other: "filter (\<lambda>r. key r = k x) (f z) = []" if "z \<in> set (y # ys)" "z \<noteq> x" for z
    using Cons.prems that by (auto simp: filter_empty_conv inj_on_def)
  show ?case
  proof (cases "x = y")
    case True
    then have "concat (map (\<lambda>z. filter (\<lambda>r. key r = k x) (f z)) ys) = []"
      using other Cons.prems(2) by (auto simp: concat_eq_Nil_conv)
    moreover have "filter (\<lambda>r. key r = k x) (f y) = f y" using True Cons.prems(1) by (auto simp: filter_id_conv)
    ultimately show ?thesis using True by (simp add: filter_concat comp_def)
  next
    case False
    then show ?thesis using other [of y] Cons by simp
  qed
qed simp

lemma filter_key_unique: "distinct (map f xs) \<Longrightarrow> x \<in> set xs \<Longrightarrow> filter (\<lambda>y. f y = f x) xs = [x]"
proof (induction xs)
  case (Cons y ys)
  have "f y \<notin> f ` set ys" using Cons.prems(1) by simp
  then have "filter (\<lambda>z. f z = f y) ys = []" by (auto simp: filter_empty_conv) (metis image_eqI)
  with Cons show ?case by auto
qed simp

lemma distinct_pairs: "distinct xs \<Longrightarrow> distinct ys \<Longrightarrow> distinct [(x, y). x \<leftarrow> xs, y \<leftarrow> ys, P x y]"
proof (induction xs)
  case (Cons x xs)
  have "distinct (concat (map (\<lambda>y. if P x y then [(x, y)] else []) ys))"
    using Cons.prems(2) by (induction ys) auto
  with Cons show ?case by auto
qed simp

definition type_of :: "pg_catalog \<Rightarrow> pg_attribute \<Rightarrow> pg_type" where
  "type_of pg a = hd (filter (\<lambda>ty. type_oid ty = atttypid a) (type_table pg))"

lemma one_row:
  assumes "consistent_catalog pg" and "a \<in> set (attribute_table pg)"
  shows "[selected_row pg relation a ty. ty \<leftarrow> type_table pg, type_oid ty = atttypid a] =
    [selected_row pg relation a (type_of pg a)]"
proof -
  obtain ty where ty: "ty \<in> set (type_table pg)" "atttypid a = type_oid ty"
    using assms unfolding consistent_catalog_def by blast
  have "filter (\<lambda>ty. type_oid ty = atttypid a) (type_table pg) = [ty]"
    using filter_key_unique [of type_oid "type_table pg" ty] assms(1) ty by (simp add: consistent_catalog_def)
  moreover have "[f ty. ty \<leftarrow> tys, P ty] = map f (filter P tys)" for f :: "pg_type \<Rightarrow> catalog_row" and P tys
    by (induction tys) simp_all
  ultimately show ?thesis by (simp add: type_of_def)
qed

lemma relation_rows_columns:
  assumes "consistent_catalog pg"
  shows "relation_rows pg relation =
    map (\<lambda>a. selected_row pg relation a (type_of pg a)) (filter (readable_column pg (fst relation)) (attribute_table pg))"
proof -
  have "concat (map (\<lambda>a. if readable_column pg (fst relation) a
          then [selected_row pg relation a ty. ty \<leftarrow> type_table pg, type_oid ty = atttypid a] else []) as) =
      map (\<lambda>a. selected_row pg relation a (type_of pg a)) (filter (readable_column pg (fst relation)) as)"
    if "set as \<subseteq> set (attribute_table pg)" for as
    using that one_row [OF assms] by (induction as) simp_all
  then show ?thesis unfolding relation_rows_def by blast
qed

lemma row_of_relation:
  "row \<in> set (relation_rows pg (c, n)) \<Longrightarrow>
     row_schema row = nspname n \<and> row_relation row = relname c \<and> row_kind row = relkind c \<and>
     row_relation_comment row = map_option (py_take 2000) (obj_description pg (class_oid c)) \<and>
     row_definition_hash row = (if relkind c \<in> {''v'', ''m''} then viewdef_md5 pg (class_oid c) else None) \<and>
     row_security_invoker row = has_option c ''security_invoker=true'' \<and>
     row_security_barrier row = has_option c ''security_barrier=true''"
  by (auto simp: relation_rows_def selected_row_def split: if_splits)

lemma insort_key_map: "insort_key f (g x) (map g xs) = map g (insort_key (\<lambda>x. f (g x)) x xs)"
  by (induction xs) simp_all

lemma sort_key_map: "sort_key f (map g xs) = map g (sort_key (\<lambda>x. f (g x)) xs)"
  by (induction xs) (simp_all add: insort_key_map)

lemma sort_key_empty: "sort_key f xs = [] \<longleftrightarrow> xs = []"
  by (metis length_0_conv length_sort)

lemma sorted_if_constant: "(\<And>x. x \<in> set xs \<Longrightarrow> f x = k) \<Longrightarrow> sorted (map f xs)"
  by (induction xs) auto

lemma ordered_relation:
  assumes "consistent_catalog pg"
  shows "map column_of_row (order_rows pg (relation_rows pg (c, n))) = map (view_column pg c) (readable_columns pg c)"
proof -
  let ?rows = "sort_key row_ordinal (relation_rows pg (c, n))"
  have same: "row_schema row = nspname n \<and> row_relation row = relname c" if "row \<in> set ?rows" for row
    using that row_of_relation [of row pg c n] by simp
  have "sort_key (\<lambda>r. collation_key pg (row_relation r)) ?rows = ?rows"
    by (rule sort_key_id_if_sorted, rule sorted_if_constant [of _ _ "collation_key pg (relname c)"]) (use same in simp)
  moreover have "sort_key (\<lambda>r. collation_key pg (row_schema r)) ?rows = ?rows"
    by (rule sort_key_id_if_sorted, rule sorted_if_constant [of _ _ "collation_key pg (nspname n)"]) (use same in simp)
  ultimately have "order_rows pg (relation_rows pg (c, n)) = ?rows" by (simp add: order_rows_def)
  then show ?thesis
    by (simp add: relation_rows_columns [OF assms] sort_key_map readable_columns_def selected_row_def comp_def
        column_of_row_def view_column_def)
qed

section \<open>The rows of the query\<close>

definition relation_key :: "pg_class \<times> pg_namespace \<Rightarrow> string \<times> string" where
  "relation_key relation = (nspname (snd relation), relname (fst relation))"

lemma eligible_relations_set:
  "(c, n) \<in> set (eligible_relations pg schemas kinds) \<longleftrightarrow>
     c \<in> set (class_table pg) \<and> n \<in> set (schema_table pg) \<and> eligible pg schemas kinds c n"
  by (auto simp: eligible_relations_def)

lemma eligible_relations_distinct:
  assumes "consistent_catalog pg"
  shows "distinct (eligible_relations pg schemas kinds)"
    and "inj_on relation_key (set (eligible_relations pg schemas kinds))"
proof -
  have tables: "distinct (class_table pg)" "distinct (schema_table pg)"
    using assms unfolding consistent_catalog_def distinct_map by blast+
  then show "distinct (eligible_relations pg schemas kinds)"
    unfolding eligible_relations_def by (rule distinct_pairs)
  have names: "n = n'" if "n \<in> set (schema_table pg)" "n' \<in> set (schema_table pg)" "nspname n = nspname n'" for n n'
    using assms that unfolding consistent_catalog_def distinct_map inj_on_def by blast
  have classes: "c = c'" if "c \<in> set (class_table pg)" "c' \<in> set (class_table pg)"
      "relnamespace c = relnamespace c'" "relname c = relname c'" for c c'
    using assms that unfolding consistent_catalog_def distinct_map inj_on_def by blast
  show "inj_on relation_key (set (eligible_relations pg schemas kinds))"
  proof (rule inj_onI, clarify)
    fix c n c' n'
    assume "(c, n) \<in> set (eligible_relations pg schemas kinds)" "(c', n') \<in> set (eligible_relations pg schemas kinds)"
      and "relation_key (c, n) = relation_key (c', n')"
    then show "c = c' \<and> n = n'"
      using names [of n n'] classes [of c c'] unfolding eligible_relations_set eligible_def relation_key_def by auto
  qed
qed

lemma rows_of_relation:
  assumes "consistent_catalog pg" and "(c, n) \<in> set (eligible_relations pg schemas kinds)"
  shows "filter (\<lambda>row. row_schema row = nspname n \<and> row_relation row = relname c)
      (order_rows pg (concat (map (relation_rows pg) (eligible_relations pg schemas kinds)))) =
    order_rows pg (relation_rows pg (c, n))"
proof -
  have "filter (\<lambda>row. (row_schema row, row_relation row) = relation_key (c, n))
      (concat (map (relation_rows pg) (eligible_relations pg schemas kinds))) = relation_rows pg (c, n)"
  proof (rule filter_concat_key)
    fix relation row assume "row \<in> set (relation_rows pg relation)"
    then show "(row_schema row, row_relation row) = relation_key relation"
      using row_of_relation [of row pg "fst relation" "snd relation"] by (simp add: relation_key_def)
  qed (use assms eligible_relations_distinct in blast)+
  then show ?thesis unfolding order_rows_def filter_sort by (simp add: relation_key_def)
qed

lemma order_rows_set [simp]: "set (order_rows pg rows) = set rows"
  by (simp add: order_rows_def)

lemma readable_views_set:
  "(c, n) \<in> set (readable_views pg schemas) \<longleftrightarrow>
     (c, n) \<in> set (eligible_relations pg schemas [''v'']) \<and> readable_columns pg c \<noteq> []"
  by (auto simp: readable_views_def eligible_relations_def)

section \<open>What a load reads\<close>

definition answers_catalog :: "database \<Rightarrow> pg_catalog \<Rightarrow> bool" where
  "answers_catalog db pg \<longleftrightarrow>
     (\<forall>tr schemas kinds limit.
        reply db tr (CATALOG_ROWS schemas kinds limit) = Inr (CatalogAnswer (catalog_query pg schemas kinds limit)))"

lemma shown_relations:
  assumes consistent: "consistent_catalog pg"
    and rows: "rows = order_rows pg (concat (map (relation_rows pg) (eligible_relations pg schemas [''v''])))"
    and rs: "rows_to_relations rows = Inr rs" and free: "\<And>s. s \<in> set schemas \<Longrightarrow> CHR ''.'' \<notin> set s"
  shows "relation_key ` set (readable_views pg schemas) = (\<lambda>r. (schema r, relation_name r)) ` set rs"
    and "r \<in> set rs \<Longrightarrow> \<exists>relation \<in> set (readable_views pg schemas). shows_view pg relation r"
proof -
  have member: "row \<in> set rows \<longleftrightarrow>
      (\<exists>c n. (c, n) \<in> set (eligible_relations pg schemas [''v'']) \<and> row \<in> set (relation_rows pg (c, n)))" for row
    unfolding rows by auto
  have schemas: "CHR ''.'' \<notin> set (row_schema row)" if "row \<in> set rows" for row
    using that free unfolding member eligible_relations_set eligible_def by (metis row_of_relation)
  note groups = rows_to_relations_groups [OF rs schemas]
  have empty: "relation_rows pg (c, n) = [] \<longleftrightarrow> readable_columns pg c = []" for c n
    unfolding relation_rows_columns [OF consistent] readable_columns_def by (simp add: sort_key_empty)
  have shown: "readable_columns pg c \<noteq> []" if "row \<in> set (relation_rows pg (c, n))" for row c n
    using that empty [of c n] by (metis empty_iff list.set(1))
  have "(\<lambda>row. (row_schema row, row_relation row)) ` set rows = relation_key ` set (readable_views pg schemas)"
  proof (intro set_eqI iffI; elim imageE)
    fix p row assume p: "p = (row_schema row, row_relation row)" and "row \<in> set rows"
    then obtain c n where c: "(c, n) \<in> set (eligible_relations pg schemas [''v''])" "row \<in> set (relation_rows pg (c, n))"
      using member by blast
    then have "(c, n) \<in> set (readable_views pg schemas)" unfolding readable_views_set using shown by blast
    moreover have "p = relation_key (c, n)" using p row_of_relation [OF c(2)] by (simp add: relation_key_def)
    ultimately show "p \<in> relation_key ` set (readable_views pg schemas)" by blast
  next
    fix p relation assume p: "p = relation_key relation" and view: "relation \<in> set (readable_views pg schemas)"
    obtain c n where cn: "relation = (c, n)" by (cases relation)
    with view have c: "(c, n) \<in> set (eligible_relations pg schemas [''v''])" "relation_rows pg (c, n) \<noteq> []"
      by (simp_all add: readable_views_set empty)
    then obtain row where row: "row \<in> set (relation_rows pg (c, n))" by (cases "relation_rows pg (c, n)") auto
    then have "row \<in> set rows" using member c by blast
    moreover have "p = (row_schema row, row_relation row)"
      using p cn row_of_relation [OF row] by (simp add: relation_key_def)
    ultimately show "p \<in> (\<lambda>row. (row_schema row, row_relation row)) ` set rows" by blast
  qed
  then show "relation_key ` set (readable_views pg schemas) = (\<lambda>r. (schema r, relation_name r)) ` set rs"
    using groups by metis
  assume r: "r \<in> set rs"
  then obtain row where row: "row \<in> set rows" "describes row r" using groups by blast
  then obtain c n where c: "(c, n) \<in> set (eligible_relations pg schemas [''v''])" "row \<in> set (relation_rows pg (c, n))"
    using member by blast
  note parts = row_of_relation [OF c(2)]
  have kind: "relkind c = ''v''" using c(1) unfolding eligible_relations_set eligible_def by simp
  have name: "schema r = nspname n" "relation_name r = relname c" using row(2) parts unfolding describes_def by simp_all
  have "columns r = map column_of_row (filter (\<lambda>row. row_schema row = nspname n \<and> row_relation row = relname c) rows)"
    using groups r name by simp
  then have "columns r = map (view_column pg c) (readable_columns pg c)"
    unfolding rows rows_of_relation [OF consistent c(1)] ordered_relation [OF consistent] .
  then have "shows_view pg (c, n) r"
    using row(2) parts name kind by (simp add: shows_view_def describes_def)
  moreover have "(c, n) \<in> set (readable_views pg schemas)" unfolding readable_views_set using c shown by blast
  ultimately show "\<exists>relation \<in> set (readable_views pg schemas). shows_view pg relation r" by blast
qed


section \<open>A concrete catalog\<close>

text \<open>
  One readable view, \<open>api.orders\<close>, with its columns stored out of order and one of them dropped;
  a table; and a view that the user may not read.
\<close>

definition example_attribute :: "nat \<Rightarrow> int \<Rightarrow> string \<Rightarrow> bool \<Rightarrow> pg_attribute" where
  "example_attribute relation i name dropped =
     \<lparr>attrelid = relation, attnum = i, attname = name, atttypid = 25, atttypmod = -1, attisdropped = dropped\<rparr>"

definition example_tables :: pg_catalog where
  "example_tables =
     \<lparr>schema_table = [\<lparr>namespace_oid = 2, nspname = ''api''\<rparr>, \<lparr>namespace_oid = 3, nspname = ''private''\<rparr>],
      class_table = [\<lparr>class_oid = 10, relname = ''orders'', relnamespace = 2, relkind = ''v'',
          reloptions = Some [''security_invoker=true'']\<rparr>,
        \<lparr>class_oid = 11, relname = ''raw'', relnamespace = 2, relkind = ''r'', reloptions = None\<rparr>,
        \<lparr>class_oid = 12, relname = ''hidden'', relnamespace = 2, relkind = ''v'', reloptions = None\<rparr>],
      attribute_table = [example_attribute 10 2 ''note'' False, example_attribute 10 1 ''id'' False,
        example_attribute 10 3 ''old'' True, example_attribute 12 1 ''id'' False],
      type_table = [\<lparr>type_oid = 25, typtype = ''b''\<rparr>],
      obj_description = (\<lambda>_. Some (marker_text ''shop'' ''2'' @ [CHR 0x0A] @ ''Orders'')),
      col_description = (\<lambda>_ _. None), viewdef_md5 = (\<lambda>_. Some ''d41d8''), format_type = (\<lambda>_ _. ''text''),
      has_schema_privilege = (\<lambda>_. Some True), has_table_privilege = (\<lambda>c. Some (c \<noteq> 12)),
      has_column_privilege = (\<lambda>_ _. Some True), collation_key = (\<lambda>s. s)\<rparr>"

fun example_server_reply :: "statement list \<Rightarrow> statement \<Rightarrow> exc + answer" where
  "example_server_reply tr (CHECK_SESSION_POLICY args) = Inr (PolicyRow (Some [(''read_only'', BoolV True)]))"
| "example_server_reply tr (CATALOG_ROWS schemas kinds n) =
     Inr (CatalogAnswer (catalog_query example_tables schemas kinds n))"
| "example_server_reply tr st = Inr Done"

definition example_server :: database where
  "example_server = \<lparr>conn_info = Inr example_info, reply = example_server_reply\<rparr>"

lemma example_comment:
  "py_take 2000 (marker_text ''shop'' ''2'' @ [CHR 0x0A] @ ''Orders'') =
     marker_text ''shop'' ''2'' @ [CHR 0x0A] @ ''Orders''"
  by code_simp

lemma example_query_rows: "catalog_query example_tables [''api'', ''ext''] [''v''] 1001 = example_rows"
proof -
  have relations: "eligible_relations example_tables [''api'', ''ext''] [''v''] =
      [(hd (class_table example_tables), hd (schema_table example_tables))]"
    by (simp add: eligible_relations_def eligible_def example_tables_def)
  have "relation_rows example_tables (hd (class_table example_tables), hd (schema_table example_tables)) =
      rev example_rows"
    using example_comment
    by (simp add: relation_rows_def readable_column_def selected_row_def example_tables_def example_attribute_def
        example_rows_def has_option_def coalesce_def)
  then show ?thesis
    by (simp add: catalog_query_def relations order_rows_def example_rows_def)
qed

lemma example_server_load:
  "\<exists>snap t. catalog_load (Inr example_server) example_source [] = (Inr snap, t)"
proof -
  obtain r where r: "rows_to_relations example_rows = Inr [r]" "length (columns r) = 2"
    using example_rows_load by blast
  have "list_all (\<lambda>row. row_type_kind row = ''b'') example_rows" "length example_rows = 2"
    by (simp_all add: example_rows_def)
  then have "\<not> list_ex (\<lambda>row. row_type_kind row = ''d'') example_rows"
    by (auto simp: list_all_iff list_ex_iff)
  with r \<open>length example_rows = 2\<close> show ?thesis
    by (simp add: example_server_def example_db_simps catalog_snapshot_of_rows_def example_query_rows)
qed


end
