(* ===== verification/ConnectionPools.thy ===== *)
theory ConnectionPools
  imports ReaderPolicy Registry Revision
begin

text \<open>
  The connection pools of a source. \<open>PostgresCatalog\<close> (\<open>src/query_man/metadata/catalog.py\<close>) and
  \<open>PostgresQueryExecutor\<close> (\<open>src/query_man/guarded_query/query.py\<close>) each keep a dictionary of pools
  and fill it in \<open>_get_pool\<close> behind a lock; they differ in the settings of the pool. The pool
  itself, \<open>psycopg_pool.AsyncConnectionPool\<close>, is not part of the repository: here it is the
  settings it is created with, and opening it is a step that succeeds or raises.
\<close>

section \<open>Settings\<close>

text \<open>The time to wait for a connection is written in seconds in the code, here in milliseconds.\<close>

record pool_settings =
  conninfo :: string
  pool_kwargs :: "(string, pyval) dict"
  min_size :: int
  max_size :: int
  timeout_ms :: int
  max_idle :: int
  open_at_once :: bool

text \<open>The class \<open>dict_row\<close> stands as its name.\<close>

definition connection_parameters :: "source_profile \<Rightarrow> string \<Rightarrow> (string, pyval) dict" where
  "connection_parameters source application_name =
     dict_update (reader_connection_kwargs source application_name)
       [(''autocommit'', BoolV True), (''row_factory'', StrV ''dict_row'')]"

definition catalog_pool :: "source_profile \<Rightarrow> pool_settings" where
  "catalog_pool source =
     \<lparr>conninfo = '''', pool_kwargs = connection_parameters source (''query-man-meta:'' @ source_id source),
      min_size = 0, max_size = 1, timeout_ms = 2000, max_idle = 10, open_at_once = False\<rparr>"

definition query_pool :: "source_profile \<Rightarrow> pool_settings" where
  "query_pool source =
     \<lparr>conninfo = '''', pool_kwargs = connection_parameters source (''query-man-query:'' @ source_id source),
      min_size = 0, max_size = max_pool_size (budget source),
      timeout_ms = query_queue_timeout_ms (budget source), max_idle = 10, open_at_once = False\<rparr>"

section \<open>Filling the dictionary\<close>

text \<open>
  A task in \<open>_get_pool\<close>: waiting for the lock, or holding it and opening the pool. Between two
  \<open>await\<close>s a task runs alone, so the two look-ups are part of the steps before them.
\<close>

datatype pool_task =
    AwaitLock source_profile
  | Opening source_profile pool_settings

record pool_state =
  pool_map :: "(string, pool_settings) dict"
  lock_holder :: "nat option"
  pool_phase :: "nat \<Rightarrow> pool_task option"

definition initial_pools :: pool_state where
  "initial_pools = \<lparr>pool_map = [], lock_holder = None, pool_phase = (\<lambda>t. None)\<rparr>"

datatype pool_event =
    Ask nat string
  | Proceed nat
  | Abort nat
  | ClosePool

text \<open>The pool a step returns to its caller, and the pool it opened.\<close>

datatype pool_effect =
    Nothing
  | Returned string pool_settings
  | Opened string pool_settings

definition enter :: "nat \<Rightarrow> pool_task \<Rightarrow> pool_state \<Rightarrow> pool_state" where
  "enter t p st = st\<lparr>pool_phase := (pool_phase st)(t \<mapsto> p)\<rparr>"

definition leave_pool :: "nat \<Rightarrow> pool_state \<Rightarrow> pool_state" where
  "leave_pool t st =
     st\<lparr>pool_phase := (pool_phase st)(t := None),
        lock_holder := (if lock_holder st = Some t then None else lock_holder st)\<rparr>"

text \<open>The first look-up, without the lock.\<close>

definition ask_pool :: "nat \<Rightarrow> source_profile \<Rightarrow> pool_state \<Rightarrow> pool_effect \<times> pool_state" where
  "ask_pool t source st =
     (case map_of (pool_map st) (source_id source) of
        Some pool \<Rightarrow> (Returned (source_id source) pool, st)
      | None \<Rightarrow> (Nothing, enter t (AwaitLock source) st))"

text \<open>The lock is free: it is taken, and the second look-up made.\<close>

definition locked_lookup ::
  "(source_profile \<Rightarrow> pool_settings) \<Rightarrow> nat \<Rightarrow> source_profile \<Rightarrow> pool_state \<Rightarrow> pool_effect \<times> pool_state" where
  "locked_lookup settings t source st =
     (case map_of (pool_map st) (source_id source) of
        Some pool \<Rightarrow> (Returned (source_id source) pool, leave_pool t st)
      | None \<Rightarrow> (Nothing, enter t (Opening source (settings source)) (st\<lparr>lock_holder := Some t\<rparr>)))"

text \<open>\<open>pool.open()\<close> is done: the pool is stored, and the lock given back.\<close>

definition store_pool ::
  "nat \<Rightarrow> source_profile \<Rightarrow> pool_settings \<Rightarrow> pool_state \<Rightarrow> pool_effect \<times> pool_state" where
  "store_pool t source pool st =
     (Opened (source_id source) pool,
      leave_pool t (st\<lparr>pool_map := AList.update (source_id source) pool (pool_map st)\<rparr>))"

inductive pool_step ::
  "registry \<Rightarrow> (source_profile \<Rightarrow> pool_settings) \<Rightarrow> pool_state \<Rightarrow> pool_event \<Rightarrow> pool_effect \<Rightarrow> pool_state \<Rightarrow> bool"
  for reg settings where
  ask: "pool_phase st t = None \<Longrightarrow> registry_get reg sid = Some source \<Longrightarrow> ask_pool t source st = (out, st') \<Longrightarrow>
    pool_step reg settings st (Ask t sid) out st'"
| lock: "pool_phase st t = Some (AwaitLock source) \<Longrightarrow> lock_holder st = None \<Longrightarrow>
    locked_lookup settings t source st = (out, st') \<Longrightarrow> pool_step reg settings st (Proceed t) out st'"
| opened: "pool_phase st t = Some (Opening source pool) \<Longrightarrow> store_pool t source pool st = (out, st') \<Longrightarrow>
    pool_step reg settings st (Proceed t) out st'"
| abort: "pool_phase st t \<noteq> None \<Longrightarrow> pool_step reg settings st (Abort t) Nothing (leave_pool t st)"
| close: "pool_step reg settings st ClosePool Nothing (st\<lparr>pool_map := []\<rparr>)"

text \<open>A run, with the effect of each step.\<close>

inductive pool_run ::
  "registry \<Rightarrow> (source_profile \<Rightarrow> pool_settings) \<Rightarrow> pool_event list \<Rightarrow> pool_effect list \<Rightarrow> pool_state \<Rightarrow> bool"
  for reg settings where
  start: "pool_run reg settings [] [] initial_pools"
| step: "pool_run reg settings es outs st \<Longrightarrow> pool_step reg settings st e out st' \<Longrightarrow>
    pool_run reg settings (es @ [e]) (outs @ [out]) st'"

section \<open>One pool for each source\<close>

definition opened_pools :: "pool_effect list \<Rightarrow> (string \<times> pool_settings) list" where
  "opened_pools outs = List.map_filter (\<lambda>out. case out of Opened sid pool \<Rightarrow> Some (sid, pool) | _ \<Rightarrow> None) outs"

definition pool_of :: "registry \<Rightarrow> (source_profile \<Rightarrow> pool_settings) \<Rightarrow> string \<Rightarrow> pool_settings \<Rightarrow> bool" where
  "pool_of reg settings sid pool \<longleftrightarrow> (\<exists>source. registry_get reg sid = Some source \<and> pool = settings source)"

text \<open>
  Only the holder of the lock opens a pool, and only for a source that has none; the pools
  stored are those opened since the last close.
\<close>

definition pools_ok :: "registry \<Rightarrow> (source_profile \<Rightarrow> pool_settings) \<Rightarrow> pool_effect list \<Rightarrow> pool_state \<Rightarrow> bool" where
  "pools_ok reg settings outs st \<longleftrightarrow>
     (\<forall>t source pool. pool_phase st t = Some (Opening source pool) \<longrightarrow>
        lock_holder st = Some t \<and> map_of (pool_map st) (source_id source) = None \<and> pool = settings source) \<and>
     (\<forall>t source. pool_phase st t = Some (AwaitLock source) \<longrightarrow> lock_holder st \<noteq> Some t) \<and>
     (\<forall>t source. (\<exists>pool. pool_phase st t = Some (Opening source pool)) \<or> pool_phase st t = Some (AwaitLock source) \<longrightarrow>
        registry_get reg (source_id source) = Some source) \<and>
     (\<forall>t. lock_holder st = Some t \<longrightarrow> (\<exists>source pool. pool_phase st t = Some (Opening source pool))) \<and>
     (\<forall>sid pool. map_of (pool_map st) sid = Some pool \<longrightarrow> pool_of reg settings sid pool) \<and>
     map_of (pool_map st) = map_of (opened_pools outs) \<and> distinct (map fst (opened_pools outs))"

lemma opened_snoc [simp]:
  "opened_pools [] = []"
  "opened_pools (outs @ [Nothing]) = opened_pools outs"
  "opened_pools (outs @ [Returned sid pool]) = opened_pools outs"
  "opened_pools (outs @ [Opened sid pool]) = opened_pools outs @ [(sid, pool)]"
  by (simp_all add: opened_pools_def List.map_filter_def)

lemma map_of_snoc: "map_of xs k = None \<Longrightarrow> map_of (xs @ [(k, v)]) = (map_of xs)(k \<mapsto> v)"
  by (auto simp: fun_eq_iff map_add_def split: option.splits)

definition keyed_by_id :: "registry \<Rightarrow> bool" where
  "keyed_by_id reg \<longleftrightarrow> (\<forall>sid source. registry_get reg sid = Some source \<longrightarrow> source_id source = sid)"

lemma keyed_lookup: "keyed_by_id reg \<Longrightarrow> registry_get reg sid = Some source \<Longrightarrow> source_id source = sid"
  by (simp add: keyed_by_id_def)

lemma registry_keyed: "keyed_by_id (source_registry sources)"
  using registry_get_id by (auto simp: keyed_by_id_def)

lemma pool_step_keeps:
  assumes ok: "pools_ok reg settings outs st" and step: "pool_step reg settings st e out st'"
    and keyed: "keyed_by_id reg" and "e \<noteq> ClosePool"
  shows "pools_ok reg settings (outs @ [out]) st'"
  using step
proof cases
  case (ask t sid source)
  show ?thesis
  proof (cases "map_of (pool_map st) (source_id source)")
    case None
    with ask have out: "out = Nothing" and st': "st' = enter t (AwaitLock source) st" by (simp_all add: ask_pool_def)
    have free: "lock_holder st \<noteq> Some t" using ok ask(2) unfolding pools_ok_def by force
    show ?thesis unfolding out st' using ok ask(2,3) keyed_lookup [OF keyed ask(3)] free
      by (auto simp: enter_def pools_ok_def)
  next
    case (Some pool)
    with ask have out: "out = Returned (source_id source) pool" and st': "st' = st" by (simp_all add: ask_pool_def)
    show ?thesis unfolding out st' using ok unfolding pools_ok_def by auto
  qed
next
  case (lock t source)
  show ?thesis
  proof (cases "map_of (pool_map st) (source_id source)")
    case None
    with lock have out: "out = Nothing" and st': "st' = enter t (Opening source (settings source)) (st\<lparr>lock_holder := Some t\<rparr>)"
      by (simp_all add: locked_lookup_def)
    show ?thesis unfolding out st' using ok lock None by (auto simp: pools_ok_def enter_def)
  next
    case (Some pool)
    with lock have out: "out = Returned (source_id source) pool" and st': "st' = leave_pool t st"
      by (simp_all add: locked_lookup_def)
    show ?thesis unfolding out st' using ok lock by (auto simp: pools_ok_def leave_pool_def)
  qed
next
  case (opened t source pool)
  then have out: "out = Opened (source_id source) pool"
    and st': "st' = leave_pool t (st\<lparr>pool_map := AList.update (source_id source) pool (pool_map st)\<rparr>)"
    by (simp_all add: store_pool_def)
  have mine: "lock_holder st = Some t" "map_of (pool_map st) (source_id source) = None" "pool = settings source"
      "registry_get reg (source_id source) = Some source"
    using ok opened(2) unfolding pools_ok_def by blast+
  have others: "t' = t" if "pool_phase st t' = Some (Opening s p)" for t' s p
    using ok mine(1) that unfolding pools_ok_def by (metis option.inject)
  have maps: "map_of (pool_map st) = map_of (opened_pools outs)" "distinct (map fst (opened_pools outs))"
    using ok unfolding pools_ok_def by blast+
  have new: "source_id source \<notin> set (map fst (opened_pools outs))"
    using mine(2) unfolding maps by (simp add: map_of_eq_None_iff)
  have "map_of (AList.update (source_id source) pool (pool_map st)) = map_of (opened_pools (outs @ [out]))"
    using maps mine(2) by (simp add: out map_of_snoc update_conv' del: map_of_append)
  moreover have "distinct (map fst (opened_pools (outs @ [out])))" using maps new by (simp add: out)
  moreover have "pool_of reg settings sid q"
    if "map_of (AList.update (source_id source) pool (pool_map st)) sid = Some q" for sid q
  proof -
    have "\<forall>sid q. map_of (pool_map st) sid = Some q \<longrightarrow> pool_of reg settings sid q"
      using ok unfolding pools_ok_def by blast
    moreover have "pool_of reg settings (source_id source) pool" using mine(3,4) unfolding pool_of_def by blast
    ultimately show ?thesis using that by (simp add: update_conv' split: if_splits)
  qed
  moreover have parts: "pool_phase st' = (pool_phase st)(t := None)" "lock_holder st' = None"
      "pool_map st' = AList.update (source_id source) pool (pool_map st)"
    using mine(1) by (simp_all add: st' leave_pool_def)
  moreover have "pool_phase st' t' \<noteq> Some (Opening s p)" for t' s p
    using others [of t' s p] unfolding parts by auto
  moreover have "registry_get reg (source_id s) = Some s" if "pool_phase st' t' = Some (AwaitLock s)" for t' s
  proof -
    have "\<forall>t s. pool_phase st t = Some (AwaitLock s) \<longrightarrow> registry_get reg (source_id s) = Some s"
      using ok unfolding pools_ok_def by blast
    with that show ?thesis unfolding parts by (simp split: if_splits)
  qed
  ultimately show ?thesis unfolding pools_ok_def parts(2,3) by blast
next
  case (abort t)
  then show ?thesis using ok by (auto simp: pools_ok_def leave_pool_def split: if_splits)
next
  case close
  with assms(4) show ?thesis by simp
qed

lemma pool_run_ok:
  assumes "pool_run reg settings es outs st" and "keyed_by_id reg" and "ClosePool \<notin> set es"
  shows "pools_ok reg settings outs st"
  using assms(1,3)
proof (induction rule: pool_run.induct)
  case start
  then show ?case by (simp add: pools_ok_def initial_pools_def)
next
  case (step es outs st e out st')
  then have "pools_ok reg settings outs st" "e \<noteq> ClosePool" by auto
  then show ?case using pool_step_keeps [OF _ step.hyps(2) assms(2)] by blast
qed

lemma pool_run_returns:
  assumes "pool_run reg settings es outs st" and "keyed_by_id reg" and "ClosePool \<notin> set es"
    and "Returned sid pool \<in> set outs"
  shows "(sid, pool) \<in> set (opened_pools outs)"
  using assms(1,3,4)
proof (induction rule: pool_run.induct)
  case (step es outs st e out st')
  note ok = pool_run_ok [OF step.hyps(1) assms(2)]
  show ?case
  proof (cases "out = Returned sid pool")
    case True
    with step.hyps(2) have "map_of (pool_map st) sid = Some pool"
      by (cases rule: pool_step.cases)
        (auto simp: ask_pool_def locked_lookup_def store_pool_def split: option.splits)
    with ok step.prems(1) have "map_of (opened_pools outs) sid = Some pool" unfolding pools_ok_def by simp
    with True show ?thesis by (simp add: map_of_SomeD)
  next
    case False
    then have "(sid, pool) \<in> set (opened_pools outs)" using step by auto
    then show ?thesis by (cases out) simp_all
  qed
qed simp

text \<open>
  C34: one pool for each source. However the tasks that ask for pools interleave, fail or are
  cancelled, until the pools are closed at most one pool is opened for a source, it has the
  settings of that source, every task that gets a pool for the source gets that one, and the
  connections to the source stay within its size: one for the catalog, and the budget's
  number for the queries.
\<close>
theorem one_pool_per_source:
  assumes "pool_run (source_registry sources) settings es outs st" and "ClosePool \<notin> set es"
  shows "distinct (map fst (opened_pools outs)) \<and>
    (\<forall>(sid, pool) \<in> set (opened_pools outs). pool_of (source_registry sources) settings sid pool \<and>
       (settings = catalog_pool \<longrightarrow> max_size pool = 1) \<and>
       (settings = query_pool \<longrightarrow>
          (\<exists>source. registry_get (source_registry sources) sid = Some source \<and> max_size pool = max_pool_size (budget source)))) \<and>
    (\<forall>sid pool. Returned sid pool \<in> set outs \<longrightarrow> map_of (opened_pools outs) sid = Some pool)"
proof -
  note ok = pool_run_ok [OF assms(1) registry_keyed assms(2)]
  have d: "distinct (map fst (opened_pools outs))" using ok unfolding pools_ok_def by blast
  have "pool_of (source_registry sources) settings sid pool" if "(sid, pool) \<in> set (opened_pools outs)" for sid pool
    using ok d that unfolding pools_ok_def by (metis map_of_is_SomeI)
  moreover have "map_of (opened_pools outs) sid = Some pool" if "Returned sid pool \<in> set outs" for sid pool
    using pool_run_returns [OF assms(1) registry_keyed assms(2) that] d by simp
  ultimately show ?thesis using d
    by (fastforce simp: pool_of_def catalog_pool_def query_pool_def)
qed

section \<open>A concrete run\<close>

text \<open>Two tasks ask for the pool of one source; the second waits for the first and gets its pool.\<close>

definition example_pool_events :: "pool_event list" where
  "example_pool_events = [Ask 1 ''shop'', Ask 2 ''shop'', Proceed 1, Proceed 1, Proceed 2]"

lemma example_pool_run:
  "\<exists>st. pool_run (source_registry [example_source]) query_pool example_pool_events
     [Nothing, Nothing, Nothing, Opened ''shop'' (query_pool example_source),
      Returned ''shop'' (query_pool example_source)] st"
proof -
  let ?reg = "source_registry [example_source]"
  have source: "registry_get ?reg ''shop'' = Some example_source" "source_id example_source = ''shop''"
    by (simp_all add: source_registry_def registry_get_def example_source_def)
  define s1 where "s1 = enter 1 (AwaitLock example_source) initial_pools"
  define s2 where "s2 = enter 2 (AwaitLock example_source) s1"
  define s3 where "s3 = enter 1 (Opening example_source (query_pool example_source)) (s2\<lparr>lock_holder := Some 1\<rparr>)"
  define s4 where "s4 = snd (store_pool 1 example_source (query_pool example_source) s3)"
  define s5 where "s5 = leave_pool 2 s4"
  note defs = s5_def s4_def s3_def s2_def s1_def enter_def initial_pools_def leave_pool_def store_pool_def
    ask_pool_def locked_lookup_def source(2)
  have 1: "pool_step ?reg query_pool initial_pools (Ask 1 ''shop'') Nothing s1"
    by (rule pool_step.ask [OF _ source(1)]) (simp_all add: defs)
  have 2: "pool_step ?reg query_pool s1 (Ask 2 ''shop'') Nothing s2"
    by (rule pool_step.ask [OF _ source(1)]) (simp_all add: defs)
  have 3: "pool_step ?reg query_pool s2 (Proceed 1) Nothing s3"
    by (rule pool_step.lock [of _ _ example_source]) (simp_all add: defs)
  have 4: "pool_step ?reg query_pool s3 (Proceed 1) (Opened ''shop'' (query_pool example_source)) s4"
    by (rule pool_step.opened [of _ _ example_source "query_pool example_source"]) (simp_all add: defs)
  have 5: "pool_step ?reg query_pool s4 (Proceed 2) (Returned ''shop'' (query_pool example_source)) s5"
    by (rule pool_step.lock [of _ _ example_source]) (simp_all add: defs)
  from pool_run.step [OF pool_run.step [OF pool_run.step [OF pool_run.step [OF pool_run.step
        [OF pool_run.start 1] 2] 3] 4] 5]
  show ?thesis unfolding example_pool_events_def by auto
qed

theorem one_pool_per_source_witness:
  "\<exists>outs st. pool_run (source_registry [example_source]) query_pool example_pool_events outs st \<and>
     map_of (opened_pools outs) ''shop'' = Some (query_pool example_source)"
proof -
  obtain st where run: "pool_run (source_registry [example_source]) query_pool example_pool_events
     [Nothing, Nothing, Nothing, Opened ''shop'' (query_pool example_source),
      Returned ''shop'' (query_pool example_source)] st" using example_pool_run by blast
  have "ClosePool \<notin> set example_pool_events" by (simp add: example_pool_events_def)
  note one = one_pool_per_source [OF run this, THEN conjunct2, THEN conjunct2]
  have "map_of (opened_pools [Nothing, Nothing, Nothing, Opened ''shop'' (query_pool example_source),
      Returned ''shop'' (query_pool example_source)]) ''shop'' = Some (query_pool example_source)"
    by (rule one [rule_format]) simp
  with run show ?thesis by blast
qed

end
