(* ===== verification/Logging.thy ===== *)
theory Logging
  imports Config
begin

text \<open>
  The log of \<open>src/query_man/runtime/operations.py\<close>: the redaction of texts by three regular
  expressions, the JSON line of a record, and the handler of the process. Regular expressions
  work on code points; a code point is the list of its UTF-8 bytes. Which code points outside
  ASCII are word characters is a table of the language, a parameter of the definitions.
\<close>

section \<open>Code points\<close>

function code_points :: "string \<Rightarrow> string list" where
  "code_points [] = []"
| "code_points (b # s) = (b # takeWhile utf8_continuation s) # code_points (dropWhile utf8_continuation s)"
  by pat_completeness auto
termination by (relation "measure length") (auto simp: le_imp_less_Suc length_dropWhile_le)

definition ascii_text :: "string \<Rightarrow> string list" where
  "ascii_text s = map (\<lambda>c. [c]) s"

abbreviation quote :: string where
  "quote \<equiv> [CHR 0x27]"

definition is_space :: "string \<Rightarrow> bool" where
  "is_space c \<longleftrightarrow> map of_char c \<in> set py_spaces"

text \<open>\<open>\w\<close>: an ASCII letter, digit or underscore, or what the table says of other code points.\<close>

definition ascii_word :: "char \<Rightarrow> bool" where
  "ascii_word c \<longleftrightarrow> ascii_digit c \<or> ascii_upper c \<or> c \<in> set ''abcdefghijklmnopqrstuvwxyz_''"

definition word_char :: "(string \<Rightarrow> bool) \<Rightarrow> string \<Rightarrow> bool" where
  "word_char word c = (case c of [b] \<Rightarrow> ascii_word b | _ \<Rightarrow> word c)"

section \<open>Matching without case\<close>

text \<open>
  Without case, an ASCII letter matches itself in both cases; in addition \<open>i\<close> matches U+0130 and
  U+0131, \<open>k\<close> the Kelvin sign U+212A and \<open>s\<close> the long s U+017F, and so does the range \<open>A-Za-z\<close>.
\<close>

definition extra_cases :: "char \<Rightarrow> nat list list" where
  "extra_cases c =
     (if c = CHR ''i'' then [[0xC4, 0xB0], [0xC4, 0xB1]]
      else if c = CHR ''k'' then [[0xE2, 0x84, 0xAA]]
      else if c = CHR ''s'' then [[0xC5, 0xBF]] else [])"

text \<open>The letter of the pattern is written in lower case.\<close>

definition letter_matches :: "char \<Rightarrow> string \<Rightarrow> bool" where
  "letter_matches l c \<longleftrightarrow> ascii_lower c = [l] \<or> map of_char c \<in> set (extra_cases l)"

fun match_word :: "string \<Rightarrow> string list \<Rightarrow> string list option" where
  "match_word [] s = Some s"
| "match_word (l # ls) [] = None"
| "match_word (l # ls) (c # s) = (if letter_matches l c then match_word ls s else None)"

text \<open>One or more code points of a class, as many as there are.\<close>

definition match_some :: "(string \<Rightarrow> bool) \<Rightarrow> string list \<Rightarrow> string list option" where
  "match_some P s = (case s of [] \<Rightarrow> None | c # _ \<Rightarrow> if P c then Some (dropWhile P s) else None)"

section \<open>The three patterns\<close>

text \<open>
  What a pattern matches at a position: the replacement, and the rest after the match. The
  position is the code point before it, if any, and the text from it on. In the first two
  patterns what may follow a repetition is never of its class, so the longest repetition is the
  only one.
\<close>

type_synonym pattern = "string option \<Rightarrow> string list \<Rightarrow> (string list \<times> string list) option"

definition bearer_char :: "string \<Rightarrow> bool" where
  "bearer_char c \<longleftrightarrow> (\<exists>l \<in> set ''abcdefghijklmnopqrstuvwxyz''. letter_matches l c) \<or>
     c \<in> set (ascii_text ''0123456789._~+/=-'')"

definition match_bearer :: "string list \<Rightarrow> string list option" where
  "match_bearer s =
     Option.bind (match_word ''bearer'' s) (\<lambda>s. Option.bind (match_some is_space s) (match_some bearer_char))"

definition bearer_pattern :: pattern where
  "bearer_pattern prev s = map_option (\<lambda>rest. (ascii_text ''Bearer [REDACTED]'', rest)) (match_bearer s)"

definition secret_words :: "string list" where
  "secret_words = [''password'', ''credential'', ''token'', ''secret'']"

definition separator :: "string \<Rightarrow> bool" where
  "separator c \<longleftrightarrow> is_space c \<or> c = '','' \<or> c = '';''"

definition at_boundary :: "(string \<Rightarrow> bool) \<Rightarrow> string option \<Rightarrow> string list \<Rightarrow> bool" where
  "at_boundary word prev s \<longleftrightarrow>
     (case prev of None \<Rightarrow> False | Some c \<Rightarrow> word_char word c) \<noteq> (case s of [] \<Rightarrow> False | c # _ \<Rightarrow> word_char word c)"

definition secret_value :: "string list \<Rightarrow> string list option" where
  "secret_value s =
     (case dropWhile is_space s of
        [] \<Rightarrow> None
      | c # s \<Rightarrow> if c = ''='' \<or> c = '':'' then match_some (\<lambda>c. \<not> separator c) (dropWhile is_space s) else None)"

definition match_secret_word :: "string list \<Rightarrow> string list option" where
  "match_secret_word s = (case List.map_filter (\<lambda>w. match_word w s) secret_words of [] \<Rightarrow> None | r # _ \<Rightarrow> Some r)"

definition secret_pattern :: "(string \<Rightarrow> bool) \<Rightarrow> pattern" where
  "secret_pattern word prev s =
     (if at_boundary word prev s then
        (case match_secret_word s of
           None \<Rightarrow> None
         | Some r \<Rightarrow> map_option (\<lambda>rest. (take (length s - length r) s @ ascii_text ''=[REDACTED]'', rest)) (secret_value r))
      else None)"

text \<open>
  After an opening quote: a doubled quote goes on, another quote closes, and when nothing closes
  after a doubled quote the match goes back and closes at the first quote of that pair.
\<close>

fun close_literal :: "string list \<Rightarrow> string list option" where
  "close_literal [] = None"
| "close_literal (c # s) =
     (if c \<noteq> quote then close_literal s
      else (case s of
              [] \<Rightarrow> Some []
            | d # s' \<Rightarrow>
                if d = quote then (case close_literal s' of Some rest \<Rightarrow> Some rest | None \<Rightarrow> Some s) else Some s))"

definition literal_pattern :: pattern where
  "literal_pattern prev s =
     (case s of
        [] \<Rightarrow> None
      | c # s \<Rightarrow> if c = quote
          then map_option (\<lambda>rest. (quote # ascii_text ''[REDACTED]'' @ [quote], rest)) (close_literal s) else None)"

section \<open>Redaction\<close>

text \<open>\<open>re.sub\<close> with a pattern that never matches the empty text.\<close>

function re_sub :: "pattern \<Rightarrow> string option \<Rightarrow> string list \<Rightarrow> string list" where
  "re_sub m prev [] = []"
| "re_sub m prev (c # s) =
     (case m prev (c # s) of
        None \<Rightarrow> c # re_sub m (Some c) s
      | Some (out, rest) \<Rightarrow>
          (let matched = take (length (c # s) - length rest) (c # s) in
           out @ re_sub m (Some (last matched)) (drop (length matched - 1) s)))"
  by pat_completeness auto
termination by (relation "measure (\<lambda>(m, prev, s). length s)") auto

definition redact_points :: "(string \<Rightarrow> bool) \<Rightarrow> string list \<Rightarrow> string list" where
  "redact_points word s = re_sub literal_pattern None (re_sub (secret_pattern word) None (re_sub bearer_pattern None s))"

definition redact :: "(string \<Rightarrow> bool) \<Rightarrow> string \<Rightarrow> string" where
  "redact word s = concat (redact_points word (code_points s))"

section \<open>Lines of the log\<close>

text \<open>
  The attribute of a record: a value of a basic type, a float with the text JSON has for it, or
  another object with its \<open>str\<close>.
\<close>

datatype log_value =
    LogNone
  | LogBool bool
  | LogInt int
  | LogFloat string
  | LogStr string
  | LogObject string

record log_record =
  logger_name :: string
  level_name :: string
  message :: string
  exception_type :: "string option"
  attributes :: "(string, log_value) dict"

definition STRUCTURED_LOG_FIELDS :: "string list" where
  "STRUCTURED_LOG_FIELDS = [''query_id'', ''caller_id'', ''tenant_id'', ''source_id'', ''operation'', ''fingerprint'',
     ''error_code'', ''reason_code'', ''cancel_reason'', ''queue_ms'', ''elapsed_ms'', ''row_count'',
     ''result_bytes'', ''truncated'', ''plan_total_cost'', ''plan_max_rows'', ''plan_node_count'',
     ''plan_cost_limit'', ''plan_rows_limit'', ''plan_nodes_limit'']"

definition is_database_dependency_logger :: "string \<Rightarrow> bool" where
  "is_database_dependency_logger name =
     list_ex (\<lambda>prefix. name = prefix \<or> py_starts (prefix @ ''.'') name) [''psycopg'', ''psycopg_pool'']"

definition log_field :: "(string \<Rightarrow> bool) \<Rightarrow> log_value \<Rightarrow> log_value" where
  "log_field word v = (case v of LogStr s \<Rightarrow> LogStr (redact word s) | LogObject s \<Rightarrow> LogStr (redact word s) | _ \<Rightarrow> v)"

fun log_json :: "log_value \<Rightarrow> string" where
  "log_json LogNone = ''null''"
| "log_json (LogBool b) = (if b then ''true'' else ''false'')"
| "log_json (LogInt i) = int_str i"
| "log_json (LogFloat s) = s"
| "log_json (LogStr s) = json_quote s"
| "log_json (LogObject s) = json_quote s"

text \<open>The payload, given the time; its fields are written in the order of their names.\<close>

definition log_payload :: "(string \<Rightarrow> bool) \<Rightarrow> string \<Rightarrow> log_record \<Rightarrow> (string, log_value) dict" where
  "log_payload word now r =
     (let database_dependency = is_database_dependency_logger (logger_name r);
          payload = [(''timestamp'', LogStr now), (''level'', LogStr (ascii_lower (level_name r))),
            (''logger'', LogStr (logger_name r)),
            (''event'', LogStr (if database_dependency then ''database_dependency_log'' else redact word (message r)))];
          payload = (case exception_type r of None \<Rightarrow> payload
                     | Some name \<Rightarrow> AList.update ''exception_type'' (LogStr name) payload)
      in if database_dependency then payload
         else foldl (\<lambda>payload field. case map_of (attributes r) field of
                None \<Rightarrow> payload | Some v \<Rightarrow> AList.update field (log_field word v) payload)
              payload STRUCTURED_LOG_FIELDS)"

fun intersperse :: "'a \<Rightarrow> 'a list \<Rightarrow> 'a list" where
  "intersperse x [] = []"
| "intersperse x [y] = [y]"
| "intersperse x (y # z # zs) = y # x # intersperse x (z # zs)"

definition log_line :: "(string, log_value) dict \<Rightarrow> string" where
  "log_line payload =
     ''{'' @ concat (intersperse '','' (map (\<lambda>(k, v). json_quote k @ '':'' @ log_json v) (sort_key fst payload))) @ ''}''"

definition safe_json_format :: "(string \<Rightarrow> bool) \<Rightarrow> string \<Rightarrow> log_record \<Rightarrow> string" where
  "safe_json_format word now r = log_line (log_payload word now r)"

section \<open>The handler of the process\<close>

datatype log_handler =
    SafeJsonHandler
  | OtherHandler string

record root_logger =
  root_handlers :: "log_handler list"
  root_level :: string

definition ascii_upper_text :: "string \<Rightarrow> string" where
  "ascii_upper_text s = map (\<lambda>c. let n = (of_char c :: nat) in if 97 \<le> n \<and> n \<le> 122 then char_of (n - 32) else c) s"

text \<open>\<open>setLevel\<close> raises for a name that is no level.\<close>

definition level_names :: "string list" where
  "level_names = [''CRITICAL'', ''FATAL'', ''ERROR'', ''WARN'', ''WARNING'', ''INFO'', ''DEBUG'', ''NOTSET'']"

definition configure_logging :: "string \<Rightarrow> root_logger \<Rightarrow> string + root_logger" where
  "configure_logging level root0 =
     (let root0 = root0\<lparr>root_handlers := [SafeJsonHandler]\<rparr>; name = ascii_upper_text level in
      if name \<in> set level_names then Inr (root0\<lparr>root_level := name\<rparr>) else Inl ''ValueError'')"

end
