(* ===== verification/LoggingSpec.thy ===== *)
theory LoggingSpec
  imports Logging
begin

text \<open>
  What the redaction of the log guarantees: a redacted text holds no bearer credential, and
  every quote of it but a last one without partner opens a masked literal; the line of a
  record has the allowed fields only, and for the loggers of the database driver nothing of
  the message.
\<close>

section \<open>Substitution\<close>

text \<open>A pattern consumes: what it matches is a non-empty prefix of the text.\<close>

definition consuming :: "pattern \<Rightarrow> bool" where
  "consuming m \<longleftrightarrow> (\<forall>prev s out rest. m prev s = Some (out, rest) \<longrightarrow> (\<exists>q. q \<noteq> [] \<and> s = q @ rest))"

lemma re_sub_matched:
  assumes "m prev (q @ r) = Some (out, r)" and "q \<noteq> []"
  shows "re_sub m prev (q @ r) = out @ re_sub m (Some (last q)) r"
proof -
  obtain c q' where q: "q = c # q'" using assms(2) by (cases q) auto
  have "take (length (c # q' @ r) - length r) (c # q' @ r) = q" using q by simp
  with assms(1) q show ?thesis by (simp add: Let_def)
qed

text \<open>The code point before the text that follows \<open>a\<close>.\<close>

definition before :: "string option \<Rightarrow> string list \<Rightarrow> string option" where
  "before prev a = (if a = [] then prev else Some (last a))"

lemma before_Cons [simp]: "before prev (c # a) = before (Some c) a"
  by (simp add: before_def)

text \<open>The first match, if any: nothing before it matches, and the substitution goes on after it.\<close>

definition unmatched :: "pattern \<Rightarrow> string option \<Rightarrow> string list \<Rightarrow> string list \<Rightarrow> bool" where
  "unmatched m prev p s \<longleftrightarrow> (\<forall>a b. p = a @ b \<and> b \<noteq> [] \<longrightarrow> m (before prev a) (b @ s) = None)"

lemma unmatched_Nil [simp]: "unmatched m prev [] s"
  by (simp add: unmatched_def)

lemma unmatched_Cons: "m prev (c # p @ s) = None \<Longrightarrow> unmatched m (Some c) p s \<Longrightarrow> unmatched m prev (c # p) s"
proof (unfold unmatched_def, intro allI impI, elim conjE)
  fix a b assume head: "m prev (c # p @ s) = None" and tail: "\<forall>a b. p = a @ b \<and> b \<noteq> [] \<longrightarrow> m (before (Some c) a) (b @ s) = None"
    and ab: "c # p = a @ b" "b \<noteq> []"
  show "m (before prev a) (b @ s) = None"
  proof (cases a)
    case Nil
    with ab head show ?thesis by (auto simp: before_def)
  next
    case (Cons d a')
    with ab have "d = c" "p = a' @ b" by simp_all
    with tail ab(2) Cons show ?thesis by simp
  qed
qed

definition first_match :: "pattern \<Rightarrow> string option \<Rightarrow> string list \<Rightarrow> string list \<Rightarrow> string list \<Rightarrow> string list \<Rightarrow> string list \<Rightarrow> bool" where
  "first_match m prev s p q r out \<longleftrightarrow>
     s = p @ q @ r \<and> q \<noteq> [] \<and> m (before prev p) (q @ r) = Some (out, r) \<and> unmatched m prev p (q @ r) \<and>
     re_sub m prev s = p @ out @ re_sub m (Some (last q)) r"

lemma re_sub_split:
  assumes "consuming m"
  shows "(unmatched m prev s [] \<and> re_sub m prev s = s) \<or> (\<exists>p q r out. first_match m prev s p q r out)"
proof (induction s arbitrary: prev)
  case (Cons c s)
  show ?case
  proof (cases "m prev (c # s)")
    case None
    from Cons.IH [of "Some c"] show ?thesis
    proof (elim disjE exE)
      assume "unmatched m (Some c) s [] \<and> re_sub m (Some c) s = s"
      with None show ?thesis by (simp add: unmatched_Cons)
    next
      fix p q r out assume f: "first_match m (Some c) s p q r out"
      with None have "first_match m prev (c # s) (c # p) q r out"
        unfolding first_match_def by (auto simp: unmatched_Cons)
      then show ?thesis by blast
    qed
  next
    case (Some a)
    obtain out rest where a: "a = (out, rest)" by (cases a)
    then obtain q where q: "q \<noteq> []" "c # s = q @ rest" using assms Some unfolding consuming_def by blast
    then have "first_match m prev (c # s) [] q rest out"
      using re_sub_matched [of m prev q rest out] Some a by (simp add: first_match_def before_def)
    then show ?thesis by blast
  qed
qed simp

lemmas re_sub_cases = re_sub_split [unfolded first_match_def]

lemma match_some_iff:
  "match_some P s = Some rest \<longleftrightarrow> (\<exists>q. q \<noteq> [] \<and> s = q @ rest \<and> list_all P q \<and> (rest = [] \<or> \<not> P (hd rest)))"
proof
  assume m: "match_some P s = Some rest"
  then have rest: "rest = dropWhile P s" "s \<noteq> []" "P (hd s)" by (auto simp: match_some_def split: list.splits if_splits)
  then have "s = takeWhile P s @ rest" "takeWhile P s \<noteq> []" "list_all P (takeWhile P s)"
    by (auto simp: list_all_iff takeWhile_eq_Nil_iff dest: set_takeWhileD)
  moreover have "rest = [] \<or> \<not> P (hd rest)" unfolding rest(1) using hd_dropWhile by blast
  ultimately show "\<exists>q. q \<noteq> [] \<and> s = q @ rest \<and> list_all P q \<and> (rest = [] \<or> \<not> P (hd rest))" by blast
next
  assume "\<exists>q. q \<noteq> [] \<and> s = q @ rest \<and> list_all P q \<and> (rest = [] \<or> \<not> P (hd rest))"
  then obtain q where q: "q \<noteq> []" "s = q @ rest" "list_all P q" "rest = [] \<or> \<not> P (hd rest)" by blast
  then obtain c q' where c: "q = c # q'" by (cases q) auto
  have "dropWhile P (q @ rest) = rest" using q(3,4) by (cases rest) (auto simp: list_all_iff dropWhile_append)
  with q c show "match_some P s = Some rest" by (simp add: match_some_def)
qed

lemma match_word_iff:
  "match_word w s = Some rest \<longleftrightarrow> (\<exists>k. s = k @ rest \<and> list_all2 letter_matches w k)"
proof (induction w s rule: match_word.induct)
  case (3 l ls c s)
  then show ?case by (auto simp: list_all2_Cons1 Cons_eq_append_conv)
qed (auto simp: list_all2_Cons1)

text \<open>A bearer credential: the word, spaces, and a first character of the token.\<close>

definition bearer_core :: "string list \<Rightarrow> bool" where
  "bearer_core w \<longleftrightarrow> (\<exists>k sp t. w = k @ sp @ [t] \<and> list_all2 letter_matches ''bearer'' k \<and>
     sp \<noteq> [] \<and> list_all is_space sp \<and> bearer_char t)"

definition has_bearer :: "string list \<Rightarrow> bool" where
  "has_bearer s \<longleftrightarrow> (\<exists>a w b. s = a @ w @ b \<and> bearer_core w)"

section \<open>Bearer credentials\<close>

lemma is_space_cases: "is_space c \<Longrightarrow> c \<in> set (map (map char_of) py_spaces)"
proof -
  assume "is_space c"
  then have "map char_of (map of_char c :: nat list) \<in> set (map (map char_of) py_spaces)"
    unfolding is_space_def by (metis image_eqI set_map)
  moreover have "map char_of (map of_char c :: nat list) = c" by (simp add: comp_def)
  ultimately show ?thesis by simp
qed

lemma space_not_bearer: "is_space c \<Longrightarrow> \<not> bearer_char c"
proof -
  have "list_all (\<lambda>c. \<not> bearer_char c) (map (map char_of) py_spaces)" by code_simp
  then show "is_space c \<Longrightarrow> \<not> bearer_char c" using is_space_cases unfolding list_all_iff by blast
qed

lemma match_bearer_core: "match_bearer s \<noteq> None \<longleftrightarrow> (\<exists>w b. s = w @ b \<and> bearer_core w)"
proof
  assume "match_bearer s \<noteq> None"
  then obtain s1 s2 s3 where m: "match_word ''bearer'' s = Some s1" "match_some is_space s1 = Some s2"
      "match_some bearer_char s2 = Some s3" by (auto simp: match_bearer_def bind_eq_Some_conv)
  obtain k where k: "s = k @ s1" "list_all2 letter_matches ''bearer'' k" using m(1) unfolding match_word_iff by blast
  obtain sp where sp: "sp \<noteq> []" "s1 = sp @ s2" "list_all is_space sp" using m(2) unfolding match_some_iff by blast
  obtain q where q: "q \<noteq> []" "s2 = q @ s3" "list_all bearer_char q" using m(3) unfolding match_some_iff by blast
  then obtain t q' where "q = t # q'" by (cases q) auto
  then have "s = (k @ sp @ [t]) @ q' @ s3" "bearer_char t" using k sp q by simp_all
  then show "\<exists>w b. s = w @ b \<and> bearer_core w" using k sp unfolding bearer_core_def by blast
next
  assume "\<exists>w b. s = w @ b \<and> bearer_core w"
  then obtain k sp t b where s: "s = k @ sp @ t # b" and k: "list_all2 letter_matches ''bearer'' k"
    and sp: "sp \<noteq> []" "list_all is_space sp" and t: "bearer_char t"
    unfolding bearer_core_def by auto
  have "match_word ''bearer'' s = Some (sp @ t # b)" using s k unfolding match_word_iff by blast
  moreover have "match_some is_space (sp @ t # b) = Some (t # b)"
    unfolding match_some_iff using sp t space_not_bearer by fastforce
  moreover have "match_some bearer_char (t # b) \<noteq> None" using t by (simp add: match_some_def)
  ultimately show "match_bearer s \<noteq> None" by (simp add: match_bearer_def)
qed

lemma has_bearer_parts: "has_bearer b \<Longrightarrow> has_bearer (a @ b @ c)"
  unfolding has_bearer_def by (metis append.assoc)

text \<open>A code point that no credential holds separates them.\<close>

definition bearer_part :: "string \<Rightarrow> bool" where
  "bearer_part z \<longleftrightarrow> (\<exists>w. bearer_core w \<and> z \<in> set w)"

lemma has_bearer_separated:
  assumes "has_bearer (a @ z # b)" and "\<not> bearer_part z"
  shows "has_bearer a \<or> has_bearer b"
proof -
  obtain x w y where w: "a @ z # b = x @ w @ y" "bearer_core w" using assms(1) unfolding has_bearer_def by blast
  then have z: "z \<notin> set w" using assms(2) unfolding bearer_part_def by blast
  from w(1) consider (left) us where "a = x @ us" "us @ z # b = w @ y" | (right) us where "a @ us = x" "z # b = us @ w @ y"
    unfolding append_eq_append_conv2 by blast
  then show ?thesis
  proof cases
    case left
    from left(2) consider vs where "us = w @ vs" | vs where "us @ vs = w" "z # b = vs @ y" "vs \<noteq> []"
      unfolding append_eq_append_conv2 by (metis append_Nil2)
    then show ?thesis
    proof cases
      case 1
      then show ?thesis using left(1) w(2) unfolding has_bearer_def by blast
    next
      case 2
      then have "z \<in> set w" by (cases vs) auto
      with z show ?thesis by simp
    qed
  next
    case right
    have "w \<noteq> []" using w(2) unfolding bearer_core_def by auto
    then have "us \<noteq> []" using right(2) z by (cases us; cases w) auto
    then obtain us' where "b = us' @ w @ y" using right(2) by (cases us) auto
    then show ?thesis using w(2) unfolding has_bearer_def by blast
  qed
qed

lemma list_all2_member: "list_all2 P xs ys \<Longrightarrow> y \<in> set ys \<Longrightarrow> \<exists>x \<in> set xs. P x y"
  by (induction rule: list_all2_induct) auto

lemma bearer_part_cases: "bearer_part z \<Longrightarrow> is_space z \<or> bearer_char z"
proof -
  assume "bearer_part z"
  then obtain k sp t where w: "list_all2 letter_matches ''bearer'' k" "list_all is_space sp" "bearer_char t"
      "z \<in> set k \<union> set sp \<union> {t}"
    unfolding bearer_part_def bearer_core_def by auto
  have "bearer_char z" if "z \<in> set k"
  proof -
    obtain l where "l \<in> set ''bearer''" "letter_matches l z"
      using list_all2_member [OF w(1) \<open>z \<in> set k\<close>] by blast
    moreover have "set ''bearer'' \<subseteq> set ''abcdefghijklmnopqrstuvwxyz''" by code_simp
    ultimately show ?thesis unfolding bearer_char_def by blast
  qed
  moreover have "is_space z" if "z \<in> set sp" using w(2) that unfolding list_all_iff by blast
  ultimately show "is_space z \<or> bearer_char z" using w(3,4) by blast
qed

lemma separators [simp]: "\<not> bearer_part ''[''" "\<not> bearer_part '']''" "\<not> bearer_part quote"
proof -
  have "list_all (\<lambda>z. \<not> is_space z \<and> \<not> bearer_char z) [''['', '']'', quote]" by code_simp
  then show "\<not> bearer_part ''[''" "\<not> bearer_part '']''" "\<not> bearer_part quote" using bearer_part_cases by auto
qed

lemma bearer_core_length: "bearer_core w \<Longrightarrow> 8 \<le> length w"
proof -
  assume "bearer_core w"
  then obtain k sp t where "w = k @ sp @ [t]" "list_all2 letter_matches ''bearer'' k" "sp \<noteq> []"
    unfolding bearer_core_def by blast
  moreover from this have "length k = 6" using list_all2_lengthD by fastforce
  moreover have "length sp \<ge> 1" using \<open>sp \<noteq> []\<close> by (cases sp) auto
  ultimately show "8 \<le> length w" by simp
qed

lemma has_bearer_length: "has_bearer s \<Longrightarrow> 8 \<le> length s"
  using bearer_core_length unfolding has_bearer_def by fastforce

lemma no_bearer_masked [simp]: "\<not> has_bearer (ascii_text ''REDACTED'')"
proof
  assume "has_bearer (ascii_text ''REDACTED'')"
  then obtain a w b where w: "ascii_text ''REDACTED'' = a @ w @ b" "bearer_core w" unfolding has_bearer_def by blast
  have "length (ascii_text ''REDACTED'') = 8" by (simp add: ascii_text_def)
  then have "length a + length w + length b = 8" unfolding w(1) by simp
  with bearer_core_length [OF w(2)] have "length a = 0" "length b = 0" by linarith+
  with w(1) have "w = ascii_text ''REDACTED''" by simp
  moreover have "match_bearer (ascii_text ''REDACTED'') = None" by code_simp
  ultimately show False using w(2) match_bearer_core [of "ascii_text ''REDACTED''"] by (metis append_Nil2)
qed

lemma masked_separated:
  "has_bearer (a @ ''['' # ascii_text ''REDACTED'' @ '']'' # b) \<Longrightarrow> has_bearer a \<or> has_bearer b"
  using has_bearer_separated [of a "''[''"] has_bearer_separated [of "ascii_text ''REDACTED''" "'']''" b] by auto

subsection \<open>The first pass removes them\<close>

lemma bearer_consuming: "consuming bearer_pattern"
proof (unfold consuming_def, intro allI impI)
  fix prev s out rest assume "bearer_pattern prev s = Some (out, rest)"
  then obtain s1 s2 where m: "match_word ''bearer'' s = Some s1" "match_some is_space s1 = Some s2"
      "match_some bearer_char s2 = Some rest" by (auto simp: bearer_pattern_def match_bearer_def bind_eq_Some_conv)
  obtain k sp q where "s = k @ s1" "s1 = sp @ s2" "sp \<noteq> []" "s2 = q @ rest"
    using m unfolding match_some_iff match_word_iff by blast
  then show "\<exists>q. q \<noteq> [] \<and> s = q @ rest" by (intro exI [of _ "k @ sp @ q"]) simp
qed

text \<open>
  A credential cannot begin before the match and reach into the replacement: its word does not
  continue with the \<open>B\<close>, and where its token would begin with the \<open>B\<close> the text had one too.
\<close>

lemma no_capital_B: "l \<in> set ''earer'' \<Longrightarrow> \<not> letter_matches l ''B''"
proof -
  have "list_all (\<lambda>l. \<not> letter_matches l ''B'') ''earer''" by code_simp
  then show "l \<in> set ''earer'' \<Longrightarrow> \<not> letter_matches l ''B''" unfolding list_all_iff by blast
qed

lemma core_reaching_B:
  assumes w: "bearer_core w" and split: "w = p @ x" "p \<noteq> []" "x \<noteq> []" "hd x = ''B''" and c: "bearer_char c"
  shows "bearer_core (p @ [c])"
proof -
  obtain k sp t where w': "w = k @ sp @ [t]" and k: "list_all2 letter_matches ''bearer'' k"
    and sp: "sp \<noteq> []" "list_all is_space sp" and t: "bearer_char t"
    using w unfolding bearer_core_def by blast
  have B: "\<not> is_space ''B''" by code_simp
  from w' split(1) have "k @ sp @ [t] = p @ x" by simp
  then consider us where "k = p @ us" "us \<noteq> []" "us @ sp @ [t] = x" | us where "k @ us = p" "sp @ [t] = us @ x"
    unfolding append_eq_append_conv2 by (metis append_Nil2 append_Nil)
  then show ?thesis
  proof cases
    case 1
    then obtain u us' where us: "us = u # us'" by (cases us) auto
    have "u = ''B''" using 1 us split(4) by auto
    moreover obtain l1 l2 where l: "''bearer'' = l1 @ l2" "list_all2 letter_matches l1 p" "list_all2 letter_matches l2 us"
      using k unfolding 1(1) list_all2_append2 by blast
    moreover obtain l l2' where l2: "l2 = l # l2'" "letter_matches l u" using l(3) us by (auto simp: list_all2_Cons2)
    moreover have "l1 \<noteq> []" using l(2) split(2) by auto
    then have "l \<in> set ''earer''" using l(1) l2(1) by (cases l1) auto
    ultimately show ?thesis using no_capital_B by blast
  next
    case 2
    from 2(2) consider vs where "sp = us @ vs" "vs @ [t] = x" | vs where "sp @ vs = us" "[t] = vs @ x"
      unfolding append_eq_append_conv2 by metis
    then have "us = sp"
    proof cases
      case 1
      have "vs = []"
      proof (rule ccontr)
        assume "vs \<noteq> []"
        then have "hd vs = ''B''" "is_space (hd vs)" using 1 split(4) sp(2) by (auto simp: list_all_iff)
        with B show False by simp
      qed
      with 1 show ?thesis by simp
    next
      case 2
      then have "vs = []" using split(3) by (cases vs) auto
      with 2 show ?thesis by simp
    qed
    then have "p @ [c] = k @ sp @ [c]" using 2(1) by auto
    then show ?thesis using k sp c unfolding bearer_core_def by blast
  qed
qed

lemma no_match_no_core: "unmatched bearer_pattern prev p s \<Longrightarrow> p @ s = a @ w @ y \<Longrightarrow> length a < length p \<Longrightarrow> \<not> bearer_core w"
proof
  assume un: "unmatched bearer_pattern prev p s" and eq: "p @ s = a @ w @ y" and len: "length a < length p" and w: "bearer_core w"
  define b where "b = drop (length a) p"
  have "take (length a) (p @ s) = a" unfolding eq by simp
  then have p: "p = a @ b" "b \<noteq> []" using len by (simp_all add: b_def) (metis append_take_drop_id)
  then have "b @ s = w @ y" using eq by simp
  moreover have "bearer_pattern (before prev a) (b @ s) = None" using un p unfolding unmatched_def by blast
  ultimately have "match_bearer (w @ y) = None" by (simp add: bearer_pattern_def)
  then show False using match_bearer_core [of "w @ y"] w by blast
qed

lemma bearer_pass: "\<not> has_bearer (re_sub bearer_pattern prev s)"
proof (induction s arbitrary: prev rule: length_induct)
  case (1 s)
  from re_sub_cases [OF bearer_consuming, of prev s] show ?case
  proof (elim disjE exE conjE)
    assume un: "unmatched bearer_pattern prev s []" and same: "re_sub bearer_pattern prev s = s"
    show ?thesis unfolding same
    proof
      assume "has_bearer s"
      then obtain a w y where w: "s = a @ w @ y" "bearer_core w" unfolding has_bearer_def by blast
      moreover have "length a < length s" using w bearer_core_length [OF w(2)] by auto
      ultimately show False using no_match_no_core [OF un, of a w y] by simp
    qed
  next
    fix p q r out
    assume s: "s = p @ q @ r" "q \<noteq> []" and m: "bearer_pattern (before prev p) (q @ r) = Some (out, r)"
      and un: "unmatched bearer_pattern prev p (q @ r)"
      and sub: "re_sub bearer_pattern prev s = p @ out @ re_sub bearer_pattern (Some (last q)) r"
    have out: "out = ascii_text ''Bearer '' @ ''['' # ascii_text ''REDACTED'' @ '']'' # []"
      using m by (auto simp: bearer_pattern_def ascii_text_def)
    have rest: "\<not> has_bearer (re_sub bearer_pattern (Some (last q)) r)"
      using 1 s by (cases q) auto
    obtain w0 where w0: "bearer_core w0" "\<exists>b. q @ r = w0 @ b"
      using match_bearer_core [of "q @ r"] m by (auto simp: bearer_pattern_def)
    then obtain c where c: "letter_matches CHR ''b'' c" "hd (q @ r) = c"
      unfolding bearer_core_def by (auto simp: list_all2_Cons1)
    have c2: "bearer_char c" using c(1) unfolding bearer_char_def by auto
    have "\<not> has_bearer (p @ ascii_text ''Bearer '')"
    proof
      assume "has_bearer (p @ ascii_text ''Bearer '')"
      then obtain a w y where w: "p @ ascii_text ''Bearer '' = a @ w @ y" "bearer_core w" unfolding has_bearer_def by blast
      have "length (p @ ascii_text ''Bearer '') = length p + 7" by (simp add: ascii_text_def)
      then have len: "length a < length p" unfolding w(1) using bearer_core_length [OF w(2)] by simp
      define b where "b = drop (length a) p"
      have "take (length a) (p @ ascii_text ''Bearer '') = a" unfolding w(1) by simp
      then have p: "p = a @ b" "b \<noteq> []" using len by (simp_all add: b_def) (metis append_take_drop_id)
      then have split: "b @ ascii_text ''Bearer '' = w @ y" using w(1) by simp
      from split consider us where "b = w @ us" | us where "b @ us = w" "us \<noteq> []" "ascii_text ''Bearer '' = us @ y"
        unfolding append_eq_append_conv2 by (metis append_Nil2)
      then show False
      proof cases
        case 1
        then have "p @ q @ r = a @ w @ us @ q @ r" using p by simp
        with no_match_no_core [OF un _ len] w(2) show False by blast
      next
        case 2
        have "hd us = ''B''" using 2 by (cases us) (auto simp: ascii_text_def)
        then have core: "bearer_core (b @ [c])" using core_reaching_B [OF w(2) _ p(2) 2(2)] 2(1) c2 by simp
        have "q @ r = c # tl (q @ r)" using c(2) s(2) by (cases q) auto
        then have "p @ q @ r = a @ (b @ [c]) @ tl (q @ r)" using p by simp
        with no_match_no_core [OF un _ len] core show False by blast
      qed
    qed
    moreover have "re_sub bearer_pattern prev s =
        (p @ ascii_text ''Bearer '') @ ''['' # ascii_text ''REDACTED'' @ '']'' # re_sub bearer_pattern (Some (last q)) r"
      unfolding sub out by simp
    ultimately show ?thesis using rest masked_separated by metis
  qed
qed

subsection \<open>The later passes add none\<close>

lemma secret_word_match:
  assumes "match_secret_word s = Some r"
  shows "\<exists>k w. s = k @ r \<and> w \<in> set secret_words \<and> list_all2 letter_matches w k"
proof -
  have "r \<in> set (List.map_filter (\<lambda>w. match_word w s) secret_words)"
    using assms by (auto simp: match_secret_word_def split: list.splits)
  then obtain w where "w \<in> set secret_words" "match_word w s = Some r" by (auto simp: List.map_filter_def)
  then show ?thesis unfolding match_word_iff by blast
qed

lemma secret_match:
  assumes "secret_pattern word prev s = Some (out, rest)"
  shows "\<exists>k v w. s = k @ v @ rest \<and> out = k @ ascii_text ''=[REDACTED]'' \<and> w \<in> set secret_words \<and>
    list_all2 letter_matches w k"
proof -
  obtain r where r: "match_secret_word s = Some r" "secret_value r = Some rest"
    and out: "out = take (length s - length r) s @ ascii_text ''=[REDACTED]''"
    using assms by (auto simp: secret_pattern_def split: if_splits option.splits)
  obtain k w where k: "s = k @ r" "w \<in> set secret_words" "list_all2 letter_matches w k"
    using secret_word_match [OF r(1)] by blast
  obtain c s1 where c: "dropWhile is_space r = c # s1" "match_some (\<lambda>c. \<not> separator c) (dropWhile is_space s1) = Some rest"
    using r(2) by (auto simp: secret_value_def split: list.splits if_splits)
  obtain q where q: "dropWhile is_space s1 = q @ rest" using c(2) unfolding match_some_iff by blast
  have "r = takeWhile is_space r @ c # takeWhile is_space s1 @ q @ rest"
    by (metis c(1) q takeWhile_dropWhile_id)
  then have "s = k @ (takeWhile is_space r @ c # takeWhile is_space s1 @ q) @ rest" using k(1) by simp
  moreover have "out = k @ ascii_text ''=[REDACTED]''" using out k(1) by simp
  ultimately show ?thesis using k(2,3) by blast
qed

lemma secret_word_letters: "w \<in> set secret_words \<Longrightarrow> list_all2 letter_matches w k \<Longrightarrow> k \<noteq> [] \<and> \<not> is_space (last k)"
proof -
  assume w: "w \<in> set secret_words" "list_all2 letter_matches w k"
  then have ne: "w \<noteq> []" "k \<noteq> []" "last w \<in> set ''abcdefghijklmnopqrstuvwxyz''" by (auto simp: secret_words_def)
  then have "letter_matches (last w) (last k)"
    using w(2) by (simp add: last_conv_nth list_all2_conv_all_nth)
  then have "bearer_char (last k)" using ne(3) unfolding bearer_char_def by blast
  with ne(2) space_not_bearer show ?thesis by blast
qed

lemma secret_consuming: "consuming (secret_pattern word)"
  unfolding consuming_def
proof (intro allI impI)
  fix prev s out rest assume "secret_pattern word prev s = Some (out, rest)"
  from secret_match [OF this] show "\<exists>q. q \<noteq> [] \<and> s = q @ rest"
  proof (elim exE conjE)
    fix k v w assume "s = k @ v @ rest" "w \<in> set secret_words" "list_all2 letter_matches w k"
    then have "k @ v \<noteq> [] \<and> s = (k @ v) @ rest" using secret_word_letters [of w k] by auto
    then show ?thesis by blast
  qed
qed

lemma secret_pass: "\<not> has_bearer s \<Longrightarrow> \<not> has_bearer (re_sub (secret_pattern word) prev s)"
proof (induction s arbitrary: prev rule: length_induct)
  case (1 s)
  from re_sub_cases [OF secret_consuming, of word prev s] show ?case
  proof (elim disjE exE conjE)
    fix p q r out
    assume s: "s = p @ q @ r" "q \<noteq> []" and m: "secret_pattern word (before prev p) (q @ r) = Some (out, r)"
      and sub: "re_sub (secret_pattern word) prev s = p @ out @ re_sub (secret_pattern word) (Some (last q)) r"
    obtain k v w where k: "q @ r = k @ v @ r" "out = k @ ascii_text ''=[REDACTED]''" "w \<in> set secret_words"
        "list_all2 letter_matches w k" using secret_match [OF m] by blast
    have parts: "\<not> has_bearer (p @ k)" "\<not> has_bearer r"
      using "1.prems" has_bearer_parts [of "p @ k" "[]" "v @ r"] has_bearer_parts [of r "p @ q" "[]"] s(1) k(1) by auto
    have rest: "\<not> has_bearer (re_sub (secret_pattern word) (Some (last q)) r)"
      using "1.IH" s parts(2) by (cases q) auto
    have "\<not> has_bearer (p @ k @ [''=''])"
    proof
      assume "has_bearer (p @ k @ [''=''])"
      then obtain a w' y where w': "p @ k @ [''=''] = a @ w' @ y" "bearer_core w'" unfolding has_bearer_def by blast
      show False
      proof (cases y rule: rev_cases)
        case Nil
        obtain k' sp t where core: "w' = k' @ sp @ [t]" "sp \<noteq> []" "list_all is_space sp"
          using w'(2) unfolding bearer_core_def by blast
        have "p @ k = a @ k' @ sp" using w'(1) Nil core(1) by simp
        then have "last (p @ k) = last (a @ k' @ sp)" by (rule arg_cong)
        then have "last k = last sp" using core(2) secret_word_letters [OF k(3,4), THEN conjunct1] by (simp only: last_appendR append_is_Nil_conv simp_thms)
        moreover have "is_space (last sp)" using core(2,3) last_in_set [of sp] unfolding list_all_iff by blast
        ultimately show False using secret_word_letters [OF k(3,4)] by metis
      next
        case (snoc y' z)
        then have "p @ k = a @ w' @ y'" using w'(1) by (simp flip: append_assoc)
        with w'(2) parts(1) show False unfolding has_bearer_def by blast
      qed
    qed
    moreover have "re_sub (secret_pattern word) prev s = (p @ k @ [''='']) @ ''['' # ascii_text ''REDACTED'' @ '']'' #
        re_sub (secret_pattern word) (Some (last q)) r"
      unfolding sub k(2) by (simp add: ascii_text_def)
    ultimately show ?thesis using rest masked_separated by metis
  qed (use "1.prems" in simp)
qed

lemma close_literal_suffix: "close_literal s = Some rest \<Longrightarrow> \<exists>q. s = q @ rest"
proof (induction s rule: close_literal.induct)
  case (2 c s)
  show ?case
  proof (cases "c = quote \<and> (\<exists>s'. s = quote # s')")
    case True
    then obtain s' where s': "c = quote" "s = quote # s'" by blast
    then consider "close_literal s' = Some rest" | "rest = quote # s'"
      using "2.prems" by (auto split: option.splits)
    then show ?thesis
    proof cases
      case 1
      then obtain q where "s' = q @ rest" using 2(2) s' by blast
      then have "c # s = (c # quote # q) @ rest" using s' by simp
      then show ?thesis by blast
    next
      case 2
      then have "c # s = [c] @ rest" using s' by simp
      then show ?thesis by blast
    qed
  next
    case False
    then have "rest = s \<or> (\<exists>q. s = q @ rest)" using 2 by (auto split: if_splits list.splits)
    then show ?thesis by (metis append_Cons append_Nil)
  qed
qed simp

lemma literal_match:
  assumes "literal_pattern prev s = Some (out, rest)"
  shows "\<exists>q. s = quote # q @ rest \<and> out = quote # ascii_text ''[REDACTED]'' @ [quote]"
  using assms close_literal_suffix by (auto simp: literal_pattern_def split: list.splits if_splits)

lemma literal_consuming: "consuming literal_pattern"
  unfolding consuming_def using literal_match by (metis append_Cons list.distinct(1))

lemma literal_pass: "\<not> has_bearer s \<Longrightarrow> \<not> has_bearer (re_sub literal_pattern prev s)"
proof (induction s arbitrary: prev rule: length_induct)
  case (1 s)
  from re_sub_cases [OF literal_consuming, of prev s] show ?case
  proof (elim disjE exE conjE)
    fix p q r out
    assume s: "s = p @ q @ r" "q \<noteq> []" and m: "literal_pattern (before prev p) (q @ r) = Some (out, r)"
      and sub: "re_sub literal_pattern prev s = p @ out @ re_sub literal_pattern (Some (last q)) r"
    have out: "out = quote # ascii_text ''[REDACTED]'' @ [quote]" using literal_match [OF m] by blast
    have parts: "\<not> has_bearer p" "\<not> has_bearer r"
      using "1.prems" has_bearer_parts [of p "[]" "q @ r"] has_bearer_parts [of r "p @ q" "[]"] s(1) by auto
    have rest: "\<not> has_bearer (re_sub literal_pattern (Some (last q)) r)" using "1.IH" s parts(2) by (cases q) auto
    have left: "\<not> has_bearer (p @ [quote])" using has_bearer_separated [of p quote "[]"] parts(1) has_bearer_length [of "[]"] by auto
    have right: "\<not> has_bearer (quote # re_sub literal_pattern (Some (last q)) r)"
      using has_bearer_separated [of "[]" quote] rest has_bearer_length [of "[]"] by auto
    have "re_sub literal_pattern prev s = (p @ [quote]) @ ''['' # ascii_text ''REDACTED'' @ '']'' #
        (quote # re_sub literal_pattern (Some (last q)) r)"
      unfolding sub out by (simp add: ascii_text_def)
    then show ?thesis using left right masked_separated by metis
  qed (use "1.prems" in simp)
qed

lemma redacted_no_bearer: "\<not> has_bearer (redact_points word s)"
  unfolding redact_points_def by (intro literal_pass secret_pass bearer_pass)

section \<open>Literals\<close>

text \<open>Every quote opens a masked literal, but perhaps a last one that has no partner.\<close>

function masked :: "string list \<Rightarrow> bool" where
  "masked [] = True"
| "masked (c # s) =
     (if c \<noteq> quote then masked s
      else if take 11 s = ascii_text ''[REDACTED]'' @ [quote] then masked (drop 11 s)
      else quote \<notin> set s)"
  by pat_completeness auto
termination by (relation "measure length") auto

lemma close_literal_None: "close_literal s = None \<longleftrightarrow> quote \<notin> set s"
  by (induction s rule: close_literal.induct) (auto split: list.splits option.splits)

lemma masked_append: "quote \<notin> set p \<Longrightarrow> masked (p @ s) = masked s"
  by (induction p) auto

lemma masked_literal: "masked (quote # ascii_text ''[REDACTED]'' @ quote # s) = masked s"
proof -
  have "length (ascii_text ''[REDACTED]'') = 10" by (simp add: ascii_text_def)
  then have "take 11 (ascii_text ''[REDACTED]'' @ quote # s) = ascii_text ''[REDACTED]'' @ [quote]"
    "drop 11 (ascii_text ''[REDACTED]'' @ quote # s) = s" by simp_all
  then show ?thesis by simp
qed

lemma masked_last_quote: "quote \<notin> set s \<Longrightarrow> masked (quote # s)"
proof -
  assume s: "quote \<notin> set s"
  have "take 11 s \<noteq> ascii_text ''[REDACTED]'' @ [quote]"
  proof
    assume "take 11 s = ascii_text ''[REDACTED]'' @ [quote]"
    then have "quote \<in> set (take 11 s)" by simp
    with s show False using in_set_takeD by fastforce
  qed
  with s show "masked (quote # s)" by simp
qed

text \<open>Where the pattern does not match, no quote follows a quote.\<close>

lemma unmatched_literal:
  assumes "unmatched literal_pattern prev p s" and "p = a @ quote # b"
  shows "quote \<notin> set (b @ s)"
proof -
  have "literal_pattern (before prev a) ((quote # b) @ s) = None"
    using assms unfolding unmatched_def by blast
  then show ?thesis by (simp add: literal_pattern_def close_literal_None)
qed

lemma literal_pass_masked: "masked (re_sub literal_pattern prev s)"
proof (induction s arbitrary: prev rule: length_induct)
  case (1 s)
  from re_sub_cases [OF literal_consuming, of prev s] show ?case
  proof (elim disjE exE conjE)
    assume un: "unmatched literal_pattern prev s []" and same: "re_sub literal_pattern prev s = s"
    show ?thesis
    proof (cases "quote \<in> set s")
      case False
      then show ?thesis unfolding same using masked_append [of s "[]"] by simp
    next
      case True
      then obtain a b where s: "s = a @ quote # b" "quote \<notin> set a" by (meson split_list_first)
      then show ?thesis unfolding same using unmatched_literal [OF un s(1)] masked_last_quote masked_append by simp
    qed
  next
    fix p q r out
    assume s: "s = p @ q @ r" "q \<noteq> []" and m: "literal_pattern (before prev p) (q @ r) = Some (out, r)"
      and un: "unmatched literal_pattern prev p (q @ r)"
      and sub: "re_sub literal_pattern prev s = p @ out @ re_sub literal_pattern (Some (last q)) r"
    have q: "quote \<in> set (q @ r)" and out: "out = quote # ascii_text ''[REDACTED]'' @ [quote]"
      using literal_match [OF m] by auto
    have "quote \<notin> set p"
    proof
      assume "quote \<in> set p"
      then obtain a b where "p = a @ quote # b" by (meson split_list)
      with unmatched_literal [OF un this] q show False by simp
    qed
    moreover have "masked (re_sub literal_pattern (Some (last q)) r)" using "1.IH" s by (cases q) auto
    ultimately show ?thesis unfolding sub out using masked_append masked_literal by simp
  qed
qed

section \<open>Texts\<close>

text \<open>A text of the program begins with a whole code point.\<close>

definition whole_text :: "string \<Rightarrow> bool" where
  "whole_text s \<longleftrightarrow> (case s of [] \<Rightarrow> True | b # _ \<Rightarrow> \<not> utf8_continuation b)"

definition whole_point :: "string \<Rightarrow> bool" where
  "whole_point c \<longleftrightarrow> (case c of [] \<Rightarrow> False | b # t \<Rightarrow> \<not> utf8_continuation b \<and> list_all utf8_continuation t)"

lemma whole_text_hd: "whole_text s \<longleftrightarrow> s = [] \<or> \<not> utf8_continuation (hd s)"
  by (cases s) (simp_all add: whole_text_def)

lemma code_points_concat: "list_all whole_point ps \<Longrightarrow> whole_text (concat ps) \<and> code_points (concat ps) = ps"
proof (induction ps)
  case (Cons c ps)
  then obtain b t where c: "c = b # t" "\<not> utf8_continuation b" "list_all utf8_continuation t"
    by (auto simp: whole_point_def split: list.splits)
  have rest: "takeWhile utf8_continuation (concat ps) = []" "dropWhile utf8_continuation (concat ps) = concat ps"
    using Cons by (cases "concat ps"; simp add: whole_text_def)+
  have "takeWhile utf8_continuation (t @ concat ps) = t" "dropWhile utf8_continuation (t @ concat ps) = concat ps"
    using c(3) rest by (simp_all add: list_all_iff takeWhile_append2 dropWhile_append2)
  with Cons c show ?case by (simp add: whole_text_def)
qed (simp add: whole_text_def)

lemma code_points_whole: "whole_text s \<Longrightarrow> list_all whole_point (code_points s)"
proof (induction s rule: code_points.induct)
  case (2 b s)
  have "whole_text (dropWhile utf8_continuation s)"
    unfolding whole_text_hd using hd_dropWhile by blast
  with 2(1) have "list_all whole_point (code_points (dropWhile utf8_continuation s))" by blast
  moreover have "whole_point (b # takeWhile utf8_continuation s)"
    using 2(2) by (auto simp: whole_point_def whole_text_def list_all_iff dest: set_takeWhileD)
  ultimately show ?case by simp
qed simp

lemma re_sub_whole:
  assumes "consuming m" and "list_all whole_point s"
    and "\<And>prev s out rest. list_all whole_point s \<Longrightarrow> m prev s = Some (out, rest) \<Longrightarrow> list_all whole_point out"
  shows "list_all whole_point (re_sub m prev s)"
  using assms(2)
proof (induction s arbitrary: prev rule: length_induct)
  case (1 s)
  from re_sub_cases [OF assms(1), of prev s] show ?case
  proof (elim disjE exE conjE)
    fix p q r out
    assume s: "s = p @ q @ r" "q \<noteq> []" and m: "m (before prev p) (q @ r) = Some (out, r)"
      and sub: "re_sub m prev s = p @ out @ re_sub m (Some (last q)) r"
    have parts: "list_all whole_point p" "list_all whole_point (q @ r)" "list_all whole_point r" using "1.prems" s by simp_all
    have "list_all whole_point out" by (rule assms(3) [OF parts(2) m])
    moreover have "list_all whole_point (re_sub m (Some (last q)) r)" using "1.IH" parts(3) s by (cases q) auto
    ultimately show ?thesis unfolding sub using parts(1) by simp
  qed (use "1.prems" in simp)
qed

lemma ascii_whole [simp]:
  "list_all whole_point (ascii_text ''Bearer [REDACTED]'')" "list_all whole_point (ascii_text ''=[REDACTED]'')"
  "list_all whole_point (quote # ascii_text ''[REDACTED]'' @ [quote])"
  by code_simp+

lemma redact_points_whole:
  assumes "list_all whole_point s"
  shows "list_all whole_point (redact_points word s)"
proof -
  have 1: "list_all whole_point (re_sub bearer_pattern None s)"
    by (rule re_sub_whole [OF bearer_consuming assms]) (auto simp: bearer_pattern_def)
  have 2: "list_all whole_point (re_sub (secret_pattern word) None (re_sub bearer_pattern None s))"
  proof (rule re_sub_whole [OF secret_consuming 1])
    fix prev s out rest assume s: "list_all whole_point s" and "secret_pattern word prev s = Some (out, rest)"
    from secret_match [OF this(2)] show "list_all whole_point out"
      by (elim exE conjE) (use s in simp)
  qed
  show ?thesis unfolding redact_points_def
  proof (rule re_sub_whole [OF literal_consuming 2])
    fix prev s out rest assume "literal_pattern prev s = Some (out, rest)"
    from literal_match [OF this] show "list_all whole_point out" by (elim exE conjE) (simp only: ascii_whole)
  qed
qed

definition clean_text :: "string \<Rightarrow> bool" where
  "clean_text s \<longleftrightarrow> \<not> has_bearer (code_points s) \<and> masked (code_points s)"

lemma redact_clean: "whole_text s \<Longrightarrow> clean_text (redact word s)"
proof -
  assume "whole_text s"
  then have "list_all whole_point (redact_points word (code_points s))"
    by (intro redact_points_whole code_points_whole)
  then have "code_points (redact word s) = redact_points word (code_points s)"
    unfolding redact_def using code_points_concat by blast
  then show "clean_text (redact word s)" unfolding clean_text_def
    using redacted_no_bearer literal_pass_masked by (simp add: redact_points_def)
qed


definition example_message :: string where
  "example_message = ''BEARER  ab.c where name = '' @ quote @ ''O'' @ quote @ quote @ ''Hara'' @ quote @ '' and''"


section \<open>Lines of the log\<close>

definition driver_fields :: "string list" where
  "driver_fields = [''timestamp'', ''level'', ''logger'', ''event'', ''exception_type'']"

definition whole_record :: "log_record \<Rightarrow> bool" where
  "whole_record r \<longleftrightarrow> whole_text (message r) \<and>
     (\<forall>(k, v) \<in> set (attributes r). \<forall>s. v = LogStr s \<or> v = LogObject s \<longrightarrow> whole_text s)"

text \<open>A value the line may hold: not an object, and clean when it is a text.\<close>

definition safe_value :: "log_value \<Rightarrow> bool" where
  "safe_value v \<longleftrightarrow> (case v of LogObject s \<Rightarrow> False | LogStr s \<Rightarrow> clean_text s | _ \<Rightarrow> True)"

lemma log_field_safe: "whole_record r \<Longrightarrow> map_of (attributes r) k = Some v \<Longrightarrow> safe_value (log_field word v)"
  by (cases v) (auto simp: whole_record_def safe_value_def log_field_def dest!: map_of_SomeD intro!: redact_clean)

definition given_fields :: "string list" where
  "given_fields = [''timestamp'', ''level'', ''logger'', ''exception_type'']"

definition payload_ok :: "string list \<Rightarrow> (string, log_value) dict \<Rightarrow> bool" where
  "payload_ok allowed payload \<longleftrightarrow>
     distinct (map fst payload) \<and>
     (\<forall>(k, v) \<in> set payload. k \<in> set allowed \<and> (\<forall>s. v \<noteq> LogObject s) \<and>
        (k \<notin> set given_fields \<longrightarrow> safe_value v))"

lemma payload_ok_update:
  assumes "payload_ok allowed payload" and "k \<in> set allowed" and "\<forall>s. v \<noteq> LogObject s"
    and "k \<in> set given_fields \<or> safe_value v"
  shows "payload_ok allowed (AList.update k v payload)"
proof -
  have d: "distinct (map fst payload)" using assms(1) unfolding payload_ok_def by blast
  then have d': "distinct (map fst (AList.update k v payload))" by (rule distinct_update)
  have "(x, y) = (k, v) \<or> (x, y) \<in> set payload" if "(x, y) \<in> set (AList.update k v payload)" for x y
  proof -
    have "map_of (AList.update k v payload) x = Some y" using that d' by simp
    then show ?thesis by (cases "x = k") (auto simp: update_conv' dest: map_of_SomeD)
  qed
  with assms d' show ?thesis unfolding payload_ok_def by blast
qed

lemma payload_ok_fields:
  assumes "payload_ok allowed payload" and "whole_record r" and "set keys \<subseteq> set allowed"
  shows "payload_ok allowed (foldl (\<lambda>payload field. case map_of (attributes r) field of
      None \<Rightarrow> payload | Some v \<Rightarrow> AList.update field (log_field word v) payload) payload keys)"
  using assms(1,3)
proof (induction keys arbitrary: payload)
  case (Cons k keys)
  show ?case
  proof (cases "map_of (attributes r) k")
    case None
    with Cons show ?thesis by simp
  next
    case (Some v)
    have "safe_value (log_field word v)" by (rule log_field_safe [OF assms(2) Some])
    moreover from this have "\<forall>s. log_field word v \<noteq> LogObject s" by (auto simp: safe_value_def)
    ultimately have "payload_ok allowed (AList.update k (log_field word v) payload)"
      using Cons.prems by (intro payload_ok_update) auto
    with Cons Some show ?thesis by simp
  qed
qed simp

lemma clean_driver_event: "clean_text ''database_dependency_log''"
proof -
  have "code_points ''database_dependency_log'' = ascii_text ''database_dependency_log''" by code_simp
  moreover have "redact_points (\<lambda>_. False) (ascii_text ''database_dependency_log'') = ascii_text ''database_dependency_log''"
    by code_simp
  moreover have "masked (ascii_text ''database_dependency_log'')" by code_simp
  ultimately show ?thesis using redacted_no_bearer unfolding clean_text_def by metis
qed

definition base_payload :: "string \<Rightarrow> log_record \<Rightarrow> string \<Rightarrow> (string, log_value) dict" where
  "base_payload now r event0 =
     (let payload = [(''timestamp'', LogStr now), (''level'', LogStr (ascii_lower (level_name r))),
            (''logger'', LogStr (logger_name r)), (''event'', LogStr event0)]
      in case exception_type r of None \<Rightarrow> payload
         | Some name \<Rightarrow> AList.update ''exception_type'' (LogStr name) payload)"

lemma log_payload_base:
  "log_payload word now r =
     (if is_database_dependency_logger (logger_name r) then base_payload now r ''database_dependency_log''
      else foldl (\<lambda>payload field. case map_of (attributes r) field of
                None \<Rightarrow> payload | Some v \<Rightarrow> AList.update field (log_field word v) payload)
              (base_payload now r (redact word (message r))) STRUCTURED_LOG_FIELDS)"
  by (simp add: log_payload_def base_payload_def Let_def)

lemma base_payload_ok:
  assumes "clean_text event0" and "set driver_fields \<subseteq> set allowed"
  shows "payload_ok allowed (base_payload now r event0)"
proof -
  have "payload_ok allowed [(''timestamp'', LogStr now), (''level'', LogStr l), (''logger'', LogStr n), (''event'', LogStr event0)]" for l n
    using assms by (simp add: payload_ok_def driver_fields_def safe_value_def given_fields_def)
  moreover have "''exception_type'' \<in> set allowed" using assms(2) by (auto simp: driver_fields_def)
  moreover have "''exception_type'' \<in> set given_fields" by (simp add: given_fields_def)
  ultimately show ?thesis unfolding base_payload_def Let_def
    by (cases "exception_type r") (simp_all only: option.case, blast intro: payload_ok_update)
qed

text \<open>
  C35: the line of a record. It has each field at most once, only the five of every record and
  the twenty structured ones, with values of the basic types only; every text but the time, the
  level, the logger and the exception type is redacted, whatever object it came from. A record of
  the database driver has the five fields only, and nothing of its message and attributes: two
  records that agree on logger, level and exception type give the same line.
\<close>
theorem log_line_typed:
  assumes "whole_record r"
  shows "payload_ok (driver_fields @ STRUCTURED_LOG_FIELDS) (log_payload word now r) \<and>
    (is_database_dependency_logger (logger_name r) \<longrightarrow>
       payload_ok driver_fields (log_payload word now r) \<and>
       (\<forall>r' :: log_record. logger_name r' = logger_name r \<and> level_name r' = level_name r \<and> exception_type r' = exception_type r \<longrightarrow>
          safe_json_format word now r' = safe_json_format word now r))"
proof (intro conjI impI allI)
  have message: "clean_text (redact word (message r))" using assms redact_clean unfolding whole_record_def by blast
  have all: "payload_ok (driver_fields @ STRUCTURED_LOG_FIELDS) (base_payload now r event0)" if "clean_text event0" for event0
    by (rule base_payload_ok [OF that]) auto
  show "payload_ok (driver_fields @ STRUCTURED_LOG_FIELDS) (log_payload word now r)"
    unfolding log_payload_base
    using all [OF clean_driver_event] payload_ok_fields [OF all [OF message] assms] by simp
  assume driver: "is_database_dependency_logger (logger_name r)"
  then show "payload_ok driver_fields (log_payload word now r)"
    unfolding log_payload_base using base_payload_ok [OF clean_driver_event] by simp
  fix r' :: log_record assume "logger_name r' = logger_name r \<and> level_name r' = level_name r \<and> exception_type r' = exception_type r"
  then show "safe_json_format word now r' = safe_json_format word now r"
    using driver by (simp add: safe_json_format_def log_payload_base base_payload_def)
qed

definition example_log_record :: "string \<Rightarrow> string \<Rightarrow> log_record" where
  "example_log_record name text0 = \<lparr>logger_name = name, level_name = ''WARNING'', message = text0,
     exception_type = None, attributes = [(''source_id'', LogStr ''shop''), (''row_count'', LogInt 2)]\<rparr>"

theorem log_line_typed_witness:
  "safe_json_format (\<lambda>_. False) ''now'' (example_log_record ''psycopg.pool'' ''host=db password=x'') =
     safe_json_format (\<lambda>_. False) ''now'' (example_log_record ''psycopg.pool'' ''other'') \<and>
   payload_ok (driver_fields @ STRUCTURED_LOG_FIELDS)
     (log_payload (\<lambda>_. False) ''now'' (example_log_record ''query_man'' ''token=abc''))"
proof -
  have whole: "whole_record (example_log_record name text0)" if "whole_text text0" for name text0
    using that by (auto simp: whole_record_def example_log_record_def whole_text_def utf8_continuation_def)
  have texts: "whole_text ''other''" "whole_text ''token=abc''" by code_simp+
  have driver: "is_database_dependency_logger (logger_name (example_log_record ''psycopg.pool'' ''other''))" by code_simp
  have "\<forall>r' :: log_record. logger_name r' = logger_name (example_log_record ''psycopg.pool'' ''other'') \<and>
      level_name r' = level_name (example_log_record ''psycopg.pool'' ''other'') \<and>
      exception_type r' = exception_type (example_log_record ''psycopg.pool'' ''other'') \<longrightarrow>
      safe_json_format (\<lambda>_. False) ''now'' r' =
        safe_json_format (\<lambda>_. False) ''now'' (example_log_record ''psycopg.pool'' ''other'')"
    using log_line_typed [OF whole [OF texts(1)]] driver by blast
  moreover have "logger_name (example_log_record n t) = n" "level_name (example_log_record n t) = ''WARNING''"
    "exception_type (example_log_record n t) = None" for n t by (simp_all add: example_log_record_def)
  ultimately have "safe_json_format (\<lambda>_. False) ''now'' (example_log_record ''psycopg.pool'' ''host=db password=x'') =
     safe_json_format (\<lambda>_. False) ''now'' (example_log_record ''psycopg.pool'' ''other'')"
    by metis
  with log_line_typed [OF whole [OF texts(2)]] show ?thesis by blast
qed


end
