(* ===== verification/Server.thy ===== *)
theory Server
  imports CompositionSpec Logging
begin

text \<open>
  \<open>src/query_man/runtime/server.py\<close>: what is configured when the process starts, and the two places
  where the server, which is not part of the repository, calls the shutdown trigger before it goes
  on with its own handling.
\<close>

section \<open>Start\<close>

record server_settings =
  server_host :: string
  server_port :: int
  server_log_level :: string
  timeout_graceful_shutdown :: int

definition uvicorn_config :: "runtime_config \<Rightarrow> server_settings" where
  "uvicorn_config cfg =
     \<lparr>server_host = config_host cfg, server_port = config_port cfg, server_log_level = log_level cfg,
      timeout_graceful_shutdown = graceful_timeout_s (shutdown_grace_ms cfg)\<rparr>"

datatype startup_error =
    StartupConfiguration config_error
  | StartupLogging string
  | StartupBuild build_error

text \<open>\<open>load_dotenv\<close> gives the environment; the files are those at the configured paths.\<close>

definition server_main ::
  "python \<Rightarrow> (string \<Rightarrow> int option) \<Rightarrow> (string \<Rightarrow> bool) \<Rightarrow> (string \<Rightarrow> string)
     \<Rightarrow> ((string, string) dict \<Rightarrow> (string, string) dict) \<Rightarrow> string \<Rightarrow> (runtime_config \<Rightarrow> deployment)
     \<Rightarrow> (string, string) dict \<Rightarrow> operational_state \<Rightarrow> root_logger
     \<Rightarrow> startup_error + root_logger \<times> server_settings \<times> application" where
  "server_main py parse_int ipv6_loopback digest load_dotenv root_directory files env old root0 =
     (let env = load_dotenv env in
      bindE (map_error StartupConfiguration (load_runtime_config py parse_int ipv6_loopback env root_directory)) (\<lambda>cfg.
      bindE (map_error StartupLogging (configure_logging (log_level cfg) root0)) (\<lambda>logger.
      bindE (map_error StartupBuild (build_app py parse_int digest (files cfg) env old cfg)) (\<lambda>app.
      Inr (logger, uvicorn_config cfg, app)))))"

section \<open>Signals\<close>

text \<open>\<open>super\<close> is the handling of the server after the trigger.\<close>

definition handle_exit :: "(runtime_state \<Rightarrow> 'r) \<Rightarrow> rat \<Rightarrow> runtime_state \<Rightarrow> 'r" where
  "handle_exit super now st = super (shutdown_trigger now st)"

definition server_shutdown :: "(runtime_state \<Rightarrow> 'r) \<Rightarrow> rat \<Rightarrow> runtime_state \<Rightarrow> 'r" where
  "server_shutdown super now st = super (shutdown_trigger now st)"

text \<open>The shutdown of the server after a signal finds the trigger done, whatever the server did in between.\<close>

lemma shutdown_after_exit:
  "server_shutdown super later (handle_exit (\<lambda>st. st) now st) = super (shutdown_trigger now st)"
  by (simp add: server_shutdown_def handle_exit_def shutdown_trigger_def)

section \<open>What is started\<close>

lemma map_error_Inr [err_simps]: "map_error f r = Inr x \<longleftrightarrow> r = Inr x"
  by (simp add: map_error_def split: sum.splits)

lemma log_level_known:
  assumes "load_runtime_config py parse_int ipv6_loopback env root_directory = Inr cfg"
  shows "ascii_upper_text (log_level cfg) \<in> set level_names"
proof -
  obtain s where s: "parse_environment parse_int (drop_empty_token env) = Inr s" and level: "log_level cfg = es_log_level s"
    using assms by (auto simp: load_runtime_config_def Let_def bindE_Inr_iff split: if_splits)
  have "log_level_field (drop_empty_token env) = Inr (es_log_level s)"
    using s unfolding parse_environment_def bindE_Inr_iff raise_if_Inr_iff by auto
  then have "es_log_level s \<in> {''critical'', ''fatal'', ''error'', ''warning'', ''warn'', ''info'', ''debug''}"
    by (auto simp: log_level_field_def Let_def invalid_configuration_def split: if_splits)
  moreover have "list_all (\<lambda>l. ascii_upper_text l \<in> set level_names)
      [''critical'', ''fatal'', ''error'', ''warning'', ''warn'', ''info'', ''debug'']" by code_simp
  ultimately show ?thesis unfolding level list_all_iff by auto
qed

text \<open>
  The server starts as configured. Once a configuration loaded, its log level is a level, so
  logging never fails to be configured, and then with the redacting handler only; the server binds
  the configured address, waits for its own shutdown at least the configured grace, and runs the
  application that was built.
\<close>
theorem server_starts_configured:
  "server_main py parse_int ipv6_loopback digest load_dotenv root_directory files env old root0 \<noteq> Inl (StartupLogging e) \<and>
   (\<forall>logger settings app.
      server_main py parse_int ipv6_loopback digest load_dotenv root_directory files env old root0 = Inr (logger, settings, app) \<longrightarrow>
      (\<exists>cfg. load_runtime_config py parse_int ipv6_loopback (load_dotenv env) root_directory = Inr cfg \<and>
         build_app py parse_int digest (files cfg) (load_dotenv env) old cfg = Inr app \<and>
         root_handlers logger = [SafeJsonHandler] \<and> server_host settings = config_host cfg \<and>
         server_port settings = config_port cfg \<and>
         shutdown_grace_ms cfg \<le> 1000 * timeout_graceful_shutdown settings))"
proof (cases "load_runtime_config py parse_int ipv6_loopback (load_dotenv env) root_directory")
  case (Inl e)
  then show ?thesis by (simp add: server_main_def map_error_def)
next
  case (Inr cfg)
  obtain logger where logger: "configure_logging (log_level cfg) root0 = Inr logger" "root_handlers logger = [SafeJsonHandler]"
    using log_level_known [OF Inr] by (simp add: configure_logging_def Let_def)
  have "shutdown_grace_ms cfg \<le> 1000 * graceful_timeout_s (shutdown_grace_ms cfg)"
    by (simp add: graceful_timeout_s_def)
  with Inr logger show ?thesis
    by (cases "build_app py parse_int digest (files cfg) (load_dotenv env) old cfg")
      (simp_all add: server_main_def map_error_def uvicorn_config_def)
qed

end
