(* ===== verification/AdminRequest.thy ===== *)
theory AdminRequest
  imports Config Database
begin

text \<open>
  \<open>.agents/skills/query-man-admin/scripts/query_man_request.py\<close>: one read-only request of an operator
  to a running server, with the operator's token from a protected file or the environment. The
  file system, the exchange with the server, JSON decoding and the lower case of text outside ASCII
  are parameters.
\<close>

section \<open>Failures\<close>

text \<open>The classes of exceptions that \<open>run\<close> catches, and any other, which it does not, with its name.\<close>

datatype request_error =
    ValueError string
  | OSError
  | UnicodeError
  | URLError
  | RequestRecursionError
  | OtherRequestError string

section \<open>The address of the server\<close>

text \<open>
  What the program uses of \<open>urllib.parse.urlsplit\<close>: the scheme up to a colon, the authority after
  two slashes, the path, the query and the fragment. \<open>authority_ok\<close> is the check \<open>urlsplit\<close> makes
  of the brackets and the normal form of an authority, which raises \<open>ValueError\<close>.
\<close>

record split_url =
  scheme :: string
  netloc :: string
  url_path :: string
  url_query :: string
  url_fragment :: string

definition cut_at :: "(char \<Rightarrow> bool) \<Rightarrow> string \<Rightarrow> string \<times> string" where
  "cut_at stop s = (takeWhile (\<lambda>c. \<not> stop c) s, dropWhile (\<lambda>c. \<not> stop c) s)"

definition scheme_char :: "char \<Rightarrow> bool" where
  "scheme_char c \<longleftrightarrow> ascii_upper c \<or> ascii_digit c \<or> c \<in> set ''abcdefghijklmnopqrstuvwxyz+-.''"

definition url_letter :: "char \<Rightarrow> bool" where
  "url_letter c \<longleftrightarrow> ascii_upper c \<or> c \<in> set ''abcdefghijklmnopqrstuvwxyz''"

text \<open>\<open>urlsplit\<close> drops control characters and spaces in front, and tabs and line breaks anywhere.\<close>

definition clean_url :: "string \<Rightarrow> string" where
  "clean_url url =
     filter (\<lambda>c. c \<notin> {CHR 0x09, CHR 0x0D, CHR 0x0A}) (dropWhile (\<lambda>c. (of_char c :: nat) \<le> 32) url)"

definition split_scheme :: "string \<Rightarrow> string \<times> string" where
  "split_scheme url =
     (case cut_at (\<lambda>c. c = CHR '':'') url of
        (name, rest) \<Rightarrow>
          if rest \<noteq> [] \<and> name \<noteq> [] \<and> url_letter (hd name) \<and> list_all scheme_char name
          then (ascii_lower name, tl rest) else ([], url))"

definition urlsplit :: "(string \<Rightarrow> bool) \<Rightarrow> string \<Rightarrow> request_error + split_url" where
  "urlsplit authority_ok url =
     (let (sch, rest) = split_scheme (clean_url url);
          (authority, rest) = (if py_starts ''//'' rest
            then cut_at (\<lambda>c. c \<in> {CHR ''/'', CHR ''?'', CHR ''#''}) (drop 2 rest) else ([], rest));
          (rest, fragment) = cut_at (\<lambda>c. c = CHR ''#'') rest;
          (path, query0) = cut_at (\<lambda>c. c = CHR ''?'') rest in
      if \<not> authority_ok authority then Inl (ValueError ''Invalid URL'')
      else Inr \<lparr>scheme = sch, netloc = authority, url_path = path, url_query = drop 1 query0,
        url_fragment = drop 1 fragment\<rparr>)"

text \<open>The parts of an authority: user information up to the last at sign, host and port.\<close>

definition user_info :: "string \<Rightarrow> string option" where
  "user_info authority =
     (if CHR ''@'' \<in> set authority then Some (rev (tl (dropWhile (\<lambda>c. c \<noteq> CHR ''@'') (rev authority)))) else None)"

definition host_info :: "string \<Rightarrow> string" where
  "host_info authority = rev (takeWhile (\<lambda>c. c \<noteq> CHR ''@'') (rev authority))"

definition host_and_port :: "string \<Rightarrow> string \<times> string" where
  "host_and_port authority =
     (let info = host_info authority in
      if CHR ''['' \<in> set info
      then (let bracketed = tl (dropWhile (\<lambda>c. c \<noteq> CHR ''['') info);
                (name, rest) = cut_at (\<lambda>c. c = CHR '']'') bracketed
            in (name, drop 1 (snd (cut_at (\<lambda>c. c = CHR '':'') (drop 1 rest)))))
      else (case cut_at (\<lambda>c. c = CHR '':'') info of (name, rest) \<Rightarrow> (name, drop 1 rest)))"

text \<open>\<open>hostname\<close>: in lower case up to a percent sign, or \<open>None\<close>.\<close>

definition hostname :: "(string \<Rightarrow> string) \<Rightarrow> split_url \<Rightarrow> string option" where
  "hostname lower url =
     (let name = fst (host_and_port (netloc url)) in
      if name = [] then None
      else case cut_at (\<lambda>c. c = CHR ''%'') name of (address, zone) \<Rightarrow> Some (lower address @ zone))"

definition url_port :: "split_url \<Rightarrow> request_error + int option" where
  "url_port url =
     (let text0 = snd (host_and_port (netloc url)) in
      if text0 = [] then Inr None
      else if \<not> list_all is_digit text0 \<or> length text0 > 4300 \<or> digits_value text0 > 65535
      then Inl (ValueError ''invalid port'') else Inr (Some (int (digits_value text0))))"

definition is_loopback_host :: "(string \<Rightarrow> bool) \<Rightarrow> string \<Rightarrow> bool" where
  "is_loopback_host ipv6_loopback name =
     (if ascii_lower name = ''localhost'' then True
      else (case ipv4_octets name of Some os \<Rightarrow> hd os = 127 | None \<Rightarrow> ipv6_loopback name))"

text \<open>The tables of the language and the standard library that an address is read with.\<close>

record url_tables =
  authority_check :: "string \<Rightarrow> bool"
  lower_text :: "string \<Rightarrow> string"
  ipv6_is_loopback :: "string \<Rightarrow> bool"

definition env_text :: "(string, string) dict \<Rightarrow> string \<Rightarrow> string" where
  "env_text env name = (case map_of env name of None \<Rightarrow> [] | Some s \<Rightarrow> s)"

definition bracketed :: "string \<Rightarrow> string" where
  "bracketed name = (if CHR '':'' \<in> set name then ''['' @ name @ '']'' else name)"

text \<open>The checks of the parsed address, and the address that requests are sent to.\<close>

definition checked_base :: "url_tables \<Rightarrow> split_url \<Rightarrow> int option \<Rightarrow> request_error + string" where
  "checked_base tables parsed port0 =
     (case hostname (lower_text tables) parsed of
        None \<Rightarrow> Inl (ValueError ''QUERY_MAN_SERVER_URL must be an absolute HTTP(S) URL'')
      | Some name \<Rightarrow>
          bindE (raise_if (scheme parsed \<notin> {''http'', ''https''})
                   (ValueError ''QUERY_MAN_SERVER_URL must be an absolute HTTP(S) URL'')) (\<lambda>_.
          bindE (raise_if ((case user_info (netloc parsed) of None \<Rightarrow> False | Some info \<Rightarrow> info \<noteq> [] \<and> info \<noteq> '':'')
                     \<or> url_query parsed \<noteq> [] \<or> url_fragment parsed \<noteq> [])
                   (ValueError ''QUERY_MAN_SERVER_URL must not contain credentials, query, or fragment'')) (\<lambda>_.
          bindE (raise_if (url_path parsed \<noteq> [] \<and> url_path parsed \<noteq> ''/'')
                   (ValueError ''QUERY_MAN_SERVER_URL must not contain a path'')) (\<lambda>_.
          bindE (raise_if (scheme parsed = ''http'' \<and> \<not> is_loopback_host (ipv6_is_loopback tables) name)
                   (ValueError ''plaintext HTTP is allowed only for loopback'')) (\<lambda>_.
          Inr (scheme parsed @ ''://'' @ bracketed name @
                 (case port0 of None \<Rightarrow> [] | Some p \<Rightarrow> '':'' @ int_str p)))))))"

definition server_url :: "url_tables \<Rightarrow> (string, string) dict \<Rightarrow> request_error + string" where
  "server_url tables env =
     (let raw = py_strip (env_text env ''QUERY_MAN_SERVER_URL'') in
      bindE (raise_if (raw = []) (ValueError ''QUERY_MAN_SERVER_URL is required'')) (\<lambda>_.
      bindE (urlsplit (authority_check tables) raw) (\<lambda>parsed.
      bindE (case url_port parsed of Inl e \<Rightarrow> Inl (ValueError ''QUERY_MAN_SERVER_URL has an invalid port'') | Inr p \<Rightarrow> Inr p)
        (checked_base tables parsed))))"

section \<open>The token\<close>

text \<open>What opening a file without following a link gives: its kind, owner, permissions and bytes.\<close>

record opened_file =
  regular :: bool
  owner_id :: nat
  permissions :: nat
  content :: string

text \<open>\<open>os.open\<close> refuses a symbolic link with \<open>O_NOFOLLOW\<close>; a failure is an \<open>OSError\<close>.\<close>

record machine =
  open_file :: "string \<Rightarrow> opened_file option"
  effective_user :: nat

definition TOKEN_MIN_BYTES :: nat where "TOKEN_MIN_BYTES = 32"

definition TOKEN_MAX_BYTES :: nat where "TOKEN_MAX_BYTES = 512"

text \<open>\<open>& 0o077\<close>: the six low bits of the mode.\<close>

definition token_from_file :: "machine \<Rightarrow> string \<Rightarrow> request_error + string" where
  "token_from_file m path =
     (case open_file m path of
        None \<Rightarrow> Inl OSError
      | Some f \<Rightarrow>
          bindE (raise_if (\<not> regular f) (ValueError ''operator token path must be a regular file'')) (\<lambda>_.
          bindE (raise_if (owner_id f \<notin> {0, effective_user m})
                   (ValueError ''operator token file has an unapproved owner'')) (\<lambda>_.
          bindE (raise_if (permissions f mod 64 \<noteq> 0)
                   (ValueError ''operator token file permissions must not allow group or other access'')) (\<lambda>_.
          Inr (take (TOKEN_MAX_BYTES + 2) (content f))))))"

definition visible_ascii :: "char \<Rightarrow> bool" where
  "visible_ascii c \<longleftrightarrow> (let n = (of_char c :: nat) in 0x21 \<le> n \<and> n \<le> 0x7E)"

definition validate_token :: "string \<Rightarrow> request_error + string" where
  "validate_token raw =
     (let token = (if py_ends [CHR 0x0A] raw then butlast raw else raw) in
      bindE (raise_if (CHR 0x0A \<in> set token \<or> CHR 0x0D \<in> set token) (ValueError ''operator token must be one line'')) (\<lambda>_.
      bindE (raise_if (\<not> (TOKEN_MIN_BYTES \<le> length token \<and> length token \<le> TOKEN_MAX_BYTES))
               (ValueError ''operator token length is invalid'')) (\<lambda>_.
      bindE (raise_if (list_ex (\<lambda>b. \<not> visible_ascii b) token)
               (ValueError ''operator token must contain visible ASCII only'')) (\<lambda>_. Inr token))))"

definition operator_token :: "machine \<Rightarrow> (string, string) dict \<Rightarrow> request_error + string" where
  "operator_token m env =
     (let token_file = env_text env ''QUERY_MAN_OPERATOR_TOKEN_FILE'';
          token_value = env_text env ''QUERY_MAN_OPERATOR_TOKEN'' in
      bindE (raise_if ((token_file \<noteq> []) = (token_value \<noteq> []))
               (ValueError ''set exactly one approved operator token source'')) (\<lambda>_.
      bindE (if token_file \<noteq> [] then token_from_file m token_file
             else if list_ex (\<lambda>b. (of_char b :: nat) > 127) token_value then Inl UnicodeError
             else Inr token_value) validate_token))"

section \<open>The request\<close>

datatype command =
    Ready
  | AdminStatus
  | AdminMetrics
  | ListSources
  | Meta string

fun route :: "command \<Rightarrow> string \<times> string" where
  "route Ready = (''GET'', ''/ready'')"
| "route AdminStatus = (''GET'', ''/admin/health'')"
| "route AdminMetrics = (''GET'', ''/admin/metrics'')"
| "route ListSources = (''GET'', ''/sources'')"
| "route (Meta sid) = (''POST'', ''/meta'')"

record operator_request =
  sent_method :: string
  sent_url :: string
  sent_headers :: "(string, string) dict"
  sent_body :: "pyval option"

definition request_of :: "command \<Rightarrow> string option \<Rightarrow> string \<Rightarrow> operator_request" where
  "request_of command token base =
     (let headers = [(''Accept'', ''application/json'')];
          headers = (case token of None \<Rightarrow> headers | Some t \<Rightarrow> AList.update ''Authorization'' (''Bearer '' @ t) headers)
      in \<lparr>sent_method = fst (route command), sent_url = base @ snd (route command),
          sent_headers = (case command of Meta sid \<Rightarrow> AList.update ''Content-Type'' ''application/json'' headers
                             | _ \<Rightarrow> headers),
          sent_body = (case command of Meta sid \<Rightarrow> Some (MapV [(''source_id'', StrV sid)]) | _ \<Rightarrow> None)\<rparr>)"

text \<open>
  The exchange of one request, without following redirects: a response with its status and
  body, an \<open>HTTPError\<close> for every other status, or an exception. \<open>certificates\<close> reads the file of
  the certificate authority.
\<close>

datatype exchange =
    Response int string
  | HTTPError int
  | Raised request_error

record server_access =
  certificates :: "string \<Rightarrow> request_error + unit"
  exchange_of :: "operator_request \<Rightarrow> exchange"

definition MAX_RESPONSE_BYTES :: nat where "MAX_RESPONSE_BYTES = 1024 * 1024"

definition read_body :: "string \<Rightarrow> request_error + string" where
  "read_body stream =
     (let body = take (MAX_RESPONSE_BYTES + 1) stream in
      if length body > MAX_RESPONSE_BYTES then Inl (ValueError ''server response exceeded the size limit'') else Inr body)"

section \<open>Redaction of the token\<close>

text \<open>\<open>value.replace(token, new)\<close> from the left, for a token that is not empty.\<close>

function replace_text :: "string \<Rightarrow> string \<Rightarrow> string \<Rightarrow> string" where
  "replace_text token new s =
     (if token \<noteq> [] \<and> py_starts token s then new @ replace_text token new (drop (length token) s)
      else case s of [] \<Rightarrow> [] | c # s \<Rightarrow> c # replace_text token new s)"
  by pat_completeness auto
termination by (relation "measure (\<lambda>(token, new, s). length s)") (auto simp: py_starts_iff)

declare replace_text.simps [simp del]

abbreviation hide_token :: "string \<Rightarrow> string \<Rightarrow> string" where
  "hide_token token s \<equiv> replace_text token ''[REDACTED]'' s"

text \<open>In a dictionary a later key that becomes equal to an earlier one takes its place.\<close>

fun redact_token :: "string \<Rightarrow> plan_json \<Rightarrow> plan_json" where
  "redact_token token (PStr s) = PStr (hide_token token s)"
| "redact_token token (PList vs) = PList (map (redact_token token) vs)"
| "redact_token token (PDict kvs) =
     PDict (foldl (\<lambda>d (k, v). AList.update k v d) [] (map (\<lambda>(k, v). (hide_token token k, redact_token token v)) kvs))"
| "redact_token token v = v"

section \<open>A run\<close>

text \<open>
  Decoding the body gives a value, or \<open>None\<close> when it is no JSON or no UTF-8; a number or a depth
  beyond the limits of the language raises.
\<close>

text \<open>Both outcomes of a request: the requests sent, and the status and response or the exception.\<close>

type_synonym request_outcome = "operator_request option \<times> (request_error + int \<times> plan_json)"

definition error_body :: "string \<Rightarrow> plan_json" where
  "error_body message0 = PDict [(''error'', PStr message0)]"

definition response_of :: "(string \<Rightarrow> request_error + plan_json option) \<Rightarrow> string option \<Rightarrow> exchange \<Rightarrow> request_error + int \<times> plan_json" where
  "response_of json_loads token e =
     (case e of
        HTTPError code \<Rightarrow> Inr (code, error_body (if 300 \<le> code \<and> code < 400 then ''server redirect blocked''
                                           else ''server rejected the request''))
      | Raised err \<Rightarrow> Inl err
      | Response st stream \<Rightarrow>
          bindE (read_body stream) (\<lambda>raw.
          bindE (json_loads raw) (\<lambda>decoded.
            let body = (case decoded of None \<Rightarrow> error_body ''server returned a non-JSON response'' | Some v \<Rightarrow> v) in
            Inr (st, case token of None \<Rightarrow> body | Some t \<Rightarrow> redact_token t body))))"

definition send_request ::
  "url_tables \<Rightarrow> machine \<Rightarrow> server_access \<Rightarrow> (string \<Rightarrow> request_error + plan_json option) \<Rightarrow> (string, string) dict \<Rightarrow> command
     \<Rightarrow> request_outcome" where
  "send_request tables m server json_loads env command =
     (case bindE (if command = Ready then Inr None else bindE (operator_token m env) (\<lambda>t. Inr (Some t))) (\<lambda>token.
           bindE (case command of
               Meta sid \<Rightarrow> raise_if (sid = [] \<or> py_len sid > 128)
                 (ValueError ''source_id is required and must not exceed 128 characters'')
             | _ \<Rightarrow> Inr ()) (\<lambda>_.
           bindE (let ca_file = env_text env ''QUERY_MAN_SERVER_CA_FILE'' in
                  if ca_file \<noteq> [] then certificates server ca_file else Inr ()) (\<lambda>_.
           bindE (server_url tables env) (\<lambda>base. Inr (token, request_of command token base))))) of
        Inl e \<Rightarrow> (None, Inl e)
      | Inr (token, request) \<Rightarrow> (Some request, response_of json_loads token (exchange_of server request)))"

text \<open>What \<open>run\<close> shows: the JSON it prints, a fixed message, or the traceback of an exception it does not catch.\<close>

datatype shown =
    Printed int plan_json
  | FixedMessage
  | Traceback string

definition run_request ::
  "url_tables \<Rightarrow> machine \<Rightarrow> server_access \<Rightarrow> (string \<Rightarrow> request_error + plan_json option) \<Rightarrow> (string, string) dict \<Rightarrow> command
     \<Rightarrow> shown \<times> int" where
  "run_request tables m server json_loads env command =
     (case snd (send_request tables m server json_loads env command) of
        Inr (st, response) \<Rightarrow> (Printed st response, if 200 \<le> st \<and> st < 300 then 0 else 1)
      | Inl e \<Rightarrow> (case e of OtherRequestError name \<Rightarrow> (Traceback name, 1) | _ \<Rightarrow> (FixedMessage, 1)))"

end
