(* ===== verification/AdminRequestSpec.thy ===== *)
theory AdminRequestSpec
  imports AdminRequest
begin

text \<open>
  What the request script of the operator guarantees: the token comes from one protected place
  and is only put into a request for an encrypted or a loopback address, and what is printed of
  the response holds it nowhere.
\<close>

section \<open>Addresses\<close>

text \<open>The address is encrypted, or its host is the machine itself.\<close>

definition safe_address :: "url_tables \<Rightarrow> string \<Rightarrow> bool" where
  "safe_address tables base \<longleftrightarrow> py_starts ''https://'' base \<or>
     (\<exists>name tail. base = ''http://'' @ bracketed name @ tail \<and> is_loopback_host (ipv6_is_loopback tables) name \<and>
        (tail = [] \<or> hd tail = CHR '':''))"

lemma server_url_safe: "server_url tables env = Inr base \<Longrightarrow> safe_address tables base"
proof -
  assume url: "server_url tables env = Inr base"
  then obtain parsed port0 where rest: "checked_base tables parsed port0 = Inr base"
    unfolding server_url_def Let_def bindE_Inr_iff by blast
  then obtain name where name: "hostname (lower_text tables) parsed = Some name"
    unfolding checked_base_def by (cases "hostname (lower_text tables) parsed") auto
  have "scheme parsed \<in> {''http'', ''https''}"
    and plain: "\<not> (scheme parsed = ''http'' \<and> \<not> is_loopback_host (ipv6_is_loopback tables) name)"
    and base: "base = scheme parsed @ ''://'' @ bracketed name @ (case port0 of None \<Rightarrow> [] | Some p \<Rightarrow> '':'' @ int_str p)"
    using rest unfolding checked_base_def name option.case bindE_Inr_iff raise_if_Inr_iff by (blast, blast, blast)
  with plain consider "scheme parsed = ''https''" | "scheme parsed = ''http''" "is_loopback_host (ipv6_is_loopback tables) name" by blast
  then show ?thesis
  proof cases
    case 1
    then show ?thesis unfolding safe_address_def base by (simp add: py_starts_def)
  next
    case 2
    have "base = ''http://'' @ bracketed name @ (case port0 of None \<Rightarrow> [] | Some p \<Rightarrow> '':'' @ int_str p)"
      unfolding base 2(1) by simp
    moreover have "(case port0 of None \<Rightarrow> [] | Some p \<Rightarrow> '':'' @ int_str p) = [] \<or>
        hd (case port0 of None \<Rightarrow> [] | Some p \<Rightarrow> '':'' @ int_str p) = CHR '':''" by (simp split: option.split)
    ultimately show ?thesis using 2(2) unfolding safe_address_def by blast
  qed
qed

section \<open>Tokens\<close>

definition token_ok :: "string \<Rightarrow> bool" where
  "token_ok token \<longleftrightarrow> 32 \<le> length token \<and> length token \<le> 512 \<and> list_all visible_ascii token"

text \<open>The token is the content of a file only its owner can use, or the value of a variable, and not both are set.\<close>

definition token_protected :: "machine \<Rightarrow> (string, string) dict \<Rightarrow> bool" where
  "token_protected m env \<longleftrightarrow>
     (env_text env ''QUERY_MAN_OPERATOR_TOKEN'' = [] \<and>
        (\<exists>f. open_file m (env_text env ''QUERY_MAN_OPERATOR_TOKEN_FILE'') = Some f \<and> regular f \<and>
           owner_id f \<in> {0, effective_user m} \<and> permissions f mod 64 = 0)) \<or>
     (env_text env ''QUERY_MAN_OPERATOR_TOKEN'' \<noteq> [] \<and> env_text env ''QUERY_MAN_OPERATOR_TOKEN_FILE'' = [])"

lemma validate_token_Inr: "validate_token raw = Inr token \<Longrightarrow> token_ok token"
  by (auto simp: validate_token_def Let_def bindE_Inr_iff raise_if_Inr_iff token_ok_def TOKEN_MIN_BYTES_def
      TOKEN_MAX_BYTES_def list_all_iff list_ex_iff)

lemma token_from_file_Inr:
  "token_from_file m path = Inr raw \<Longrightarrow> \<exists>f. open_file m path = Some f \<and> regular f \<and>
     owner_id f \<in> {0, effective_user m} \<and> permissions f mod 64 = 0"
  by (auto simp: token_from_file_def bindE_Inr_iff raise_if_Inr_iff split: option.splits)

lemma operator_token_Inr:
  assumes "operator_token m env = Inr token"
  shows "token_ok token \<and> token_protected m env"
proof -
  let ?file = "env_text env ''QUERY_MAN_OPERATOR_TOKEN_FILE''" and ?text = "env_text env ''QUERY_MAN_OPERATOR_TOKEN''"
  obtain raw where one: "(?file \<noteq> []) \<noteq> (?text \<noteq> [])" and token: "validate_token raw = Inr token"
    and raw: "(if ?file \<noteq> [] then token_from_file m ?file
       else if list_ex (\<lambda>b. (of_char b :: nat) > 127) ?text then Inl UnicodeError else Inr ?text) = Inr raw"
    using assms unfolding operator_token_def Let_def bindE_Inr_iff raise_if_Inr_iff by blast
  have "token_protected m env"
  proof (cases "?file = []")
    case True
    then show ?thesis using one unfolding token_protected_def by blast
  next
    case False
    then show ?thesis using one raw token_from_file_Inr unfolding token_protected_def by auto
  qed
  with validate_token_Inr [OF token] show ?thesis by blast
qed

lemma send_request_sent:
  assumes "send_request tables m server json_loads env command = (Some request, out)"
  obtains token base where "server_url tables env = Inr base" "request = request_of command token base"
    "out = response_of json_loads token (exchange_of server request)"
    "if command = Ready then token = None else \<exists>t. token = Some t \<and> operator_token m env = Inr t"
  using assms
  by (auto simp: send_request_def Let_def bindE_Inr_iff split: sum.splits if_splits elim!: that)


section \<open>What is printed\<close>

definition contains :: "string \<Rightarrow> string \<Rightarrow> bool" where
  "contains t s \<longleftrightarrow> (\<exists>a b. s = a @ t @ b)"

lemma contains_Cons: "contains t (c # s) \<Longrightarrow> py_starts t (c # s) \<or> contains t s"
  unfolding contains_def py_starts_iff by (auto simp: Cons_eq_append_conv)

lemma contains_length: "contains t s \<Longrightarrow> length t \<le> length s"
  by (auto simp: contains_def)

lemma contains_separated:
  assumes "contains t (a @ z # b)" and "z \<notin> set t" and "t \<noteq> []"
  shows "contains t a \<or> contains t b"
  using assms(1)
proof (induction a)
  case Nil
  have "\<not> py_starts t (z # b)" using assms(2,3) by (cases t) (auto simp: py_starts_def)
  with Nil contains_Cons show ?case by fastforce
next
  case (Cons c a)
  from Cons.prems contains_Cons [of t c "a @ z # b"] consider "py_starts t (c # a @ z # b)" | "contains t (a @ z # b)"
    by auto
  then show ?case
  proof cases
    case 1
    then obtain y where "(c # a) @ z # b = t @ y" unfolding py_starts_iff by auto
    then consider us where "c # a = t @ us" | us where "t = (c # a) @ us" "us \<noteq> []" "z # b = us @ y"
      unfolding append_eq_append_conv2 by (metis append_Nil2)
    then show ?thesis
    proof cases
      case 1
      then have "c # a = [] @ t @ us" by simp
      then show ?thesis unfolding contains_def by blast
    next
      case 2
      then have "z \<in> set t" by (cases us) auto
      with assms(2) show ?thesis by simp
    qed
  next
    case 2
    with Cons.IH have "contains t a \<or> contains t b" by blast
    then show ?thesis unfolding contains_def by (metis append_Cons)
  qed
qed

text \<open>Up to the first replacement the text is as it was.\<close>

lemma replace_text_prefix:
  "replace_text t (CHR ''['' # new) s = p @ rest \<Longrightarrow> CHR ''['' \<notin> set p \<Longrightarrow> \<exists>s'. s = p @ s'"
proof (induction s arbitrary: p rule: length_induct)
  case (1 s)
  show ?case
  proof (cases "p = []")
    case False
    then obtain c p' where p: "p = c # p'" "c \<noteq> CHR ''[''" "CHR ''['' \<notin> set p'" using 1(3) by (cases p) auto
    have no: "\<not> (t \<noteq> [] \<and> py_starts t s)"
      using 1(2) p by (subst (asm) replace_text.simps) (auto split: if_splits)
    with 1(2) p obtain s1 where s: "s = c # s1" "replace_text t (CHR ''['' # new) s1 = p' @ rest"
      by (subst (asm) replace_text.simps) (auto split: list.splits)
    with 1(1) p(3) obtain s' where "s1 = p' @ s'" by (metis length_Cons lessI)
    with s p show ?thesis by simp
  qed simp
qed

lemma hidden:
  assumes "9 \<le> length t" and "CHR ''['' \<notin> set t" and "CHR '']'' \<notin> set t"
  shows "\<not> contains t (hide_token t s)"
proof (induction s rule: length_induct)
  case (1 s)
  have t: "t \<noteq> []" using assms(1) by auto
  show ?case
  proof (cases "py_starts t s")
    case True
    let ?rest = "hide_token t (drop (length t) s)"
    have out: "hide_token t s = [] @ CHR ''['' # ''REDACTED'' @ CHR '']'' # ?rest"
      using True t by (subst replace_text.simps) simp
    have "length (drop (length t) s) < length s" using True t by (auto simp: py_starts_iff)
    then have rest: "\<not> contains t ?rest" using 1 by blast
    have "\<not> contains t ''REDACTED''" "\<not> contains t []" using contains_length [of t] assms(1) by force+
    with rest show ?thesis unfolding out
      using contains_separated [OF _ assms(2) t, of "[]"] contains_separated [OF _ assms(3) t, of "''REDACTED''"] by blast
  next
    case False
    show ?thesis
    proof (cases s)
      case Nil
      then have "hide_token t s = []" using False by (subst replace_text.simps) simp
      moreover have "\<not> contains t []" using t by (simp add: contains_def)
      ultimately show ?thesis by simp
    next
      case (Cons c s1)
      have out: "hide_token t s = c # hide_token t s1" using False Cons by (subst replace_text.simps) simp
      have "\<not> contains t (hide_token t s1)" using 1 Cons by simp
      moreover have "\<not> py_starts t (c # hide_token t s1)"
      proof
        assume "py_starts t (c # hide_token t s1)"
        then obtain t' y where "t = c # t'" "hide_token t s1 = t' @ y" using t by (cases t) (auto simp: py_starts_iff)
        moreover from this obtain s' where "s1 = t' @ s'"
          using replace_text_prefix [of t "''REDACTED]''" s1 t' y] assms(2) by auto
        ultimately have "py_starts t s" using Cons by (auto simp: py_starts_iff)
        with False show False by simp
      qed
      ultimately show ?thesis unfolding out using contains_Cons by blast
    qed
  qed
qed

text \<open>All texts of a JSON value, keys and values at any depth.\<close>

fun json_texts :: "plan_json \<Rightarrow> string set" where
  "json_texts (PStr s) = {s}"
| "json_texts (PList vs) = (\<Union>v \<in> set vs. json_texts v)"
| "json_texts (PDict kvs) = (\<Union>(k, v) \<in> set kvs. insert k (json_texts v))"
| "json_texts v = {}"

lemma updates_set: "set (foldl (\<lambda>d (k, v). AList.update k v d) d kvs) \<subseteq> set d \<union> set kvs"
proof (induction kvs arbitrary: d)
  case (Cons kv kvs)
  obtain k v where kv: "kv = (k, v)" by (cases kv)
  have "set (AList.update k v d) \<subseteq> insert (k, v) (set d)" by (induction d) auto
  with Cons [of "AList.update k v d"] kv show ?case by auto
qed simp

lemma redact_token_texts:
  "9 \<le> length t \<Longrightarrow> CHR ''['' \<notin> set t \<Longrightarrow> CHR '']'' \<notin> set t \<Longrightarrow>
     \<forall>s \<in> json_texts (redact_token t v). \<not> contains t s"
proof (induction t v rule: redact_token.induct)
  case (2 t vs)
  have "\<forall>s \<in> json_texts (redact_token t v). \<not> contains t s" if "v \<in> set vs" for v
    using 2(1) [OF that] 2(2-4) by blast
  then show ?case by auto
next
  case (3 t kvs)
  let ?kvs = "map (\<lambda>(k, v). (hide_token t k, redact_token t v)) kvs"
  have each: "\<not> contains t k \<and> (\<forall>s \<in> json_texts v. \<not> contains t s)" if member: "(k, v) \<in> set ?kvs" for k v
  proof -
    obtain k0 v0 where kv: "(k0, v0) \<in> set kvs" "k = hide_token t k0" "v = redact_token t v0" using member by auto
    have "\<forall>s \<in> json_texts (redact_token t v0). \<not> contains t s" by (rule 3(1) [OF kv(1) refl 3(2-4)])
    with kv hidden [OF 3(2-4), of k0] show ?thesis by blast
  qed
  show ?case
  proof
    fix s assume "s \<in> json_texts (redact_token t (PDict kvs))"
    then have "s \<in> (\<Union>(k, v) \<in> set (foldl (\<lambda>d (k, v). AList.update k v d) [] ?kvs). insert k (json_texts v))"
      by (simp only: redact_token.simps json_texts.simps)
    then obtain kv where kv0: "kv \<in> set (foldl (\<lambda>d (k, v). AList.update k v d) [] ?kvs)"
      "s \<in> (case kv of (k, v) \<Rightarrow> insert k (json_texts v))" by (rule UN_E)
    obtain k v where pair: "kv = (k, v)" by (cases kv)
    note kv = kv0 [unfolded pair prod.case insert_iff]
    have "(k, v) \<in> set ?kvs" using subsetD [OF updates_set [of "[]" ?kvs] kv(1)] unfolding Un_iff by (metis empty_iff list.set(1))
    from each [OF this] kv(2) show "\<not> contains t s" by blast
  qed
qed (simp_all add: hidden)


section \<open>A concrete run\<close>

definition example_token :: string where
  "example_token = ''operator-token-0123456789-abcdefgh''"

definition example_operator_env :: "(string, string) dict" where
  "example_operator_env =
     [(''QUERY_MAN_SERVER_URL'', ''http://127.0.0.1''), (''QUERY_MAN_OPERATOR_TOKEN_FILE'', ''/run/token'')]"

definition example_machine :: machine where
  "example_machine = \<lparr>open_file = (\<lambda>path. if path = ''/run/token''
     then Some \<lparr>regular = True, owner_id = 1000, permissions = 384, content = example_token @ [CHR 0x0A]\<rparr> else None),
     effective_user = 1000\<rparr>"

definition example_url_tables :: url_tables where
  "example_url_tables = \<lparr>authority_check = (\<lambda>_. True), lower_text = ascii_lower, ipv6_is_loopback = (\<lambda>_. False)\<rparr>"

text \<open>A server that sends the credential back.\<close>

definition example_access :: server_access where
  "example_access = \<lparr>certificates = (\<lambda>_. Inr ()), exchange_of = (\<lambda>_. Response 200 ''body'')\<rparr>"

definition example_loads :: "string \<Rightarrow> request_error + plan_json option" where
  "example_loads raw = Inr (Some (PDict [(''reflected'', PStr (''Bearer '' @ example_token))]))"

lemma example_operator_token: "operator_token example_machine example_operator_env = Inr example_token"
  by (simp add: operator_token_def env_text_def example_operator_env_def token_from_file_def example_machine_def
      validate_token_def raise_if_def Let_def TOKEN_MAX_BYTES_def TOKEN_MIN_BYTES_def example_token_def
      py_ends_def py_starts_def visible_ascii_def)

lemma example_server_url: "server_url example_url_tables example_operator_env = Inr ''http://127.0.0.1''"
  by code_simp

lemmas example_operator = example_operator_token example_server_url



end
