(* ===== verification/SourcePackages.thy ===== *)
theory SourcePackages
  imports RegistryLoading
begin

text \<open>
  \<open>.agents/skills/query-man-admin/scripts/validate_source_packages.py\<close>: the check of the source
  packages of a repository before they are deployed. It loads the registry of the program with no
  environment and a fixed credential directory.
\<close>

section \<open>The check\<close>

text \<open>The files below the resolved root: which of the three are symbolic links, and what loading reads.\<close>

record package_root =
  sources_symlink :: bool
  budgets_symlink :: bool
  databases_symlink :: bool
  root_listing :: "string + source_entry list"
  root_parts :: "string list"
  root_budgets :: "string + budget_file"
  root_databases :: "string + database_file"

record validation_result =
  validation_status :: string
  validation_scope :: string
  views_sql_validated :: bool
  source_count :: nat
  valid_source_ids :: "string list"
  runtime_environment_read :: bool
  database_connected :: bool
  credential_files_read :: bool

definition validate_packages ::
  "python \<Rightarrow> (string \<Rightarrow> int option) \<Rightarrow> package_root \<Rightarrow> registry_error + validation_result" where
  "validate_packages py parse_int files =
     (if sources_symlink files \<or> budgets_symlink files \<or> databases_symlink files
      then Inl (RegistryConfigurationError ''configuration symlinks are not allowed'')
      else
        bindE (load_registry py parse_int (root_listing files) (root_parts files @ [''config'', ''sources''])
                 (root_budgets files) (root_databases files) ''/run/secrets/query-man/databases'' []) (\<lambda>reg.
          let ids = sort (registry_source_ids reg) in
          Inr \<lparr>validation_status = ''valid'', validation_scope = ''configuration_and_package_layout'',
            views_sql_validated = False, source_count = length ids, valid_source_ids = ids,
            runtime_environment_read = False, database_connected = False, credential_files_read = False\<rparr>))"

text \<open>\<open>run\<close>: the result that is printed, or a fixed message, and the exit code.\<close>

definition run_validation ::
  "python \<Rightarrow> (string \<Rightarrow> int option) \<Rightarrow> package_root \<Rightarrow> validation_result option \<times> int" where
  "run_validation py parse_int files =
     (case validate_packages py parse_int files of Inl e \<Rightarrow> (None, 1) | Inr result \<Rightarrow> (Some result, 0))"

section \<open>What is checked holds where it is deployed\<close>

text \<open>The environment sets none of the variables that may replace a host or a port.\<close>

definition no_overrides :: "package_root \<Rightarrow> (string, string) dict \<Rightarrow> bool" where
  "no_overrides files env \<longleftrightarrow>
     (\<forall>f. root_databases files = Inr f \<longrightarrow> (\<forall>(n, d) \<in> set (database_file_profiles f).
        env_get env (ds_host_env d) = None \<and> env_get env (ds_port_env d) = None))"

definition uses_certificate :: "source_profile \<Rightarrow> bool" where
  "uses_certificate s \<longleftrightarrow> sslmode (connection s) = ''verify-full'' \<and>
     (case authentication (connection s) of PasswordAuthentication pw \<Rightarrow> False | ClientCertificateAuthentication a b c \<Rightarrow> True)"

lemma env_get_empty [simp]: "env_get [] name = None"
  by (simp add: env_get_def split: option.split)

lemma authentication_without_environment:
  "resolve_authentication [] dir parsed d = Inr auth \<Longrightarrow>
     ds_authentication d = ConfiguredClientCertificate \<and>
     (\<exists>a b c. auth = ClientCertificateAuthentication a b c) \<and>
     (\<exists>a b c. resolve_authentication env dir' parsed d = Inr (ClientCertificateAuthentication a b c))"
  by (auto simp: resolve_authentication_def Let_def split: configured_authentication.splits if_splits)

text \<open>Settings that are valid, and whose host and port the environment leaves alone.\<close>

definition usable_elsewhere :: "(string, string) dict \<Rightarrow> database_settings \<Rightarrow> bool" where
  "usable_elsewhere env d \<longleftrightarrow>
     database_settings_ok d \<and> env_get env (ds_host_env d) = None \<and> env_get env (ds_port_env d) = None"

lemma resolve_source_elsewhere:
  assumes "resolve_source py parse_int budgets databases dir [] parsed = Inr s"
    and "\<forall>n d. map_of databases n = Some d \<longrightarrow> usable_elsewhere env d"
  shows "\<exists>s'. resolve_source py parse_int budgets databases dir' env parsed = Inr s' \<and>
    source_id s' = source_id s \<and> uses_certificate s'"
proof -
  obtain b d where b: "map_of budgets (sf_budget_profile parsed) = Some b"
    and d: "map_of databases (sf_database_profile parsed) = Some d"
    using assms(1) by (auto simp: resolve_source_def split: option.splits)
  have "resolve_host env d = resolve_host [] d" "resolve_port parse_int env d = resolve_port parse_int [] d"
    using assms(2) d by (simp_all add: usable_elsewhere_def resolve_host_def resolve_port_def)
  note same = this
  obtain h p auth where h: "resolve_host [] d = Inr h" and p: "resolve_port parse_int [] d = Inr p"
    and dist: "distinct (sf_allowed_schemas parsed)"
    and none: "find (is_forbidden_schema py) (sf_allowed_schemas parsed) = None"
    and auth: "resolve_authentication [] dir parsed d = Inr auth" and sid: "source_id s = sf_source_id parsed"
    using assms(1) b d by (auto simp: resolve_source_def err_simps split: option.splits)
  obtain a b' c where auth': "resolve_authentication env dir' parsed d = Inr (ClientCertificateAuthentication a b' c)"
    using authentication_without_environment [OF auth, of env dir'] by blast
  have "ds_sslmode d = ''verify-full''"
    using resolve_authentication_Inr [OF auth'] assms(2) d by (simp add: usable_elsewhere_def)
  then show ?thesis
    using b d h p dist none auth' sid same by (simp add: resolve_source_def raise_if_def uses_certificate_def)
qed

lemma load_entry_elsewhere:
  assumes "load_entry py parse_int budgets databases dir [] directory entry = Inr s"
    and "\<forall>n d. map_of databases n = Some d \<longrightarrow> usable_elsewhere env d"
  shows "\<exists>s'. load_entry py parse_int budgets databases dir' env directory entry = Inr s' \<and>
    source_id s' = source_id s \<and> uses_certificate s'"
proof -
  obtain parsed where parts: "\<not> (entry_is_symlink entry \<or> \<not> entry_is_dir entry)" "require_source_package entry = Inr ()"
    "parse_model source_file_ok (entry_manifest entry) = Inr parsed" "entry_name entry = sf_source_id parsed"
    "require_sibling_view_reference (directory @ [entry_name entry]) parsed = Inr ()"
    "resolve_source py parse_int budgets databases dir [] parsed = Inr s"
    using assms(1) by (auto simp: load_entry_def bindE_Inr_iff split: if_splits)
  from resolve_source_elsewhere [OF parts(6) assms(2)] obtain s' where
    "resolve_source py parse_int budgets databases dir' env parsed = Inr s'" "source_id s' = source_id s" "uses_certificate s'"
    by blast
  with parts(1-5) show ?thesis by (simp add: load_entry_def)
qed

lemma load_all:
  assumes "\<And>e. e \<in> set entries \<Longrightarrow> \<exists>s. f e = Inr s \<and> Q e s"
  shows "\<exists>new. foldE (\<lambda>sources entry. bindE (f entry) (\<lambda>s. Inr (sources @ [s]))) acc entries = Inr (acc @ new) \<and>
    list_all2 Q entries new"
  using assms
proof (induction entries arbitrary: acc)
  case (Cons e es)
  obtain s where s: "f e = Inr s" "Q e s" using Cons.prems [of e] by auto
  obtain new where "foldE (\<lambda>sources entry. bindE (f entry) (\<lambda>s. Inr (sources @ [s]))) (acc @ [s]) es = Inr ((acc @ [s]) @ new)"
    "list_all2 Q es new" using Cons.IH [of "acc @ [s]"] Cons.prems by auto
  with s show ?case by (intro exI [of _ "s # new"]) simp
qed simp

lemma loaded_elsewhere:
  assumes load: "load_registry py parse_int listing directory budgets databases dir [] = Inr reg"
    and clear: "\<forall>f. databases = Inr f \<longrightarrow> (\<forall>(n, d) \<in> set (database_file_profiles f).
        env_get env (ds_host_env d) = None \<and> env_get env (ds_port_env d) = None)"
  shows "\<exists>reg'. load_registry py parse_int listing directory budgets databases dir' env = Inr reg' \<and>
    set (registry_source_ids reg') = set (registry_source_ids reg) \<and>
    (\<forall>sid s. registry_get reg' sid = Some s \<longrightarrow> uses_certificate s)"
proof -
  obtain entries where entries: "listing = Inr entries" "entries \<noteq> []"
    using load unfolding load_registry_def bindE_Inr_iff by (cases listing) (auto split: if_splits)
  let ?load = "\<lambda>bs ds dir env. load_entry py parse_int bs (database_file_profiles ds) dir env directory"
  from load [unfolded load_registry_def bindE_Inr_iff] entries obtain bs ds sources where
    bs: "load_budget_profiles budgets = Inr bs" and ds: "databases = Inr ds" "database_file_ok ds" and
    fold: "foldE (\<lambda>sources entry. bindE (?load bs ds dir [] entry) (\<lambda>s. Inr (sources @ [s]))) []
      (sort_key entry_name entries) = Inr sources"
    unfolding parse_model_Inr by (elim exE conjE) (simp add: bindE_Inr_iff, blast)
  have usable: "\<forall>n d. map_of (database_file_profiles ds) n = Some d \<longrightarrow> usable_elsewhere env d"
    using ds clear by (auto simp: database_file_ok_def list_all_iff usable_elsewhere_def dest!: map_of_SomeD)
  from load_entries_Inr [OF fold] have loaded: "map (?load bs ds dir []) (sort_key entry_name entries) = map Inr sources"
    by simp
  have "\<exists>s'. ?load bs ds dir' env e = Inr s' \<and> source_id s' = entry_name e \<and> uses_certificate s'"
    if "e \<in> set (sort_key entry_name entries)" for e
  proof -
    have "?load bs ds dir [] e \<in> set (map Inr sources)" using that unfolding loaded [symmetric] by auto
    then obtain s where s: "?load bs ds dir [] e = Inr s" by auto
    have "source_id s = entry_name e"
      by (rule conjunct1 [OF load_entry_Inr [OF s]])
        (use budgets_Inr [OF bs] usable in \<open>auto simp: usable_elsewhere_def\<close>)
    with load_entry_elsewhere [OF s usable, of dir'] show ?thesis by auto
  qed
  from load_all [of "sort_key entry_name entries" "?load bs ds dir' env" "\<lambda>e s. source_id s = entry_name e \<and> uses_certificate s" "[]", OF this]
  obtain new where new: "foldE (\<lambda>sources entry. bindE (?load bs ds dir' env entry) (\<lambda>s. Inr (sources @ [s]))) []
      (sort_key entry_name entries) = Inr new"
    and each: "list_all2 (\<lambda>e s. source_id s = entry_name e \<and> uses_certificate s) (sort_key entry_name entries) new" by auto
  have load': "load_registry py parse_int listing directory budgets databases dir' env = Inr (source_registry new)"
    using bs ds entries new by (simp add: load_registry_def parse_model_def)
  have ids: "set (registry_source_ids (source_registry new)) = set (registry_source_ids reg)"
    using load_registry_Inr [OF load] load_registry_Inr [OF load'] entries(1) by auto
  have certificates: "uses_certificate s" if "s \<in> set new" for s
    using each that by (auto simp: list_all2_conv_all_nth in_set_conv_nth)
  have "uses_certificate s" if "registry_get (source_registry new) sid = Some s" for sid s
  proof -
    have "(sid, s) \<in> set (source_registry new)" using that unfolding registry_get_def by (rule map_of_SomeD)
    then have "s \<in> set new" using registry_wf [of new] by auto
    then show ?thesis by (rule certificates)
  qed
  with load' ids show ?thesis by blast
qed

text \<open>
  C37: packages that pass the check load where they are deployed. When the check succeeds, it read
  no environment, and in every environment that leaves hosts and ports alone, with any credential
  directory, the program loads a registry from the same files: its sources are exactly the ones
  listed, sorted and without duplicates, and each authenticates with a client certificate over
  fully verified TLS, never with a password.
\<close>
theorem validated_packages_load:
  assumes "validate_packages py parse_int files = Inr result" and "no_overrides files env"
  shows "sorted (valid_source_ids result) \<and> distinct (valid_source_ids result) \<and>
    source_count result = length (valid_source_ids result) \<and>
    (\<exists>reg. load_registry py parse_int (root_listing files) (root_parts files @ [''config'', ''sources''])
        (root_budgets files) (root_databases files) credential_directory env = Inr reg \<and>
      set (registry_source_ids reg) = set (valid_source_ids result) \<and>
      (\<forall>sid s. registry_get reg sid = Some s \<longrightarrow> uses_certificate s))"
proof -
  obtain reg where load: "load_registry py parse_int (root_listing files) (root_parts files @ [''config'', ''sources''])
        (root_budgets files) (root_databases files) ''/run/secrets/query-man/databases'' [] = Inr reg"
    and ids: "valid_source_ids result = sort (registry_source_ids reg)" "source_count result = length (valid_source_ids result)"
    using assms(1) by (auto simp: validate_packages_def bindE_Inr_iff Let_def split: if_splits)
  obtain sources where "reg = source_registry sources"
    using load unfolding load_registry_def bindE_Inr_iff by (cases "root_listing files") (auto simp: bindE_Inr_iff split: if_splits)
  then have "distinct (registry_source_ids reg)" using registry_wf [of sources] by (simp add: registry_source_ids_def)
  with loaded_elsewhere [OF load assms(2) [unfolded no_overrides_def], of credential_directory] ids show ?thesis by simp
qed

section \<open>A concrete root\<close>

definition example_certificate_file :: database_file where
  "example_certificate_file = \<lparr>database_file_version = 1, database_file_profiles =
     [(''main'', \<lparr>ds_host = ''db1,db2'', ds_host_env = Some ''DB_HOST'', ds_port = 5432, ds_port_env = None,
        ds_database = ''shop'', ds_sslmode = ''verify-full'', ds_authentication = ConfiguredClientCertificate\<rparr>)]\<rparr>"

definition example_root :: package_root where
  "example_root = \<lparr>sources_symlink = False, budgets_symlink = False, databases_symlink = False,
     root_listing = Inr [example_entry], root_parts = [''/'', ''srv''], root_budgets = Inr example_budget_file,
     root_databases = Inr example_certificate_file\<rparr>"

lemma example_root_valid:
  "\<exists>result. validate_packages plain_python (\<lambda>s. None) example_root = Inr result"
proof -
  have files: "budget_file_ok example_budget_file" "database_file_ok example_certificate_file" by code_simp+
  then obtain bs where bs: "load_budget_profiles (Inr example_budget_file) = Inr bs"
    by (simp add: load_budget_profiles_def parse_model_def)
  have budget: "map_of bs ''standard'' \<noteq> None"
    using bs files by (auto simp: load_budget_profiles_def parse_model_def example_budget_file_def)
  have "split_on (CHR '','') ''db1,db2'' = [''db1'', ''db2'']"
    "py_strip ''db1'' = ''db1''" "py_strip ''db2'' = ''db2''" "py_len ''db1,db2'' = 7" by code_simp+
  then have "resolve_host [] (snd (hd (database_file_profiles example_certificate_file))) = Inr ''db1,db2''"
    by (simp add: resolve_host_def example_certificate_file_def py_starts_def)
  with budget have "\<exists>s. resolve_source plain_python (\<lambda>s. None) bs (database_file_profiles example_certificate_file)
      ''/run/secrets/query-man/databases'' [] example_source_file = Inr s"
    by (auto simp: resolve_source_def example_source_file_def example_certificate_file_def resolve_port_def
        raise_if_def is_forbidden_schema_def py_starts_def resolve_authentication_def Let_def)
  moreover have "source_file_ok example_source_file" "require_source_package example_entry = Inr ()"
    "require_sibling_view_reference (example_directory @ [entry_name example_entry]) example_source_file = Inr ()"
    by code_simp+
  ultimately obtain s where "load_entry plain_python (\<lambda>s. None) bs (database_file_profiles example_certificate_file)
      ''/run/secrets/query-man/databases'' [] example_directory example_entry = Inr s"
    by (auto simp: load_entry_def example_entry_def parse_model_def example_source_file_def)
  with bs files show ?thesis
    by (simp add: validate_packages_def example_root_def load_registry_def parse_model_def Let_def)
qed

theorem validated_packages_load_witness:
  "\<exists>reg. load_registry plain_python (\<lambda>s. None) (Inr [example_entry]) example_directory (Inr example_budget_file)
      (Inr example_certificate_file) ''/elsewhere'' [(''OTHER'', ''x'')] = Inr reg \<and>
    (\<forall>sid s. registry_get reg sid = Some s \<longrightarrow> uses_certificate s)"
proof -
  obtain result where valid: "validate_packages plain_python (\<lambda>s. None) example_root = Inr result"
    using example_root_valid by blast
  have "no_overrides example_root [(''OTHER'', ''x'')]"
    by (simp add: no_overrides_def example_root_def example_certificate_file_def env_get_def)
  from validated_packages_load [OF valid this, of "''/elsewhere''"] show ?thesis
    by (auto simp: example_root_def)
qed

end
