(* ===== verification/Spec2Isabelle.thy ===== *)
theory Spec2Isabelle
  imports Errors SourceModels Operations ExecutorStateSpec QueryService Revision CatalogSpec MetadataServiceSpec QueryPlanSpec SqlValidationSpec CompositionSpec
    SessionPolicySpec ObjectPolicySql CatalogSql ConnectionPools LoggingSpec Server AdminRequestSpec SourcePackages
begin

text \<open>
  Verification of Query Man, the service in \<open>src/query_man\<close> that answers read-only SQL of
  authenticated callers on published PostgreSQL views.

  \<^bold>\<open>The program.\<close> A registry of sources is loaded from reviewed packages. For each source the
  metadata service loads, validates and caches the published views and binds them to a revision. A
  request names a source, a statement and two revisions; the statement is parsed and validated
  against the published relations and the allowlists, and executed in a read-only transaction
  that checks the session, the functions and operators the statement resolves to, and the plan,
  before a cursor opens; the result is encoded within the limits of the budget. Around it are
  authentication, the routes, audit events, counters and health, and a shutdown that drains.

  \<^bold>\<open>Theories and sources.\<close> Each theory starts with a note of its own.
  \<^item> \<open>Prelude\<close>: sums as results (\<open>bindE\<close>, \<open>foldE\<close>, the collection \<open>err_simps\<close>), dictionaries as
    association lists in insertion order, runs of step functions and step relations, and the
    locales \<open>keyed_store\<close>, \<open>invariant_system\<close>, \<open>invariant_relation\<close>, \<open>draining_relation\<close>.
  \<^item> \<open>PyValue\<close>: the Python values that cross component borders, text as UTF-8 bytes, \<open>json\<close>,
    \<open>str\<close>, \<open>strip\<close>, and the locale \<open>self_delimiting\<close> of the codes that can be split again.
  \<^item> \<open>Errors\<close> (\<open>errors.py\<close>), \<open>SourceModels\<close> (\<open>source_catalog/models.py\<close>, \<open>metadata/models.py\<close>).
  \<^item> \<open>Operations\<close> (\<open>runtime/operations.py\<close>): counters, health, public status; \<open>Logging\<close>,
    \<open>LoggingSpec\<close> (the same file): the redaction, the log line and the handler of the process.
  \<^item> \<open>Registry\<close>, \<open>RegistryLoading\<close> (\<open>source_catalog/registry.py\<close>), \<open>ReaderPolicy\<close>
    (\<open>source_catalog/reader_policy.py\<close>).
  \<^item> \<open>Database\<close>: not a file of the program but its interface to psycopg. A database is an oracle
    that answers each statement from the statements sent before; a session is a function from the
    trace so far to an outcome, the operational events and the longer trace. All statements on a
    connection, the order of commit, rollback and cancel requests included, are thus visible.
  \<^item> \<open>Catalog\<close>, \<open>CatalogSpec\<close> (\<open>metadata/catalog.py\<close>); \<open>Revision\<close> (\<open>metadata/revision.py\<close>);
    \<open>MetadataService\<close>, \<open>MetadataServiceSpec\<close> (\<open>metadata/service.py\<close>) as a state machine of
    the parts of a request before and after it awaits the catalog.
  \<^item> \<open>SqlValues\<close>, with the conditions of SQL as true, false or null, and on it the queries that the
    program sends, each evaluated on records of what the server holds: \<open>SessionPolicySql\<close>,
    \<open>SessionPolicySpec\<close> (the session query of \<open>source_catalog/reader_policy.py\<close> and the settings of
    \<open>query.py\<close> and \<open>catalog.py\<close> before it), \<open>ObjectPolicySql\<close> (the function and operator queries of
    \<open>query.py\<close>), \<open>CatalogSql\<close> (the catalog query of \<open>catalog.py\<close>).
  \<^item> \<open>ConnectionPools\<close> (\<open>_get_pool\<close> and \<open>close\<close> of \<open>query.py\<close> and \<open>catalog.py\<close>): which pools are
    created, with which settings, in every interleaving of tasks.
  \<^item> \<open>SqlValidation\<close>, \<open>SqlValidationSpec\<close> (\<open>guarded_query/sql_validation.py\<close>); \<open>ResultEncoding\<close>
    (\<open>guarded_query/result_encoding.py\<close>).
  \<^item> \<open>QueryPlan\<close>, \<open>QueryExecutor\<close>, \<open>QueryService\<close>, \<open>ExecutorState\<close> with \<open>QueryPlanSpec\<close>,
    \<open>QueryResultSpec\<close>, \<open>QueryExecutorSpec\<close>, \<open>ExecutorStateSpec\<close> (\<open>guarded_query/query.py\<close>):
    plans, the execution on a connection, the service that validates and executes, and the state
    that concurrent queries share, as an inductive step relation.
  \<^item> \<open>Access\<close>, \<open>Gateway\<close>, \<open>HttpApp\<close> (\<open>delivery/access.py\<close>, \<open>gateway.py\<close>, \<open>app.py\<close>).
  \<^item> \<open>Config\<close> (\<open>runtime/config.py\<close>); \<open>Composition\<close>, \<open>CompositionSpec\<close>
    (\<open>runtime/composition.py\<close>); \<open>Server\<close> (\<open>runtime/server.py\<close>). This theory puts the parts
    together.
  \<^item> \<open>AdminRequest\<close>, \<open>AdminRequestSpec\<close>, \<open>SourcePackages\<close>: the scripts
    \<open>query_man_request.py\<close> and \<open>validate_source_packages.py\<close> under
    \<open>.agents/skills/query-man-admin/scripts\<close>.

  \<^bold>\<open>What is shown.\<close>
  \<^item> SQL validation: an accepted statement has approved nodes, functions and operators only and
    reads published relations only; the validator is equivalent to a declarative specification
    given enough stack frames, and fails closed without.
  \<^item> Execution: whatever the database answers, a cursor opens only behind every gate and for the
    validated text; an execution ends in a commit, a rollback or an undeliverable cancel; results
    are exact prefixes within the limits; failures are public errors.
  \<^item> Concurrency: in every interleaving a source stays within its semaphore, no permit is lost, and
    a stopped executor drains within a bound on its own steps.
  \<^item> Metadata: answers are validated snapshots under their revision in every interleaving;
    revisions and structure signatures bind the content; stale answers are bounded; policy
    failures drop the cache; the catalog is read in one gated transaction.
  \<^item> Queries of the program: a catalog load returns exactly the readable views of the allowed schemas
    with their readable columns; the object check passes exactly when every overload that a
    function or operator of the statement can resolve to is built in, not volatile, not a security
    definer and executable; the session gate opens exactly in a session of the policy, and the
    settings of the program lead to one. Each source gets one pool.
  \<^item> Delivery: which caller a token authenticates, what reaches a service, what an error shows.
  \<^item> Logs: a redacted text holds no bearer credential and every quoted literal is masked; a line has
    the allowed fields and their types only.
  \<^item> Administration: the operator's token comes from a protected place, goes to an encrypted or a
    loopback address only and is not printed; packages that pass the check are loaded by the
    service in every environment that leaves hosts and ports alone.
  \<^item> Runtime: what a loaded registry and configuration are, the concurrency of a deployed service
    against its pools, the deadline, the completeness of the cleanup, the finality of a shutdown.

  Interfaces are locales: the provider of metadata and the validator of requests in
  \<open>QueryService\<close>, systems with an invariant or a draining measure in \<open>Prelude\<close>, self-delimiting
  codes in \<open>PyValue\<close>; each is interpreted on the definitions of the component that provides it,
  and the properties rest on those interpretations.

  \<^bold>\<open>Parameters.\<close> Code outside the repository is an argument: the parser of pglast, SHA-256,
  the table of \<open>str.casefold\<close>, \<open>int\<close> of a text, loopback IPv6 addresses, the database, the clocks,
  the decoding of files and requests by YAML, pydantic, JSON and the framework, the functions of
  PostgreSQL that a query calls (privileges, type names, comments, displayed settings), the table of
  word characters and of lower case outside ASCII, the check of an address by \<open>urlsplit\<close>, the file
  system and the exchange with the server in the scripts, dotenv and uvicorn. Where a property needs
  more of them it says so: the binding of revisions that digests do not collide, the reference
  specification of the validator that frames suffice. Python's recursion limit is the number
  \<open>frames\<close>, the fuel of both traversals: running out is the value \<open>RecursionError\<close>, and a tree of
  depth \<open>d\<close> needs a number of frames linear in \<open>d\<close>. The loop over the plan nodes has its size as
  measure.

  \<^bold>\<open>Bounds and simplifications.\<close> Python integers are \<open>int\<close>; floats are rationals (plan costs,
  clock readings) or integers where the program only makes whole numbers; a lock that guards
  a synchronous method makes it one step; a path is its text.

  \<^bold>\<open>Not modelled.\<close> The values that audit records carry beyond their events; the connections inside
  a pool, and what psycopg does with them; the command line of the scripts, and the proxies that
  urllib adds; the depth of the recursion in \<open>_redact_token\<close>; the package markers, which hold
  no code; the tests.

  \<^bold>\<open>Findings.\<close> Three theorems state defects: \<open>sublink_operator_not_checked\<close> (the operator of a
  quantified subquery escapes the operator allowlist), \<open>prefixed_secret_not_redacted\<close> (the value of
  a setting such as \<open>QUERY_MAN_API_TOKEN\<close> is logged unchanged) and
  \<open>empty_policy_file_opens_service\<close> below (an empty policy file setting lets callers without a token
  in from every interface). Two more concern code at the border of the model: the request script
  sends the token over plaintext to a proxy of the environment, and it does not catch the exceptions
  of \<open>http.client\<close> (the outcome \<open>Traceback\<close> of \<open>run_request\<close>).
\<close>

section \<open>The service as deployed\<close>

lemma build_app_Inr:
  assumes "build_app py parse_int digest files env old cfg = Inr app"
  shows "load_registry py parse_int (source_listing files) (source_directory_parts files) (budget_decoded files)
      (database_decoded files) (database_credential_directory cfg) env = Inr (app_registry app) \<and>
    choose_policy digest (policy_decoded files) env cfg = Inr (app_policy app) \<and>
    new_deadline (shutdown_grace_ms cfg) = Inr (rs_deadline (app_runtime app)) \<and>
    \<not> trigger_started (app_runtime app) \<and> rs_executor (app_runtime app) = initial_executor \<and>
    rs_operations (app_runtime app) = reconcile_sources (registry_source_ids (app_registry app)) (reset old)"
  using assms by (auto simp: build_app_def Let_def err_simps map_error_def split: sum.splits)

lemma loaded_registry_ok:
  assumes "load_registry py parse_int listing directory budgets databases credential_directory env = Inr reg"
  shows "registry_ok reg"
proof -
  have "0 \<le> max_concurrent_queries b" if "budget_ok b" for b
    using that by (simp add: budget_ok_def budget_limits_def)
  with load_registry_Inr [OF assms] show ?thesis by (fastforce simp: registry_ok_def source_safe_def)
qed

lemma choose_policy_anonymous:
  assumes "choose_policy digest decoded env cfg = Inr policy" and "anonymous policy \<noteq> None"
  shows "api_token cfg = None \<and> access_policy_file cfg = None"
  using assms
  by (auto simp: choose_policy_def load_policy_def legacy_policy_def err_simps split: option.splits sum.splits if_splits)

text \<open>
  C8: the service as deployed. When the configuration loads and the application is built from it,
  a caller without a token is let in only on the loopback interface, unless the setting of the
  policy file is the empty text; and in every run of the executor over the loaded registry, a
  source never has more queries at its database than its budget allows, and so never more than
  its pool has connections.
\<close>
theorem deployed_service_safe:
  assumes "load_runtime_config py config_int ipv6_loopback env root_directory = Inr cfg"
    and "build_app py parse_int digest files env old cfg = Inr app"
  shows "(field_text env ''QUERY_MAN_ACCESS_POLICY_FILE'' ''access_policy_file'' \<noteq> Some [] \<and>
      authenticate digest (app_policy app) None \<noteq> None \<longrightarrow> is_loopback py ipv6_loopback (config_host cfg)) \<and>
    (\<forall>es st sid source. executor_run (app_registry app) (rs_executor (app_runtime app)) es st \<and>
       registry_get (app_registry app) sid = Some source \<longrightarrow>
       source_safe py source \<and> card (holders st sid) \<le> nat (max_concurrent_queries (budget source)) \<and>
       max_concurrent_queries (budget source) \<le> max_pool_size (budget source))"
proof -
  note app = build_app_Inr [OF assms(2)]
  then have reg: "load_registry py parse_int (source_listing files) (source_directory_parts files) (budget_decoded files)
      (database_decoded files) (database_credential_directory cfg) env = Inr (app_registry app)" by simp
  have "is_loopback py ipv6_loopback (config_host cfg)"
    if "field_text env ''QUERY_MAN_ACCESS_POLICY_FILE'' ''access_policy_file'' \<noteq> Some []"
      and "authenticate digest (app_policy app) None \<noteq> None"
  proof -
    have "api_token cfg = None" "access_policy_file cfg = None"
      using that(2) choose_policy_anonymous [of digest "policy_decoded files" env cfg "app_policy app"] app
      by (simp_all add: authenticate_def)
    then show ?thesis using loaded_without_authentication [OF assms(1)] that(1) by blast
  qed
  moreover have "source_safe py source \<and> card (holders st sid) \<le> nat (max_concurrent_queries (budget source)) \<and>
       max_concurrent_queries (budget source) \<le> max_pool_size (budget source)"
    if "executor_run (app_registry app) (rs_executor (app_runtime app)) es st"
      and "registry_get (app_registry app) sid = Some source" for es st sid source
  proof -
    have safe: "source_safe py source" using load_registry_Inr [OF reg] that(2) by blast
    have "executor_run (app_registry app) initial_executor es st" using that(1) app by simp
    from concurrency_bounded [OF this loaded_registry_ok [OF reg] that(2)] safe
    show ?thesis by (auto simp: source_safe_def budget_ok_def)
  qed
  ultimately show ?thesis by blast
qed


section \<open>A concrete deployment\<close>

definition example_deployment :: deployment where
  "example_deployment = \<lparr>source_listing = Inr [example_entry], source_directory_parts = example_directory,
     budget_decoded = Inr example_budget_file, database_decoded = Inr example_database_file,
     policy_decoded = Inl ''absent''\<rparr>"

lemma example_builds:
  assumes "map_of env ''DB_HOST'' = Some '' db1,db2 ''" and "map_of env ''DB_PASSWORD'' = Some ''pw''"
    and "0 \<le> shutdown_grace_ms cfg" and "access_policy_file cfg = None"
  shows "\<exists>app. build_app plain_python (\<lambda>s. None) digest example_deployment env initial_operations cfg = Inr app"
proof -
  obtain reg where "load_registry plain_python (\<lambda>s. None) (Inr [example_entry]) example_directory
    (Inr example_budget_file) (Inr example_database_file) (database_credential_directory cfg) env = Inr reg"
    using example_registry_loads [OF assms(1,2)] by blast
  with assms(3,4) show ?thesis
    by (simp add: build_app_def example_deployment_def map_error_def new_deadline_def choose_policy_def Let_def
        split: option.split)
qed

lemma example_service_builds:
  "\<exists>app. build_app plain_python (\<lambda>s. None) (\<lambda>t. t) example_deployment example_environment initial_operations
     example_config = Inr app"
  by (rule example_builds) (simp_all add: example_environment_def example_config_def)

theorem deployed_service_safe_witness:
  "\<exists>app. build_app plain_python (\<lambda>s. None) (\<lambda>t. t) example_deployment example_environment initial_operations
       example_config = Inr app \<and>
     authenticate (\<lambda>t. t) (app_policy app) None = None \<and>
     (\<forall>source. registry_get (app_registry app) ''shop'' = Some source \<longrightarrow> source_safe plain_python source)"
proof -
  obtain app where app: "build_app plain_python (\<lambda>s. None) (\<lambda>t. t) example_deployment example_environment
      initial_operations example_config = Inr app" using example_service_builds by blast
  note safe = deployed_service_safe [OF example_config_loads app]
  have "\<not> is_loopback plain_python (\<lambda>s. False) (config_host example_config)"
    "field_text example_environment ''QUERY_MAN_ACCESS_POLICY_FILE'' ''access_policy_file'' \<noteq> Some []"
    by code_simp+
  then have "authenticate (\<lambda>t. t) (app_policy app) None = None" using safe [THEN conjunct1] by simp
  moreover have "source_safe plain_python source" if "registry_get (app_registry app) ''shop'' = Some source" for source
    using safe [THEN conjunct2, rule_format, of "[]" "rs_executor (app_runtime app)" "''shop''" source] that by simp
  ultimately show ?thesis using app by (intro exI [of _ app]) simp
qed


text \<open>
  C40: the exception of the empty text is real: with \<open>QUERY_MAN_ACCESS_POLICY_FILE\<close> set to the empty
  text and a host that is not loopback, the configuration loads, the application is built, and a
  caller without a token is the local development caller.
\<close>
theorem empty_policy_file_opens_service:
  "\<exists>cfg app. load_runtime_config plain_python (\<lambda>s. None) (\<lambda>s. False) empty_policy_setting ''/srv'' = Inr cfg \<and>
     \<not> is_loopback plain_python (\<lambda>s. False) (config_host cfg) \<and>
     build_app plain_python (\<lambda>s. None) digest example_deployment empty_policy_setting initial_operations cfg = Inr app \<and>
     authenticate digest (app_policy app) None =
       Some \<lparr>caller_id = ''local-development'', tenant_id = ''local-development'', operator = False\<rparr>"
proof -
  obtain cfg where cfg: "load_runtime_config plain_python (\<lambda>s. None) (\<lambda>s. False) empty_policy_setting ''/srv'' = Inr cfg"
    "config_host cfg = ''0.0.0.0''" "api_token cfg = None" "access_policy_file cfg = None" "0 \<le> shutdown_grace_ms cfg"
    using empty_policy_setting_loads by blast
  then obtain app where app: "build_app plain_python (\<lambda>s. None) digest example_deployment empty_policy_setting
      initial_operations cfg = Inr app"
    using example_builds [of empty_policy_setting cfg digest] by (auto simp: empty_policy_setting_def)
  have "app_policy app = local_policy" using build_app_Inr [OF app] cfg(3,4) by (simp add: choose_policy_def)
  moreover have "\<not> is_loopback plain_python (\<lambda>s. False) ''0.0.0.0''" by code_simp
  ultimately show ?thesis using cfg(1,2) app by (auto simp: authenticate_def local_policy_def)
qed

end
